(* ===== verification/Pg_Prelude.thy ===== *)
theory Pg_Prelude
  imports Main "HOL-Library.Word"
begin

text \<open>
  Shared vocabulary of the development.

  \<^item> Go strings and byte slices are byte sequences: \<open>string\<close> (a list of \<open>char\<close>, each one byte).
  \<^item> Go errors are values: \<open>go_error\<close> keeps the identity the code compares (\<open>io.EOF\<close>,
    a \<open>net.Error\<close> that is a timeout) and the pieces of a \<open>fmt.Errorf\<close> call, and
    \<open>Error\<close> renders the text; the quoting function behind \<open>%q\<close> is its argument.
  \<^item> A fallible call returns \<open>'a result\<close>: \<open>Inl\<close> the error, \<open>Inr\<close> the value.
  \<^item> The part of Go's \<open>strings\<close> package the program calls: prefix tests, prefix removal, white
    space trimming and case-insensitive comparison.
  \<^item> Lemma collections the component theories share.
\<close>

section \<open>Lemma collections\<close>

named_theorems go_string_simps \<open>evaluation rules for the strings package\<close>
named_theorems decision_simps \<open>characterisations of the program's accept/reject decisions\<close>

section \<open>Lists\<close>

text \<open>The part before the first occurrence of an element is determined.\<close>

lemma first_occurrence_unique:
  "u @ q # x = v @ q # y \<Longrightarrow> q \<notin> set u \<Longrightarrow> q \<notin> set v \<Longrightarrow> u = v"
proof (induction u arbitrary: v)
  case Nil
  then show ?case by (cases v) auto
next
  case (Cons a u)
  then show ?case by (cases v) auto
qed

text \<open>Replacing one element changes a count by what the old and the new element contribute.\<close>

lemma length_filter_update:
  "i < length xs \<Longrightarrow>
     length (filter P (xs[i := y])) + (if P (xs ! i) then 1 else 0) = length (filter P xs) + (if P y then 1 else 0)"
proof (induction xs arbitrary: i)
  case (Cons x xs)
  show ?case
  proof (cases i)
    case (Suc j)
    then show ?thesis using Cons.IH [of j] Cons.prems by auto
  qed simp
qed simp

lemma list_all_update: "list_all P xs \<Longrightarrow> P y \<Longrightarrow> list_all P (xs[i := y])"
  by (auto simp: list_all_iff dest!: set_update_subset_insert [THEN subsetD])

section \<open>Errors and results\<close>

datatype go_error =
    EOF
  | NetTimeout string
  | ErrorString string
  | Errorf "fmt_piece list"
and fmt_piece =
    Lit string
  | Quoted string
  | Wrap go_error

type_synonym 'a result = "go_error + 'a"

text \<open>
  The text of an error. \<open>io.EOF\<close> renders as \<open>EOF\<close>; \<open>%q\<close> goes through the quoting
  function \<open>q\<close>; \<open>%w\<close> renders the wrapped error.
\<close>

primrec Error :: "(string \<Rightarrow> string) \<Rightarrow> go_error \<Rightarrow> string"
  and Error_piece :: "(string \<Rightarrow> string) \<Rightarrow> fmt_piece \<Rightarrow> string" where
  "Error q EOF = ''EOF''"
| "Error q (NetTimeout s) = s"
| "Error q (ErrorString s) = s"
| "Error q (Errorf ps) = concat (map (Error_piece q) ps)"
| "Error_piece q (Lit s) = s"
| "Error_piece q (Quoted s) = q s"
| "Error_piece q (Wrap e) = Error q e"

section \<open>The strings package\<close>

text \<open>\<open>strings.HasPrefix\<close> and \<open>strings.TrimPrefix\<close>.\<close>

fun HasPrefix :: "string \<Rightarrow> string \<Rightarrow> bool" where
  "HasPrefix s [] = True"
| "HasPrefix [] (p # ps) = False"
| "HasPrefix (c # cs) (p # ps) = (c = p \<and> HasPrefix cs ps)"

definition TrimPrefix :: "string \<Rightarrow> string \<Rightarrow> string" where
  "TrimPrefix s p = (if HasPrefix s p then drop (length p) s else s)"

lemma HasPrefix_iff: "HasPrefix s p \<longleftrightarrow> (\<exists>t. s = p @ t)"
  by (induction s p rule: HasPrefix.induct) auto

lemma HasPrefix_append [simp]: "HasPrefix (p @ t) p"
  by (auto simp: HasPrefix_iff)

lemma TrimPrefix_append [simp]: "TrimPrefix (p @ t) p = t"
  by (simp add: TrimPrefix_def)

lemma TrimPrefix_no_prefix [simp]: "\<not> HasPrefix s p \<Longrightarrow> TrimPrefix s p = s"
  by (simp add: TrimPrefix_def)

text \<open>
  The UTF-8 encodings of the runes \<open>unicode.IsSpace\<close> accepts: the six ASCII white space bytes,
  U+0085, U+00A0, U+1680, U+2000 to U+200A, U+2028, U+2029, U+202F, U+205F and U+3000.
  \<open>strings.TrimSpace\<close> removes such runes from both ends. Each encoding starts with a rune
  start byte and goes on with continuation bytes, so decoding the first (last) rune of a string
  gives one of them exactly when the string has its encoding as a prefix (suffix).
\<close>

definition bytes :: "nat list \<Rightarrow> string" where
  "bytes ns = map char_of ns"

definition spaceRunes :: "string list" where
  "spaceRunes =
     map (\<lambda>b. bytes [b]) [9, 10, 11, 12, 13, 32] @
     [bytes [194, 133], bytes [194, 160], bytes [225, 154, 128]] @
     map (\<lambda>b. bytes [226, 128, b]) [128 ..< 139] @
     [bytes [226, 128, 168], bytes [226, 128, 169], bytes [226, 128, 175],
      bytes [226, 129, 159], bytes [227, 128, 128]]"

definition leadingSpace :: "string list \<Rightarrow> string \<Rightarrow> string option" where
  "leadingSpace rs s = List.find (HasPrefix s) rs"

lemma leadingSpace_SomeD:
  "leadingSpace rs s = Some r \<Longrightarrow> r \<in> set rs \<and> HasPrefix s r"
  by (auto simp: leadingSpace_def find_Some_iff)

text \<open>
  The loop that removes runes from the front of a string; the runes are never empty, which is
  what makes it stop.
\<close>

function TrimLeftRunes :: "string list \<Rightarrow> string \<Rightarrow> string" where
  "TrimLeftRunes rs s =
     (case leadingSpace rs s of
        None \<Rightarrow> s
      | Some r \<Rightarrow> if r = [] then s else TrimLeftRunes rs (drop (length r) s))"
  by pat_completeness auto
termination
proof (relation "measure (\<lambda>(rs, s). length s)")
  fix rs s r
  assume "leadingSpace rs s = Some r" and "r \<noteq> []"
  then obtain t where "s = r @ t"
    by (auto dest!: leadingSpace_SomeD simp: HasPrefix_iff)
  with \<open>r \<noteq> []\<close> show "((rs, drop (length r) s), rs, s) \<in> measure (\<lambda>(rs, s). length s)"
    by simp
qed simp

declare TrimLeftRunes.simps [simp del]

definition TrimSpace :: "string \<Rightarrow> string" where
  "TrimSpace s =
     rev (TrimLeftRunes (map rev spaceRunes) (rev (TrimLeftRunes spaceRunes s)))"

lemma TrimLeftRunes_suffix: "\<exists>p. s = p @ TrimLeftRunes rs s"
proof (induction rs s rule: TrimLeftRunes.induct)
  case (1 rs s)
  show ?case
  proof (cases "leadingSpace rs s")
    case None
    then show ?thesis by (simp add: TrimLeftRunes.simps [of rs s])
  next
    case (Some r)
    show ?thesis
    proof (cases "r = []")
      case True
      with Some show ?thesis by (simp add: TrimLeftRunes.simps [of rs s])
    next
      case False
      obtain t where t: "s = r @ t"
        using Some by (auto dest!: leadingSpace_SomeD simp: HasPrefix_iff)
      from 1 [OF Some False] obtain p where "drop (length r) s = p @ TrimLeftRunes rs (drop (length r) s)"
        by blast
      with t have "s = (r @ p) @ TrimLeftRunes rs (drop (length r) s)" by simp
      moreover have "TrimLeftRunes rs s = TrimLeftRunes rs (drop (length r) s)"
        using Some False by (simp add: TrimLeftRunes.simps [of rs s])
      ultimately show ?thesis by metis
    qed
  qed
qed

text \<open>Trimming returns a contiguous piece of its input.\<close>

lemma TrimSpace_infix: "\<exists>p q. s = p @ TrimSpace s @ q"
proof -
  let ?u = "TrimLeftRunes spaceRunes s"
  obtain p where p: "s = p @ ?u" using TrimLeftRunes_suffix by blast
  obtain q where "rev ?u = q @ TrimLeftRunes (map rev spaceRunes) (rev ?u)"
    using TrimLeftRunes_suffix by blast
  then have "?u = TrimSpace s @ rev q"
    by (metis TrimSpace_def rev_append rev_rev_ident)
  with p show ?thesis by metis
qed

lemma TrimLeftRunes_stop: "leadingSpace rs s = None \<Longrightarrow> TrimLeftRunes rs s = s"
  by (simp add: TrimLeftRunes.simps [of rs s])

text \<open>
  \<open>strings.EqualFold\<close>: bytes are compared pairwise while both are ASCII, an upper case letter
  matching its lower case form; at the first non-ASCII byte the rest of both strings is handed to
  the Unicode case folding loop, which is the argument \<open>foldTail\<close>.
\<close>

definition foldByte :: "nat \<Rightarrow> nat \<Rightarrow> bool" where
  "foldByte s t =
     (t = s \<or>
      (let lo = min s t; hi = max s t in 65 \<le> lo \<and> lo \<le> 90 \<and> hi = lo + 97 - 65))"

fun EqualFold :: "(string \<Rightarrow> string \<Rightarrow> bool) \<Rightarrow> string \<Rightarrow> string \<Rightarrow> bool" where
  "EqualFold foldTail (s # ss) (t # ts) =
     (if 128 \<le> (of_char s :: nat) \<or> 128 \<le> (of_char t :: nat)
      then foldTail (s # ss) (t # ts)
      else foldByte (of_char s) (of_char t) \<and> EqualFold foldTail ss ts)"
| "EqualFold foldTail [] [] = True"
| "EqualFold foldTail (s # ss) [] = False"
| "EqualFold foldTail [] (t # ts) = False"

definition ascii :: "string \<Rightarrow> bool" where
  "ascii s = list_all (\<lambda>c. (of_char c :: nat) < 128) s"

definition lowerByte :: "nat \<Rightarrow> nat" where
  "lowerByte b = (if 65 \<le> b \<and> b \<le> 90 then b + 32 else b)"

definition lower :: "string \<Rightarrow> nat list" where
  "lower s = map (\<lambda>c. lowerByte (of_char c)) s"

lemma foldByte_lower: "foldByte s t \<longleftrightarrow> lowerByte s = lowerByte t"
  unfolding foldByte_def lowerByte_def Let_def min_def max_def by auto

text \<open>On ASCII strings the comparison is equality of the lower case forms.\<close>

lemma EqualFold_ascii:
  "ascii s \<Longrightarrow> ascii t \<Longrightarrow> EqualFold foldTail s t \<longleftrightarrow> lower s = lower t"
  by (induction foldTail s t rule: EqualFold.induct)
     (auto simp: ascii_def lower_def foldByte_lower)

section \<open>The handler interface\<close>

text \<open>
  A query handler gets the text of a query and returns an error (the query is refused), nil (the
  query goes on unchanged) or the bytes to send instead. The contract the proxy relies on: what a
  handler lets through, rewritten or unchanged, satisfies the policy \<open>ok\<close>.
\<close>

type_synonym handler = "string \<Rightarrow> string option result"

locale query_policy =
  fixes handler :: handler
    and ok :: "string \<Rightarrow> bool"
  assumes rewritten_ok: "handler q = Inr (Some t) \<Longrightarrow> ok t"
    and unchanged_ok: "handler q = Inr None \<Longrightarrow> ok q"

end
