(* ===== verification/Go_Net.thy ===== *)
theory Go_Net
  imports Pg_Prelude
begin

text \<open>
  The part of Go's \<open>net\<close> package the access control and the TLS set-up use: \<open>ParseIP\<close>,
  \<open>ParseCIDR\<close>, \<open>CIDRMask\<close>, \<open>IP.To4\<close>, \<open>IP.Mask\<close>, \<open>IPNet.Contains\<close> and
  \<open>SplitHostPort\<close>. An \<open>IP\<close> is a byte slice of length 4 or 16, as in Go; a call that returns nil
  or an error returns \<open>None\<close>.

  Shown: \<open>IPNet.Contains\<close> with a mask of \<open>n\<close> ones is agreement of the first \<open>n\<close> bits of
  two addresses of the same length; the address in a network produced by \<open>ParseCIDR\<close>.
\<close>

unbundle bit_operations_syntax

type_synonym byte = "8 word"
type_synonym ip = "byte list"

section \<open>Parsing addresses\<close>

definition digitVal :: "char \<Rightarrow> nat option" where
  "digitVal c = (let b = (of_char c :: nat) in if 48 \<le> b \<and> b \<le> 57 then Some (b - 48) else None)"

definition hexVal :: "char \<Rightarrow> nat option" where
  "hexVal c =
     (let b = (of_char c :: nat) in
      if 48 \<le> b \<and> b \<le> 57 then Some (b - 48)
      else if 97 \<le> b \<and> b \<le> 102 then Some (b - 97 + 10)
      else if 65 \<le> b \<and> b \<le> 70 then Some (b - 65 + 10)
      else None)"

text \<open>
  \<open>parseIPv4Fields\<close>: \<open>afterDot\<close> holds at the start and after a dot, \<open>fields\<close> are the
  finished octets.
\<close>

fun parseIPv4Fields :: "string \<Rightarrow> bool \<Rightarrow> nat \<Rightarrow> nat \<Rightarrow> byte list \<Rightarrow> byte list option" where
  "parseIPv4Fields [] afterDot val digLen fields =
     (if length fields < 3 then None else Some (fields @ [of_nat val]))"
| "parseIPv4Fields (c # cs) afterDot val digLen fields =
     (case digitVal c of
        Some d \<Rightarrow>
          if digLen = 1 \<and> val = 0 then None
          else if val * 10 + d > 255 then None
          else parseIPv4Fields cs False (val * 10 + d) (digLen + 1) fields
      | None \<Rightarrow>
          if c = CHR ''.'' then
            if afterDot \<or> cs = [] then None
            else if length fields = 3 then None
            else parseIPv4Fields cs True 0 0 (fields @ [of_nat val])
          else None)"

text \<open>The digits of one group: how many, their value, and the rest of the string.\<close>

fun hexRun :: "string \<Rightarrow> nat \<Rightarrow> nat \<Rightarrow> (nat \<times> nat \<times> string) option" where
  "hexRun [] off acc = Some (off, acc, [])"
| "hexRun (c # cs) off acc =
     (case hexVal c of
        None \<Rightarrow> Some (off, acc, c # cs)
      | Some d \<Rightarrow>
          if off > 3 then None
          else if acc * 16 + d > 65535 then None
          else hexRun cs (off + 1) (acc * 16 + d))"

definition finishIPv6 :: "string \<Rightarrow> byte list \<Rightarrow> nat option \<Rightarrow> byte list option" where
  "finishIPv6 s ip ellipsis =
     (if s \<noteq> [] then None
      else if length ip < 16 then
        (case ellipsis of
           None \<Rightarrow> None
         | Some e \<Rightarrow> Some (take e ip @ replicate (16 - length ip) 0 @ drop e ip))
      else if ellipsis \<noteq> None then None
      else Some ip)"

function loopIPv6 :: "string \<Rightarrow> byte list \<Rightarrow> nat option \<Rightarrow> byte list option" where
  "loopIPv6 s ip ellipsis =
     (if length ip < 16 then
        (case hexRun s 0 0 of
           None \<Rightarrow> None
         | Some (off, acc, rest) \<Rightarrow>
             if off = 0 then None
             else if rest \<noteq> [] \<and> hd rest = CHR ''.'' then
               if ellipsis = None \<and> length ip \<noteq> 12 then None
               else if length ip + 4 > 16 then None
               else (case parseIPv4Fields s True 0 0 [] of
                       None \<Rightarrow> None
                     | Some v4 \<Rightarrow> finishIPv6 [] (ip @ v4) ellipsis)
             else
               let ip' = ip @ [of_nat (acc div 256), of_nat acc] in
               (case rest of
                  [] \<Rightarrow> finishIPv6 [] ip' ellipsis
                | c # cs \<Rightarrow>
                    if c \<noteq> CHR '':'' then None
                    else if cs = [] then None
                    else if hd cs = CHR '':'' then
                      if ellipsis \<noteq> None then None
                      else if tl cs = [] then finishIPv6 [] ip' (Some (length ip'))
                      else loopIPv6 (tl cs) ip' (Some (length ip'))
                    else loopIPv6 cs ip' ellipsis))
      else finishIPv6 s ip ellipsis)"
  by pat_completeness auto
termination
  by (relation "measure (\<lambda>(s, ip, e). 16 - length ip)") auto

declare loopIPv6.simps [simp del]

definition parseIPv6 :: "string \<Rightarrow> (byte list \<times> string) option" where
  "parseIPv6 s0 =
     (let s = takeWhile (\<lambda>c. c \<noteq> CHR ''%'') s0;
          hasZone = (CHR ''%'' \<in> set s0);
          zone = drop (length s + 1) s0 in
      if hasZone \<and> zone = [] then None
      else
        map_option (\<lambda>ip. (ip, zone))
          (if HasPrefix s ''::'' then
             if drop 2 s = [] then Some (replicate 16 0) else loopIPv6 (drop 2 s) [] (Some 0)
           else loopIPv6 s [] None))"

datatype netipAddr = V4 "byte list" | V6 "byte list" string

fun parseAddrFrom :: "string \<Rightarrow> string \<Rightarrow> netipAddr option" where
  "parseAddrFrom s [] = None"
| "parseAddrFrom s (c # cs) =
     (if c = CHR ''.'' then map_option V4 (parseIPv4Fields s True 0 0 [])
      else if c = CHR '':'' then map_option (\<lambda>(ip, zone). V6 ip zone) (parseIPv6 s)
      else if c = CHR ''%'' then None
      else parseAddrFrom s cs)"

definition ParseAddr :: "string \<Rightarrow> netipAddr option" where
  "ParseAddr s = parseAddrFrom s s"

definition v4InV6Prefix :: "byte list" where
  "v4InV6Prefix = replicate 10 0 @ [255, 255]"

text \<open>The 16-byte form of an address without zone, and its bit length.\<close>

fun unzoned :: "netipAddr \<Rightarrow> (byte list \<times> nat) option" where
  "unzoned (V4 b) = Some (v4InV6Prefix @ b, 32)"
| "unzoned (V6 b zone) = (if zone \<noteq> [] then None else Some (b, 128))"

definition ParseIP :: "string \<Rightarrow> ip option" where
  "ParseIP s = map_option fst (Option.bind (ParseAddr s) unzoned)"

section \<open>Networks\<close>

record IPNet =
  netIP :: ip
  netMask :: "byte list"

definition To4 :: "ip \<Rightarrow> ip option" where
  "To4 x =
     (if length x = 4 then Some x
      else if length x = 16 \<and> take 12 x = v4InV6Prefix then Some (drop 12 x)
      else None)"

definition maskByte :: "nat \<Rightarrow> byte" where
  "maskByte n = (if n \<ge> 8 then 255 else NOT (drop_bit n 255))"

fun maskBytes :: "nat \<Rightarrow> nat \<Rightarrow> byte list" where
  "maskBytes 0 n = []"
| "maskBytes (Suc k) n = maskByte n # maskBytes k (n - 8)"

definition CIDRMask :: "nat \<Rightarrow> nat \<Rightarrow> byte list" where
  "CIDRMask ones bits =
     (if bits \<noteq> 32 \<and> bits \<noteq> 128 then [] else if ones > bits then [] else maskBytes (bits div 8) ones)"

definition andBytes :: "byte list \<Rightarrow> byte list \<Rightarrow> byte list" where
  "andBytes xs ms = map (\<lambda>(x, m). x AND m) (zip xs ms)"

definition maskIP :: "ip \<Rightarrow> byte list \<Rightarrow> ip option" where
  "maskIP x m =
     (let m' = (if length m = 16 \<and> length x = 4 \<and> take 12 m = replicate 12 255 then drop 12 m else m);
          x' = (if length m' = 4 \<and> length x = 16 \<and> take 12 x = v4InV6Prefix then drop 12 x else x) in
      if length x' \<noteq> length m' then None else Some (andBytes x' m'))"

definition networkNumberAndMask :: "IPNet \<Rightarrow> (ip \<times> byte list) option" where
  "networkNumberAndMask n =
     (let x = (case To4 (netIP n) of Some y \<Rightarrow> y | None \<Rightarrow> netIP n) in
      if length x \<noteq> 4 \<and> length x \<noteq> 16 then None
      else if length (netMask n) = 4 then (if length x \<noteq> 4 then None else Some (x, netMask n))
      else if length (netMask n) = 16 then
        Some (x, if length x = 4 then drop 12 (netMask n) else netMask n)
      else None)"

definition Contains :: "IPNet \<Rightarrow> ip \<Rightarrow> bool" where
  "Contains n ip =
     (let x = (case To4 ip of Some y \<Rightarrow> y | None \<Rightarrow> ip) in
      case networkNumberAndMask n of
        None \<Rightarrow> length x = 0
      | Some (nn, m) \<Rightarrow> length x = length nn \<and> andBytes nn m = andBytes x m)"

text \<open>\<open>dtoi\<close> stops at \<open>0xFFFFFF\<close>; the caller wants all of the string to be digits.\<close>

fun dtoiLoop :: "string \<Rightarrow> nat \<Rightarrow> nat option" where
  "dtoiLoop [] n = Some n"
| "dtoiLoop (c # cs) n =
     (case digitVal c of
        None \<Rightarrow> None
      | Some d \<Rightarrow> if n * 10 + d \<ge> 16777215 then None else dtoiLoop cs (n * 10 + d))"

definition dtoi :: "string \<Rightarrow> nat option" where
  "dtoi s = (if s = [] then None else dtoiLoop s 0)"

definition ParseCIDR :: "string \<Rightarrow> IPNet option" where
  "ParseCIDR s =
     (if CHR ''/'' \<notin> set s then None
      else
        let addr = takeWhile (\<lambda>c. c \<noteq> CHR ''/'') s; mask = drop (length addr + 1) s in
        case Option.bind (ParseAddr addr) unzoned of
          None \<Rightarrow> None
        | Some (addr16, bits) \<Rightarrow>
            (case dtoi mask of
               None \<Rightarrow> None
             | Some n \<Rightarrow>
                 if n > bits then None
                 else
                   let m = CIDRMask n bits in
                   Some \<lparr>netIP = (case maskIP addr16 m of Some x \<Rightarrow> x | None \<Rightarrow> []), netMask = m\<rparr>))"

section \<open>Host and port\<close>

definition indexOf :: "char \<Rightarrow> string \<Rightarrow> nat option" where
  "indexOf c s = (if c \<in> set s then Some (length (takeWhile (\<lambda>x. x \<noteq> c) s)) else None)"

definition lastIndexOf :: "char \<Rightarrow> string \<Rightarrow> nat option" where
  "lastIndexOf c s = map_option (\<lambda>i. length s - 1 - i) (indexOf c (rev s))"

definition SplitHostPort :: "string \<Rightarrow> (string \<times> string) option" where
  "SplitHostPort hostport =
     (case lastIndexOf (CHR '':'') hostport of
        None \<Rightarrow> None
      | Some i \<Rightarrow>
          let bracketed = (hd hostport = CHR ''[''); close = indexOf (CHR '']'') hostport in
          if bracketed \<and> (close = None \<or> the close + 1 = length hostport \<or> the close + 1 \<noteq> i) then None
          else
            let host = (if bracketed then take (the close - 1) (drop 1 hostport) else take i hostport);
                j = (if bracketed then 1 else 0);
                k = (if bracketed then the close + 1 else 0) in
            if \<not> bracketed \<and> CHR '':'' \<in> set host then None
            else if CHR ''['' \<in> set (drop j hostport) then None
            else if CHR '']'' \<in> set (drop k hostport) then None
            else Some (host, drop (i + 1) hostport))"

section \<open>Addresses have the right length\<close>

lemma parseIPv4Fields_length:
  "parseIPv4Fields s a v d fs = Some r \<Longrightarrow> length fs \<le> 3 \<Longrightarrow> length r = 4"
  by (induction s a v d fs rule: parseIPv4Fields.induct)
     (auto split: if_splits option.splits)

lemma finishIPv6_length: "finishIPv6 s ip e = Some r \<Longrightarrow> length ip \<le> 16 \<Longrightarrow> length r = 16"
  by (auto simp: finishIPv6_def split: if_splits option.splits)

lemma loopIPv6_length:
  "loopIPv6 s ip e = Some r \<Longrightarrow> even (length ip) \<Longrightarrow> length ip \<le> 16 \<Longrightarrow> length r = 16"
proof (induction s ip e rule: loopIPv6.induct)
  case (1 s ip e)
  note unf = loopIPv6.simps [of s ip e]
  show ?case
  proof (cases "length ip < 16")
    case False
    with "1.prems" show ?thesis by (simp add: unf finishIPv6_length)
  next
    case True
    with "1.prems"(2) have le: "length ip + 2 \<le> 16" by presburger
    obtain off acc rest where h: "hexRun s 0 0 = Some (off, acc, rest)" "off \<noteq> 0"
      using "1.prems"(1) True by (auto simp: unf split: option.splits if_splits)
    note IH = "1.IH" [OF True h(1) refl refl h(2)]
    show ?thesis
    proof (cases "rest \<noteq> [] \<and> hd rest = CHR ''.''")
      case dot: True
      with "1.prems"(1) True h obtain v4 where "parseIPv4Fields s True 0 0 [] = Some v4"
          "length ip + 4 \<le> 16" "finishIPv6 [] (ip @ v4) e = Some r"
        by (auto simp: unf split: option.splits if_splits)
      then show ?thesis using parseIPv4Fields_length [of s] by (auto intro: finishIPv6_length)
    next
      case noDot: False
      let ?ip = "ip @ [of_nat (acc div 256), of_nat acc]"
      have len: "even (length ?ip)" "length ?ip \<le> 16" using "1.prems"(2) le by simp_all
      show ?thesis
      proof (cases rest)
        case Nil
        with "1.prems"(1) True h len show ?thesis by (auto simp: unf intro: finishIPv6_length)
      next
        case (Cons c cs)
        with "1.prems"(1) True h noDot len show ?thesis
          using IH [OF noDot refl Cons]
          by (auto simp: unf Let_def split: if_splits intro: finishIPv6_length)
      qed
    qed
  qed
qed

lemma parseIPv6_length: "parseIPv6 s = Some (b, z) \<Longrightarrow> length b = 16"
  by (auto simp: parseIPv6_def Let_def split: if_splits dest!: loopIPv6_length)

lemma parseAddrFrom_length:
  "parseAddrFrom s t = Some a \<Longrightarrow> unzoned a = Some (b, bits) \<Longrightarrow>
     length b = 16 \<and> (bits = 32 \<and> To4 b \<noteq> None \<or> bits = 128)"
  by (induction s t rule: parseAddrFrom.induct)
     (auto simp: v4InV6Prefix_def To4_def split: if_splits
        dest!: parseIPv4Fields_length parseIPv6_length)

lemma ParseAddr_unzoned:
  "Option.bind (ParseAddr s) unzoned = Some (b, bits) \<Longrightarrow>
     length b = 16 \<and> (bits = 32 \<and> To4 b \<noteq> None \<or> bits = 128)"
  by (auto simp: ParseAddr_def Option.bind_eq_Some_conv dest: parseAddrFrom_length)

lemma ParseIP_length: "ParseIP s = Some x \<Longrightarrow> length x = 16"
  by (auto simp: ParseIP_def dest: ParseAddr_unzoned)

section \<open>Masks and common prefixes\<close>

definition byteBits :: "byte \<Rightarrow> bool list" where
  "byteBits b = map (\<lambda>i. bit b (7 - i)) [0 ..< 8]"

definition ipBits :: "byte list \<Rightarrow> bool list" where
  "ipBits x = concat (map byteBits x)"

lemma length_byteBits [simp]: "length (byteBits b) = 8"
  by (simp add: byteBits_def)

lemma length_ipBits [simp]: "length (ipBits x) = 8 * length x"
  by (induction x) (auto simp: ipBits_def)

lemma ipBits_Cons [simp]: "ipBits (b # x) = byteBits b @ ipBits x"
  by (simp add: ipBits_def)

lemma ipBits_append: "ipBits (x @ y) = ipBits x @ ipBits y"
  by (simp add: ipBits_def)

lemma nth_byteBits: "i < 8 \<Longrightarrow> byteBits b ! i = bit b (7 - i)"
  by (simp add: byteBits_def)

text \<open>Agreement of leading bits, in terms of the bit positions of the word.\<close>

lemma take_byteBits_eq:
  "take n (byteBits a) = take n (byteBits b) \<longleftrightarrow> (\<forall>i < 8. 8 - n \<le> i \<longrightarrow> bit a i = bit b i)"
proof -
  have "take n (byteBits a) = take n (byteBits b) \<longleftrightarrow>
      (\<forall>j < 8. j < n \<longrightarrow> bit a (7 - j) = bit b (7 - j))"
    by (auto simp: list_eq_iff_nth_eq nth_byteBits)
  also have "\<dots> \<longleftrightarrow> (\<forall>i < 8. 8 - n \<le> i \<longrightarrow> bit a i = bit b i)" (is "?L \<longleftrightarrow> ?R")
  proof
    assume L: ?L
    show ?R
    proof (intro allI impI)
      fix i :: nat
      assume "i < 8" "8 - n \<le> i"
      then show "bit a i = bit b i" using L [rule_format, of "7 - i"] by simp
    qed
  next
    assume R: ?R
    show ?L
    proof (intro allI impI)
      fix j :: nat
      assume "j < 8" "j < n"
      then show "bit a (7 - j) = bit b (7 - j)" using R [rule_format, of "7 - j"] by simp
    qed
  qed
  finally show ?thesis .
qed

lemma byteBits_inject: "byteBits a = byteBits b \<longleftrightarrow> a = b"
  using take_byteBits_eq [of 8 a b] by (auto intro: bit_word_eqI)

lemma ipBits_inject: "length x = length y \<Longrightarrow> ipBits x = ipBits y \<longleftrightarrow> x = y"
  by (induction x y rule: list_induct2) (auto simp: byteBits_inject)

lemma bit_maskByte: "i < 8 \<Longrightarrow> bit (maskByte n) i \<longleftrightarrow> 8 - n \<le> i"
proof -
  assume i: "i < 8"
  have m: "(255 :: byte) = mask 8" by (simp add: mask_eq_exp_minus_1)
  show ?thesis
    unfolding maskByte_def m using i by (auto simp: bit_simps)
qed

lemma and_maskByte_eq:
  "a AND maskByte n = b AND maskByte n \<longleftrightarrow> take n (byteBits a) = take n (byteBits b)"
proof
  assume eq: "a AND maskByte n = b AND maskByte n"
  have "bit a i = bit b i" if "i < 8" "8 - n \<le> i" for i
  proof -
    have "bit (a AND maskByte n) i = bit (b AND maskByte n) i" using eq by simp
    with that show ?thesis by (simp add: bit_and_iff bit_maskByte)
  qed
  then show "take n (byteBits a) = take n (byteBits b)" by (simp add: take_byteBits_eq)
next
  assume "take n (byteBits a) = take n (byteBits b)"
  then show "a AND maskByte n = b AND maskByte n"
    by (intro bit_word_eqI) (auto simp: take_byteBits_eq bit_and_iff bit_maskByte)
qed

lemma length_maskBytes [simp]: "length (maskBytes k n) = k"
  by (induction k arbitrary: n) auto

lemma maskBytes_4: "maskBytes 4 n = [maskByte n, maskByte (n - 8), maskByte (n - 16), maskByte (n - 24)]"
proof -
  have "4 = Suc (Suc (Suc (Suc 0)))" by simp
  then show ?thesis by (simp only: maskBytes.simps) simp
qed

lemma length_andBytes [simp]: "length (andBytes x m) = min (length x) (length m)"
  by (simp add: andBytes_def)

lemma andBytes_Cons [simp]: "andBytes (a # x) (c # m) = (a AND c) # andBytes x m"
  by (simp add: andBytes_def)

lemma andBytes_eq:
  "length x = k \<Longrightarrow> length y = k \<Longrightarrow>
   andBytes x (maskBytes k n) = andBytes y (maskBytes k n) \<longleftrightarrow>
     take n (ipBits x) = take n (ipBits y)"
proof (induction k arbitrary: x y n)
  case (Suc k)
  then obtain a x' b y' where xy: "x = a # x'" "y = b # y'" "length x' = k" "length y' = k"
    by (metis length_Suc_conv)
  have "take n (byteBits a @ ipBits x') = take n (byteBits b @ ipBits y') \<longleftrightarrow>
      take n (byteBits a) = take n (byteBits b) \<and> take (n - 8) (ipBits x') = take (n - 8) (ipBits y')"
    by (simp add: append_eq_append_conv)
  with xy Suc.IH [of x' y' "n - 8"] show ?case by (simp add: and_maskByte_eq)
qed (simp add: andBytes_def)

lemma andBytes_idem: "andBytes (andBytes x m) m = andBytes x m"
  by (induction x m rule: list_induct2') (auto simp: andBytes_def)

lemma maskBytes_add: "maskBytes (i + k) n = maskBytes i n @ maskBytes k (n - 8 * i)"
  by (induction i arbitrary: n) (auto simp: diff_diff_left)

lemma maskBytes_16: "maskBytes 16 n = maskBytes 12 n @ maskBytes 4 (n - 96)"
  using maskBytes_add [of 12 4 n] by simp

lemma andBytes_append:
  "length x = length m \<Longrightarrow> andBytes (x @ y) (m @ k) = andBytes x m @ andBytes y k"
  by (simp add: andBytes_def)

lemma maskBytes_full: "8 * k \<le> n \<Longrightarrow> maskBytes k n = replicate k 255"
  by (induction k arbitrary: n) (auto simp: maskByte_def)

lemma and_255 [simp]: "(x :: byte) AND 255 = x"
proof -
  have "(255 :: byte) = - 1" by simp
  then show ?thesis by (simp only: and.right_neutral)
qed

lemma andBytes_full: "length x = k \<Longrightarrow> andBytes x (replicate k 255) = x"
  by (induction k arbitrary: x) (auto simp: andBytes_def length_Suc_conv)

lemma v4InV6Prefix_length [simp]: "length v4InV6Prefix = 12"
  by (simp add: v4InV6Prefix_def)

lemma To4_Some_iff:
  "length x = 16 \<Longrightarrow> To4 x = Some y \<longleftrightarrow> take 12 x = v4InV6Prefix \<and> y = drop 12 x"
  by (auto simp: To4_def)

lemma To4_length: "To4 x = Some y \<Longrightarrow> length y = 4"
  by (auto simp: To4_def split: if_splits)

lemma To4_None_iff: "length x = 16 \<Longrightarrow> To4 x = None \<longleftrightarrow> take 12 x \<noteq> v4InV6Prefix"
  by (auto simp: To4_def)

text \<open>A mask of fewer than 96 ones destroys the prefix of an IPv4 address in IPv6 form.\<close>

lemma masked_v4_prefix:
  assumes "length x = 12" and "n < 96"
  shows "andBytes x (maskBytes 12 n) \<noteq> v4InV6Prefix"
proof
  assume "andBytes x (maskBytes 12 n) = v4InV6Prefix"
  moreover have "maskBytes 12 n = maskBytes 11 n @ [maskByte (n - 88)]"
    using maskBytes_add [of 11 1 n] by (simp add: numeral_eq_Suc)
  moreover have "x = take 11 x @ [x ! 11]"
    using assms(1) take_Suc_conv_app_nth [of 11 x] by simp
  ultimately have "andBytes (take 11 x @ [x ! 11]) (maskBytes 11 n @ [maskByte (n - 88)]) = v4InV6Prefix"
    by metis
  then have "x ! 11 AND maskByte (n - 88) = 255"
    using assms(1) by (simp add: andBytes_append v4InV6Prefix_def andBytes_def)
  moreover have "\<not> bit (x ! 11 AND maskByte (n - 88)) 0"
    using assms(2) by (simp add: bit_and_iff bit_maskByte) arith
  moreover have "bit (255 :: byte) 0" by simp
  ultimately show False by simp
qed

section \<open>CIDR membership\<close>

text \<open>
  The meaning of a CIDR entry whose address has the 16-byte form \<open>B\<close> and whose prefix has \<open>N\<close>
  bits there: the first \<open>N\<close> bits agree; an IPv4 client matches only an entry whose prefix covers
  the IPv4 part of an IPv4 address.
\<close>

definition cidrCovers :: "byte list \<Rightarrow> nat \<Rightarrow> ip \<Rightarrow> bool" where
  "cidrCovers B N x \<longleftrightarrow>
     take N (ipBits x) = take N (ipBits B) \<and> (N \<ge> 96 \<and> To4 B \<noteq> None \<or> To4 x = None)"

lemma take_ipBits_v4:
  assumes "length p = 12" and "96 \<le> N"
  shows "take N (ipBits (p @ y)) = take N (ipBits (p @ z)) \<longleftrightarrow>
         take (N - 96) (ipBits y) = take (N - 96) (ipBits z)"
  using assms by (simp add: ipBits_append)

lemma take_ipBits_prefix:
  assumes "take N (ipBits x) = take N (ipBits y)" and "8 * k \<le> N" and "length x = length y"
  shows "take k x = take k y"
proof -
  have "take (8 * k) (ipBits x) = take (8 * k) (ipBits y)"
    using assms(1,2) by (metis min.absorb1 take_take)
  moreover have "take (8 * k) (ipBits z) = ipBits (take k z)" for z
    by (induction z arbitrary: k; case_tac k) (auto simp: ipBits_def take_Cons')
  ultimately show ?thesis using assms(3) ipBits_inject [of "take k x" "take k y"] by simp
qed

text \<open>A network whose number is the IPv4 part of \<open>B\<close>.\<close>

lemma Contains_v4_number:
  assumes B: "length B = 16" "To4 B \<noteq> None" and x: "length x = 16" and N: "96 \<le> N"
    and nn: "networkNumberAndMask net =
      Some (andBytes (drop 12 B) (maskBytes 4 (N - 96)), maskBytes 4 (N - 96))"
  shows "Contains net x \<longleftrightarrow> cidrCovers B N x"
proof (cases "To4 x")
  case None
  have "take 12 B = v4InV6Prefix" using B by (simp add: To4_None_iff)
  moreover have "take 12 x \<noteq> v4InV6Prefix" using None x by (simp add: To4_None_iff)
  ultimately have "take N (ipBits x) \<noteq> take N (ipBits B)"
    using take_ipBits_prefix [of N x B 12] N x B(1) by auto
  with None nn x B show ?thesis by (simp add: Contains_def cidrCovers_def)
next
  case (Some z)
  let ?m = "maskBytes 4 (N - 96)"
  have z: "x = v4InV6Prefix @ z" "length z = 4"
    using Some x by (auto simp: To4_Some_iff) (metis append_take_drop_id)
  have b: "B = v4InV6Prefix @ drop 12 B"
    using B by (metis To4_None_iff append_take_drop_id)
  have "Contains net x \<longleftrightarrow> andBytes (drop 12 B) ?m = andBytes z ?m"
    using nn Some z(2) B(1) by (simp add: Contains_def andBytes_idem)
  also have "\<dots> \<longleftrightarrow> take (N - 96) (ipBits (drop 12 B)) = take (N - 96) (ipBits z)"
    using z(2) B(1) by (intro andBytes_eq) auto
  also have "\<dots> \<longleftrightarrow> take N (ipBits x) = take N (ipBits B)"
    using take_ipBits_v4 [of v4InV6Prefix N z "drop 12 B"] z(1) b N by auto
  finally show ?thesis using B(2) N by (simp add: cidrCovers_def)
qed

lemma Contains_v4_entry:
  assumes "length B = 16" and "To4 B \<noteq> None" and "length x = 16"
  shows "\<exists>y. maskIP B (maskBytes 4 n) = Some y \<and>
    (Contains \<lparr>netIP = y, netMask = maskBytes 4 n\<rparr> x \<longleftrightarrow> cidrCovers B (96 + n) x)"
proof -
  let ?b = "drop 12 B" and ?m = "maskBytes 4 n"
  have "take 12 B = v4InV6Prefix" using assms(1,2) by (simp add: To4_None_iff)
  then have "maskIP B ?m = Some (andBytes ?b ?m)" using assms(1) by (simp add: maskIP_def Let_def)
  moreover have "networkNumberAndMask \<lparr>netIP = andBytes ?b ?m, netMask = ?m\<rparr> = Some (andBytes ?b ?m, ?m)"
    using assms(1) by (simp add: networkNumberAndMask_def To4_def)
  ultimately show ?thesis
    using Contains_v4_number [OF assms, of "96 + n"] by simp
qed

text \<open>Masking all 16 bytes gives an IPv4 network exactly when \<open>B\<close> is one and its prefix is kept.\<close>

lemma masked_is_v4:
  assumes "length B = 16"
  shows "take 12 (andBytes B (maskBytes 16 n)) = v4InV6Prefix \<longleftrightarrow> 96 \<le> n \<and> To4 B \<noteq> None"
    and "drop 12 (andBytes B (maskBytes 16 n)) = andBytes (drop 12 B) (maskBytes 4 (n - 96))"
proof -
  have M: "andBytes B (maskBytes 16 n) =
      andBytes (take 12 B) (maskBytes 12 n) @ andBytes (drop 12 B) (maskBytes 4 (n - 96))"
    using assms andBytes_append [of "take 12 B" "maskBytes 12 n" "drop 12 B"] by (simp add: maskBytes_16)
  then show "drop 12 (andBytes B (maskBytes 16 n)) = andBytes (drop 12 B) (maskBytes 4 (n - 96))"
    using assms by simp
  have "take 12 (andBytes B (maskBytes 16 n)) = andBytes (take 12 B) (maskBytes 12 n)"
    using M assms by simp
  then show "take 12 (andBytes B (maskBytes 16 n)) = v4InV6Prefix \<longleftrightarrow> 96 \<le> n \<and> To4 B \<noteq> None"
    using assms masked_v4_prefix [of "take 12 B" n] andBytes_full [of "take 12 B" 12]
    by (cases "96 \<le> n") (auto simp: maskBytes_full To4_None_iff)
qed

lemma Contains_v6_entry:
  assumes "length B = 16" and "length x = 16"
  shows "\<exists>y. maskIP B (maskBytes 16 n) = Some y \<and>
    (Contains \<lparr>netIP = y, netMask = maskBytes 16 n\<rparr> x \<longleftrightarrow> cidrCovers B n x)"
proof -
  let ?m = "maskBytes 16 n"
  let ?M = "andBytes B ?m"
  have "maskIP B ?m = Some ?M" using assms(1) by (simp add: maskIP_def Let_def)
  moreover have "Contains \<lparr>netIP = ?M, netMask = ?m\<rparr> x \<longleftrightarrow> cidrCovers B n x"
  proof (cases "96 \<le> n \<and> To4 B \<noteq> None")
    case True
    then have "To4 ?M = Some (andBytes (drop 12 B) (maskBytes 4 (n - 96)))"
      using assms(1) masked_is_v4 [OF assms(1), of n] by (simp add: To4_Some_iff)
    then have "networkNumberAndMask \<lparr>netIP = ?M, netMask = ?m\<rparr> =
        Some (andBytes (drop 12 B) (maskBytes 4 (n - 96)), maskBytes 4 (n - 96))"
      using assms(1) by (simp add: networkNumberAndMask_def maskBytes_16)
    with True assms show ?thesis by (intro Contains_v4_number) auto
  next
    case False
    then have "To4 ?M = None"
      using assms(1) masked_is_v4(1) [OF assms(1), of n] To4_None_iff [of ?M] by simp
    then have "networkNumberAndMask \<lparr>netIP = ?M, netMask = ?m\<rparr> = Some (?M, ?m)"
      using assms(1) by (simp add: networkNumberAndMask_def)
    moreover have "andBytes ?M ?m = andBytes x ?m \<longleftrightarrow> take n (ipBits x) = take n (ipBits B)"
      using andBytes_eq [of B 16 x n] assms by (auto simp: andBytes_idem)
    ultimately show ?thesis
      using False assms by (cases "To4 x") (auto simp: Contains_def cidrCovers_def dest: To4_length)
  qed
  ultimately show ?thesis by blast
qed

text \<open>
  The network \<open>ParseCIDR\<close> returns contains exactly the addresses the entry covers. \<open>bits\<close> is the
  bit length of the entry's address family, so \<open>n\<close> prefix bits of it are \<open>n + (128 - bits)\<close> bits of
  the 16-byte form.
\<close>

lemma ParseCIDR_Contains:
  assumes "ParseCIDR s = Some net" and "length x = 16"
  defines "a \<equiv> takeWhile (\<lambda>c. c \<noteq> CHR ''/'') s"
  shows "\<exists>B bits n. CHR ''/'' \<in> set s \<and> Option.bind (ParseAddr a) unzoned = Some (B, bits) \<and>
    dtoi (drop (length a + 1) s) = Some n \<and> n \<le> bits \<and>
    (Contains net x \<longleftrightarrow> cidrCovers B (n + (128 - bits)) x)"
proof -
  obtain B bits n where B: "CHR ''/'' \<in> set s" "Option.bind (ParseAddr a) unzoned = Some (B, bits)"
      "dtoi (drop (length a + 1) s) = Some n" "n \<le> bits"
      "net = \<lparr>netIP = (case maskIP B (CIDRMask n bits) of Some x \<Rightarrow> x | None \<Rightarrow> []), netMask = CIDRMask n bits\<rparr>"
    using assms(1) unfolding a_def by (auto simp: ParseCIDR_def Let_def split: if_splits option.splits)
  have len: "length B = 16" "bits = 32 \<and> To4 B \<noteq> None \<or> bits = 128"
    using ParseAddr_unzoned [OF B(2)] by auto
  have "Contains net x \<longleftrightarrow> cidrCovers B (n + (128 - bits)) x"
    using len(2)
  proof
    assume "bits = 32 \<and> To4 B \<noteq> None"
    with B(4,5) Contains_v4_entry [OF len(1) _ assms(2), of n] show ?thesis
      by (auto simp: CIDRMask_def add.commute)
  next
    assume "bits = 128"
    with B(4,5) Contains_v6_entry [OF len(1) assms(2), of n] show ?thesis
      by (auto simp: CIDRMask_def)
  qed
  with B show ?thesis by blast
qed

end
