(* ===== verification/Access_Control.thy ===== *)
theory Access_Control
  imports Go_Net
begin

text \<open>
  Access control of \<^verbatim>\<open>proxy/acl.go\<close>: \<open>ACL\<close>, \<open>compiledACL\<close>, \<open>compileACL\<close>,
  \<open>checkAddr\<close>, \<open>checkUser\<close>, \<open>checkDatabase\<close>. A nil pointer is \<open>None\<close>, a nil map is
  \<open>None\<close>, and a map from names to bool is the function with its default \<open>False\<close>. A check returns
  nil (\<open>None\<close>) or the error.

  The three checks are allowlists, stated once as the locale \<open>allowlist\<close> and interpreted for the
  user and database names and for the networks. Shown: what each check admits, exactly, in terms of
  the configured entries; when compiling fails; that no ACL and an empty ACL admit everyone; and
  that an IPv6 client whose address has a zone is never restricted.
\<close>

section \<open>Configuration and compilation\<close>

record ACL =
  AllowedCIDRs :: "string list"
  AllowedUsers :: "string list"
  AllowedDatabases :: "string list"

record compiledACL =
  cidrs :: "IPNet list"
  allowedUsers :: "(string \<Rightarrow> bool) option"
  allowedDatabases :: "(string \<Rightarrow> bool) option"

text \<open>One entry of the list: CIDR notation, or a bare address as a /32 or /128.\<close>

definition compileCIDR :: "string \<Rightarrow> IPNet result" where
  "compileCIDR s =
     (case ParseCIDR s of
        Some ipnet \<Rightarrow> Inr ipnet
      | None \<Rightarrow>
          (case ParseIP s of
             Some ip \<Rightarrow>
               let bits = (if To4 ip = None then 128 else 32) in
               Inr \<lparr>netIP = ip, netMask = CIDRMask bits bits\<rparr>
           | None \<Rightarrow>
               Inl (Errorf [Lit ''invalid ACL AllowedCIDRs entry '', Quoted s, Lit '': '',
                      Wrap (ErrorString (''invalid CIDR address: '' @ s))])))"

fun compileCIDRs :: "string list \<Rightarrow> IPNet list result" where
  "compileCIDRs [] = Inr []"
| "compileCIDRs (s # ss) =
     (case compileCIDR s of
        Inl e \<Rightarrow> Inl e
      | Inr ipnet \<Rightarrow> (case compileCIDRs ss of Inl e \<Rightarrow> Inl e | Inr ns \<Rightarrow> Inr (ipnet # ns)))"

definition compileNames :: "string list \<Rightarrow> (string \<Rightarrow> bool) option" where
  "compileNames ns =
     (if length ns > 0 then Some (fold (\<lambda>u m. m(u := True)) ns (\<lambda>_. False)) else None)"

definition compileACL :: "ACL option \<Rightarrow> compiledACL option result" where
  "compileACL acl =
     (case acl of
        None \<Rightarrow> Inr None
      | Some a \<Rightarrow>
          (case compileCIDRs (AllowedCIDRs a) of
             Inl e \<Rightarrow> Inl e
           | Inr ns \<Rightarrow>
               Inr (Some \<lparr>cidrs = ns,
                          allowedUsers = compileNames (AllowedUsers a),
                          allowedDatabases = compileNames (AllowedDatabases a)\<rparr>)))"

section \<open>Checks\<close>

text \<open>The address is given by its text, \<open>addr.String()\<close>.\<close>

definition addrHost :: "string \<Rightarrow> string" where
  "addrHost addr = (case SplitHostPort addr of Some (host, port) \<Rightarrow> host | None \<Rightarrow> addr)"

definition checkAddr :: "compiledACL option \<Rightarrow> string \<Rightarrow> go_error option" where
  "checkAddr c addr =
     (case c of
        None \<Rightarrow> None
      | Some a \<Rightarrow>
          if length (cidrs a) = 0 then None
          else
            let host = addrHost addr in
            case ParseIP host of
              None \<Rightarrow> None
            | Some ip \<Rightarrow>
                if list_ex (\<lambda>ipnet. Contains ipnet ip) (cidrs a) then None
                else Some (Errorf [Lit ''client address '', Lit host, Lit '' not in an allowed CIDR'']))"

definition nameAllowed :: "(string \<Rightarrow> bool) option \<Rightarrow> string \<Rightarrow> bool" where
  "nameAllowed m name = (case m of None \<Rightarrow> True | Some f \<Rightarrow> f name)"

definition checkUser :: "compiledACL option \<Rightarrow> string \<Rightarrow> go_error option" where
  "checkUser c user =
     (case c of
        None \<Rightarrow> None
      | Some a \<Rightarrow>
          if \<not> nameAllowed (allowedUsers a) user
          then Some (Errorf [Lit ''user '', Quoted user, Lit '' is not allowed'']) else None)"

definition checkDatabase :: "compiledACL option \<Rightarrow> string \<Rightarrow> go_error option" where
  "checkDatabase c database =
     (case c of
        None \<Rightarrow> None
      | Some a \<Rightarrow>
          if \<not> nameAllowed (allowedDatabases a) database
          then Some (Errorf [Lit ''database '', Quoted database, Lit '' is not allowed'']) else None)"

section \<open>Allowlists\<close>

text \<open>
  The contract of one dimension of the ACL: with no entries everything is admitted, otherwise
  exactly what some entry matches.
\<close>

locale allowlist =
  fixes compile :: "'e list \<Rightarrow> 'c"
    and admits :: "'c \<Rightarrow> 'k \<Rightarrow> bool"
    and matches :: "'e \<Rightarrow> 'k \<Rightarrow> bool"
  assumes admits_iff: "admits (compile es) k \<longleftrightarrow> es = [] \<or> (\<exists>e \<in> set es. matches e k)"
begin

lemma empty_admits: "admits (compile []) k"
  by (simp add: admits_iff)

lemma extend_admits: "es \<noteq> [] \<Longrightarrow> admits (compile es) k \<Longrightarrow> set es \<subseteq> set fs \<Longrightarrow> admits (compile fs) k"
  by (auto simp: admits_iff)

lemma order_irrelevant: "set es = set fs \<Longrightarrow> admits (compile es) k \<longleftrightarrow> admits (compile fs) k"
  by (auto simp: admits_iff)

end

lemma fold_upd_True: "fold (\<lambda>u m. m(u := True)) ns f x \<longleftrightarrow> x \<in> set ns \<or> f x"
  by (induction ns arbitrary: f) auto

interpretation names: allowlist compileNames nameAllowed "(=)"
  by unfold_locales (auto simp: nameAllowed_def compileNames_def fold_upd_True)

interpretation nets: allowlist "\<lambda>ns. ns" "\<lambda>ns ip. length ns = 0 \<or> list_ex (\<lambda>n. Contains n ip) ns" Contains
  by unfold_locales (auto simp: list_ex_iff)

section \<open>What the entries mean\<close>

text \<open>
  The address (in 16-byte form) and prefix length an entry stands for: those of its CIDR notation,
  or all 128 bits of a bare address.
\<close>

definition slashParts :: "string \<Rightarrow> (byte list \<times> nat) option" where
  "slashParts s =
     (if CHR ''/'' \<notin> set s then None
      else
        let a = takeWhile (\<lambda>c. c \<noteq> CHR ''/'') s in
        case Option.bind (ParseAddr a) unzoned of
          None \<Rightarrow> None
        | Some (B, bits) \<Rightarrow>
            (case dtoi (drop (length a + 1) s) of
               None \<Rightarrow> None
             | Some n \<Rightarrow> if n > bits then None else Some (B, n + (128 - bits))))"

definition entryParts :: "string \<Rightarrow> (byte list \<times> nat) option" where
  "entryParts s =
     (case slashParts s of Some p \<Rightarrow> Some p | None \<Rightarrow> map_option (\<lambda>B. (B, 128)) (ParseIP s))"

definition entryCovers :: "string \<Rightarrow> ip \<Rightarrow> bool" where
  "entryCovers s x = (case entryParts s of None \<Rightarrow> False | Some (B, N) \<Rightarrow> cidrCovers B N x)"

lemma cidrCovers_all_bits:
  assumes "length B = 16" and "length x = 16"
  shows "cidrCovers B 128 x \<longleftrightarrow> x = B"
  using assms ipBits_inject [of x B] by (auto simp: cidrCovers_def)

lemma Contains_bare:
  assumes "length B = 16" and "length x = 16" and "bits = (if To4 B = None then 128 else 32)"
  shows "Contains \<lparr>netIP = B, netMask = CIDRMask bits bits\<rparr> x \<longleftrightarrow> x = B"
proof (cases "To4 B")
  case None
  then have "CIDRMask bits bits = replicate 16 255" using assms(3) by (simp add: CIDRMask_def maskBytes_full)
  with None assms show ?thesis
    by (cases "To4 x") (auto simp: Contains_def networkNumberAndMask_def andBytes_full dest: To4_length)
next
  case (Some b)
  then have m: "CIDRMask bits bits = replicate 4 255" using assms(3) by (simp add: CIDRMask_def maskBytes_full)
  have b: "B = v4InV6Prefix @ b" "length b = 4"
    using Some assms(1) by (auto simp: To4_Some_iff) (metis append_take_drop_id)
  have "x = v4InV6Prefix @ y" if "To4 x = Some y" for y
    using that assms(2) by (auto simp: To4_Some_iff) (metis append_take_drop_id)
  with Some b m assms(2) show ?thesis
    by (cases "To4 x") (auto simp: Contains_def networkNumberAndMask_def andBytes_full dest: To4_length)
qed

lemma ParseCIDR_slashParts: "ParseCIDR s = None \<longleftrightarrow> slashParts s = None"
  by (auto simp: ParseCIDR_def slashParts_def Let_def split: option.splits if_splits)

lemma compileCIDR_covers:
  assumes "compileCIDR s = Inr net" and "length x = 16"
  shows "Contains net x \<longleftrightarrow> entryCovers s x"
proof (cases "ParseCIDR s")
  case (Some n)
  let ?a = "takeWhile (\<lambda>c. c \<noteq> CHR ''/'') s"
  obtain B bits k where p: "CHR ''/'' \<in> set s" "Option.bind (ParseAddr ?a) unzoned = Some (B, bits)"
      "dtoi (drop (length ?a + 1) s) = Some k" "k \<le> bits" "Contains n x \<longleftrightarrow> cidrCovers B (k + (128 - bits)) x"
    using ParseCIDR_Contains [OF Some assms(2)] by blast
  with Some assms(1) show ?thesis
    by (simp add: compileCIDR_def entryCovers_def entryParts_def slashParts_def Let_def)
next
  case None
  then obtain B where B: "ParseIP s = Some B"
      "net = \<lparr>netIP = B, netMask = CIDRMask (if To4 B = None then 128 else 32) (if To4 B = None then 128 else 32)\<rparr>"
    using assms(1) by (auto simp: compileCIDR_def Let_def split: option.splits)
  have len: "length B = 16" using ParseIP_length [OF B(1)] .
  have "Contains net x \<longleftrightarrow> x = B" using Contains_bare [OF len assms(2) refl] B(2) by simp
  moreover have "entryCovers s x \<longleftrightarrow> x = B"
    using None B(1) cidrCovers_all_bits [OF len assms(2)]
    by (simp add: entryCovers_def entryParts_def ParseCIDR_slashParts)
  ultimately show ?thesis by simp
qed

lemma compileCIDRs_covers:
  "compileCIDRs ss = Inr ns \<Longrightarrow> length x = 16 \<Longrightarrow>
     length ns = length ss \<and> (list_ex (\<lambda>n. Contains n x) ns \<longleftrightarrow> (\<exists>s \<in> set ss. entryCovers s x))"
  by (induction ss arbitrary: ns) (auto simp: compileCIDR_covers split: sum.splits)

lemma compileCIDR_isl: "isl (compileCIDR s) \<longleftrightarrow> entryParts s = None"
  using ParseCIDR_slashParts [of s]
  by (auto simp: compileCIDR_def entryParts_def Let_def split: option.splits)

lemma compileCIDRs_isl: "isl (compileCIDRs ss) \<longleftrightarrow> (\<exists>s \<in> set ss. entryParts s = None)"
  by (induction ss) (auto simp: compileCIDR_isl [symmetric] split: sum.splits)

section \<open>What the checks admit\<close>

lemma checkNames_iff:
  assumes "compileACL (Some a) = Inr (Some c)"
  shows "(checkUser (Some c) user = None \<longleftrightarrow> AllowedUsers a = [] \<or> user \<in> set (AllowedUsers a)) \<and>
    (checkDatabase (Some c) db = None \<longleftrightarrow> AllowedDatabases a = [] \<or> db \<in> set (AllowedDatabases a))"
proof -
  have "allowedUsers c = compileNames (AllowedUsers a)" "allowedDatabases c = compileNames (AllowedDatabases a)"
    using assms by (auto simp: compileACL_def split: sum.splits)
  then show ?thesis
    using names.admits_iff by (auto simp: checkUser_def checkDatabase_def)
qed

lemma checkAddr_iff:
  assumes "compileACL (Some a) = Inr (Some c)"
  shows "checkAddr (Some c) addr = None \<longleftrightarrow>
    AllowedCIDRs a = [] \<or>
    (case ParseIP (addrHost addr) of
       None \<Rightarrow> True | Some x \<Rightarrow> \<exists>s \<in> set (AllowedCIDRs a). entryCovers s x)"
proof -
  have ns: "compileCIDRs (AllowedCIDRs a) = Inr (cidrs c)"
    using assms by (auto simp: compileACL_def split: sum.splits)
  show ?thesis
  proof (cases "ParseIP (addrHost addr)")
    case None
    then show ?thesis by (simp add: checkAddr_def Let_def)
  next
    case (Some x)
    then show ?thesis
      using compileCIDRs_covers [OF ns ParseIP_length [OF Some]]
      by (auto simp: checkAddr_def Let_def)
  qed
qed

text \<open>
  C14. \<open>checkAddr\<close> of a compiled ACL admits a client exactly when no CIDR is configured, or the
  peer has no IP address, or the first bits of its address agree with one of the configured
  entries, as many bits as the entry's prefix length says (all of them for a bare address).
\<close>

theorem checkAddr_exact:
  assumes "compileACL (Some a) = Inr (Some c)"
  shows "checkAddr (Some c) addr = None \<longleftrightarrow>
    AllowedCIDRs a = [] \<or>
    (case ParseIP (addrHost addr) of
       None \<Rightarrow> True | Some x \<Rightarrow> \<exists>s \<in> set (AllowedCIDRs a). entryCovers s x)"
  by (rule checkAddr_iff [OF assms])

definition officeACL :: ACL where
  "officeACL = \<lparr>AllowedCIDRs = [''10.0.0.0/8''], AllowedUsers = [''app''], AllowedDatabases = []\<rparr>"

definition officeCompiled :: compiledACL where
  "officeCompiled =
     \<lparr>cidrs = [\<lparr>netIP = [10, 0, 0, 0], netMask = [255, 0, 0, 0]\<rparr>],
      allowedUsers = Some ((\<lambda>_. False)(''app'' := True)), allowedDatabases = None\<rparr>"

lemma officeACL_compiles: "compileACL (Some officeACL) = Inr (Some officeCompiled)"
proof -
  have "compileCIDRs [''10.0.0.0/8''] = Inr [\<lparr>netIP = [10, 0, 0, 0], netMask = [255, 0, 0, 0]\<rparr>]"
  proof -
    have "ParseAddr ''10.0.0.0'' = Some (V4 [10, 0, 0, 0])" by (simp add: ParseAddr_def digitVal_def)
    moreover have "dtoi ''8'' = Some 8" by (simp add: dtoi_def digitVal_def)
    moreover have "CIDRMask 8 32 = [255, 0, 0, 0]" by (simp add: CIDRMask_def maskBytes_4 maskByte_def)
    ultimately show ?thesis
      by (simp add: compileCIDR_def ParseCIDR_def maskIP_def andBytes_def v4InV6Prefix_def)
  qed
  then show ?thesis
    by (auto simp: compileACL_def officeACL_def officeCompiled_def compileNames_def)
qed

theorem checkAddr_exact_witness:
  "checkAddr (Some officeCompiled) ''10.1.2.3:4711'' = None \<longleftrightarrow>
    AllowedCIDRs officeACL = [] \<or>
    (case ParseIP (addrHost ''10.1.2.3:4711'') of
       None \<Rightarrow> True | Some x \<Rightarrow> \<exists>s \<in> set (AllowedCIDRs officeACL). entryCovers s x)"
  by (rule checkAddr_exact [OF officeACL_compiles])

text \<open>
  C15. \<open>checkUser\<close> and \<open>checkDatabase\<close> of a compiled ACL admit exactly the listed names, or every
  name when the list is empty.
\<close>

theorem checkNames_exact:
  assumes "compileACL (Some a) = Inr (Some c)"
  shows "(checkUser (Some c) user = None \<longleftrightarrow> AllowedUsers a = [] \<or> user \<in> set (AllowedUsers a)) \<and>
    (checkDatabase (Some c) db = None \<longleftrightarrow> AllowedDatabases a = [] \<or> db \<in> set (AllowedDatabases a))"
  by (rule checkNames_iff [OF assms])

theorem checkNames_exact_witness:
  "(checkUser (Some officeCompiled) ''eve'' = None \<longleftrightarrow>
      AllowedUsers officeACL = [] \<or> ''eve'' \<in> set (AllowedUsers officeACL)) \<and>
   (checkDatabase (Some officeCompiled) ''master'' = None \<longleftrightarrow>
      AllowedDatabases officeACL = [] \<or> ''master'' \<in> set (AllowedDatabases officeACL))"
  by (rule checkNames_exact [OF officeACL_compiles])

text \<open>
  C30. Compiling an ACL fails exactly when one of its CIDR entries is neither CIDR notation nor a
  bare IP address; without an ACL it never fails and the result admits everyone.
\<close>

theorem compileACL_error_iff:
  "(isl (compileACL (Some a)) \<longleftrightarrow> (\<exists>s \<in> set (AllowedCIDRs a). entryParts s = None)) \<and>
   compileACL None = Inr None \<and>
   checkAddr None addr = None \<and> checkUser None user = None \<and> checkDatabase None db = None"
  using compileCIDRs_isl [of "AllowedCIDRs a"]
  by (auto simp: compileACL_def checkAddr_def checkUser_def checkDatabase_def split: sum.splits)

section \<open>Addresses with a zone\<close>

lemma parseIPv4Fields_percent: "CHR ''%'' \<in> set s \<Longrightarrow> parseIPv4Fields s a v d fs = None"
proof (induction s a v d fs rule: parseIPv4Fields.induct)
  case (2 c cs afterDot val digLen fields)
  have "digitVal (CHR ''%'') = None" by (simp add: digitVal_def)
  with 2 show ?case by (cases "c = CHR ''%''") (auto split: option.splits)
qed simp

lemma parseAddrFrom_percent:
  "CHR ''%'' \<in> set s \<Longrightarrow> Option.bind (parseAddrFrom s t) unzoned = None"
  by (induction s t rule: parseAddrFrom.induct)
     (auto simp: parseIPv4Fields_percent parseIPv6_def Let_def Option.bind_eq_None_conv)

lemma ParseIP_percent: "CHR ''%'' \<in> set s \<Longrightarrow> ParseIP s = None"
  by (simp add: ParseIP_def ParseAddr_def parseAddrFrom_percent)

text \<open>The text \<open>net.TCPAddr\<close> gives for an IPv6 address, split into its host and its port.\<close>

lemma SplitHostPort_bracketed:
  assumes "set host \<inter> {CHR ''['', CHR '']''} = {}" and "set port \<inter> {CHR ''['', CHR '']'', CHR '':''} = {}"
  shows "SplitHostPort (CHR ''['' # host @ '']:'' @ port) = Some (host, port)"
proof -
  let ?s = "CHR ''['' # host @ '']:'' @ port"
  have "takeWhile (\<lambda>x. x \<noteq> CHR '']'') (host @ '']:'' @ port) = host"
    using assms(1) by (subst takeWhile_append2) auto
  then have close: "indexOf (CHR '']'') ?s = Some (Suc (length host))"
    by (simp add: indexOf_def)
  have "rev ?s = rev port @ CHR '':'' # CHR '']'' # rev host @ ''[''" by simp
  moreover have "takeWhile (\<lambda>x. x \<noteq> CHR '':'') (rev port @ CHR '':'' # CHR '']'' # rev host @ ''['') = rev port"
    using assms(2) by (subst takeWhile_append2) auto
  ultimately have "indexOf (CHR '':'') (rev ?s) = Some (length port)" unfolding indexOf_def by simp
  then have colon: "lastIndexOf (CHR '':'') ?s = Some (length host + 2)"
    unfolding lastIndexOf_def by simp
  have drops: "drop (length host + 2) ?s = CHR '':'' # port" "drop (length host + 3) ?s = port"
    by (simp_all add: numeral_3_eq_3)
  show ?thesis
    unfolding SplitHostPort_def colon using close assms drops by (auto simp: Let_def eval_nat_numeral)
qed

text \<open>
  C39. A TCP client whose address carries an IPv6 zone passes \<open>checkAddr\<close> under every ACL, whatever
  CIDRs are configured and whatever the address, the zone and the port are: \<open>net.ParseIP\<close> does not
  accept the zone, and the code takes the branch meant for unix socket peers.
\<close>

theorem checkAddr_zone_unrestricted:
  assumes "set (ip @ zone) \<inter> {CHR ''['', CHR '']''} = {}" and "set port \<inter> {CHR ''['', CHR '']'', CHR '':''} = {}"
  shows "checkAddr c (CHR ''['' # (ip @ CHR ''%'' # zone) @ '']:'' @ port) = None"
proof -
  have "SplitHostPort (CHR ''['' # (ip @ CHR ''%'' # zone) @ '']:'' @ port) = Some (ip @ CHR ''%'' # zone, port)"
    using assms by (intro SplitHostPort_bracketed) auto
  then show ?thesis
    by (auto simp: checkAddr_def addrHost_def Let_def ParseIP_percent split: option.splits)
qed

theorem checkAddr_zone_unrestricted_witness:
  "checkAddr (Some \<lparr>cidrs = [\<lparr>netIP = [10, 0, 0, 0], netMask = [255, 0, 0, 0]\<rparr>], allowedUsers = None, allowedDatabases = None\<rparr>)
     ''[fe80::1%eth0]:4711'' = None"
  using checkAddr_zone_unrestricted [of "''fe80::1''" "''eth0''" "''4711''"] by simp

end
