(* ===== verification/Proxy_Metrics.thy ===== *)
theory Proxy_Metrics
  imports Pg_Prelude
begin

text \<open>
  The counters of \<^verbatim>\<open>proxy/metrics.go\<close>. \<open>Metrics\<close> holds six \<open>atomic.Int64\<close> counters, here
  64-bit words whose addition wraps as Go's does; a \<open>*Metrics\<close> is an option, \<open>None\<close> for nil, on
  which every operation is a no-op.

  The contract of a single counter is the locale \<open>counter\<close>, interpreted for each of the six.
  \<open>Snapshot\<close> loads the counters one after the other, with operations of other goroutines in between.
  Shown: each operation changes its own counter and no other; each field of a snapshot counts the
  operations on its counter that took effect before its own load, in whatever order they did.
\<close>

type_synonym int64 = "64 word"

record Metrics =
  TotalConnections :: int64
  ActiveConnections :: int64
  RejectedByACL :: int64
  RejectedByMaxConnections :: int64
  BlockedQueries :: int64
  BackendConnectErrors :: int64

definition zeroMetrics :: Metrics where
  "zeroMetrics = \<lparr>TotalConnections = 0, ActiveConnections = 0, RejectedByACL = 0,
     RejectedByMaxConnections = 0, BlockedQueries = 0, BackendConnectErrors = 0\<rparr>"

record MetricsSnapshot =
  snapTotalConnections :: int64
  snapActiveConnections :: int64
  snapRejectedByACL :: int64
  snapRejectedByMaxConnections :: int64
  snapBlockedQueries :: int64
  snapBackendConnectErrors :: int64

section \<open>Operations\<close>

definition addTotalConnections :: "Metrics option \<Rightarrow> int64 \<Rightarrow> Metrics option" where
  "addTotalConnections m n =
     (case m of None \<Rightarrow> None | Some x \<Rightarrow> Some (x\<lparr>TotalConnections := TotalConnections x + n\<rparr>))"

definition addActiveConnections :: "Metrics option \<Rightarrow> int64 \<Rightarrow> Metrics option" where
  "addActiveConnections m n =
     (case m of None \<Rightarrow> None | Some x \<Rightarrow> Some (x\<lparr>ActiveConnections := ActiveConnections x + n\<rparr>))"

definition loadActiveConnections :: "Metrics option \<Rightarrow> int64" where
  "loadActiveConnections m = (case m of None \<Rightarrow> 0 | Some x \<Rightarrow> ActiveConnections x)"

definition addRejectedByACL :: "Metrics option \<Rightarrow> int64 \<Rightarrow> Metrics option" where
  "addRejectedByACL m n =
     (case m of None \<Rightarrow> None | Some x \<Rightarrow> Some (x\<lparr>RejectedByACL := RejectedByACL x + n\<rparr>))"

definition addRejectedByMaxConnections :: "Metrics option \<Rightarrow> int64 \<Rightarrow> Metrics option" where
  "addRejectedByMaxConnections m n =
     (case m of None \<Rightarrow> None
      | Some x \<Rightarrow> Some (x\<lparr>RejectedByMaxConnections := RejectedByMaxConnections x + n\<rparr>))"

definition addBlockedQueries :: "Metrics option \<Rightarrow> int64 \<Rightarrow> Metrics option" where
  "addBlockedQueries m n =
     (case m of None \<Rightarrow> None | Some x \<Rightarrow> Some (x\<lparr>BlockedQueries := BlockedQueries x + n\<rparr>))"

definition addBackendConnectErrors :: "Metrics option \<Rightarrow> int64 \<Rightarrow> Metrics option" where
  "addBackendConnectErrors m n =
     (case m of None \<Rightarrow> None | Some x \<Rightarrow> Some (x\<lparr>BackendConnectErrors := BackendConnectErrors x + n\<rparr>))"

lemmas metrics_defs = addTotalConnections_def addActiveConnections_def addRejectedByACL_def
  addRejectedByMaxConnections_def addBlockedQueries_def addBackendConnectErrors_def

section \<open>The contract of a counter\<close>

text \<open>
  A counter of a structure: adding changes its value by the amount added and leaves the rest of the
  structure (\<open>other\<close>) as it was.
\<close>

locale counter =
  fixes add :: "'m \<Rightarrow> int64 \<Rightarrow> 'm"
    and val :: "'m \<Rightarrow> int64"
    and rest :: "'m \<Rightarrow> 'r"
  assumes val_add: "val (add m n) = val m + n"
    and rest_add: "rest (add m n) = rest m"
    and ext: "val m = val m' \<Longrightarrow> rest m = rest m' \<Longrightarrow> m = m'"
begin

lemma add_add: "add (add m a) b = add m (a + b)"
  by (rule ext) (simp_all add: val_add rest_add)

lemma add_commute: "add (add m a) b = add (add m b) a"
  by (simp add: add_add add.commute)

lemma add_inverse: "add (add m n) (- n) = m"
  by (rule ext) (simp_all add: val_add rest_add)

end

interpretation total: counter "\<lambda>x n. the (addTotalConnections (Some x) n)" TotalConnections
    "\<lambda>x. (ActiveConnections x, RejectedByACL x, RejectedByMaxConnections x, BlockedQueries x, BackendConnectErrors x)"
  by unfold_locales (auto simp: metrics_defs)

interpretation active: counter "\<lambda>x n. the (addActiveConnections (Some x) n)" ActiveConnections
    "\<lambda>x. (TotalConnections x, RejectedByACL x, RejectedByMaxConnections x, BlockedQueries x, BackendConnectErrors x)"
  by unfold_locales (auto simp: metrics_defs)

interpretation rejACL: counter "\<lambda>x n. the (addRejectedByACL (Some x) n)" RejectedByACL
    "\<lambda>x. (TotalConnections x, ActiveConnections x, RejectedByMaxConnections x, BlockedQueries x, BackendConnectErrors x)"
  by unfold_locales (auto simp: metrics_defs)

interpretation rejMax: counter "\<lambda>x n. the (addRejectedByMaxConnections (Some x) n)" RejectedByMaxConnections
    "\<lambda>x. (TotalConnections x, ActiveConnections x, RejectedByACL x, BlockedQueries x, BackendConnectErrors x)"
  by unfold_locales (auto simp: metrics_defs)

interpretation blocked: counter "\<lambda>x n. the (addBlockedQueries (Some x) n)" BlockedQueries
    "\<lambda>x. (TotalConnections x, ActiveConnections x, RejectedByACL x, RejectedByMaxConnections x, BackendConnectErrors x)"
  by unfold_locales (auto simp: metrics_defs)

interpretation connErr: counter "\<lambda>x n. the (addBackendConnectErrors (Some x) n)" BackendConnectErrors
    "\<lambda>x. (TotalConnections x, ActiveConnections x, RejectedByACL x, RejectedByMaxConnections x, BlockedQueries x)"
  by unfold_locales (auto simp: metrics_defs)

section \<open>Concurrent use\<close>

text \<open>
  The operations as data: what a goroutine does to the shared counters. Atomic operations of
  several goroutines take effect in some order; that order is a list.
\<close>

datatype metricOp =
    OpTotal int64 | OpActive int64 | OpRejectedACL int64 | OpRejectedMax int64
  | OpBlocked int64 | OpConnectError int64

fun applyOp :: "metricOp \<Rightarrow> Metrics option \<Rightarrow> Metrics option" where
  "applyOp (OpTotal n) m = addTotalConnections m n"
| "applyOp (OpActive n) m = addActiveConnections m n"
| "applyOp (OpRejectedACL n) m = addRejectedByACL m n"
| "applyOp (OpRejectedMax n) m = addRejectedByMaxConnections m n"
| "applyOp (OpBlocked n) m = addBlockedQueries m n"
| "applyOp (OpConnectError n) m = addBackendConnectErrors m n"

definition runOps :: "metricOp list \<Rightarrow> Metrics option \<Rightarrow> Metrics option" where
  "runOps ops m = fold applyOp ops m"

text \<open>
  \<open>Snapshot\<close> tests the pointer and then loads the counters one by one; \<open>g i\<close> are the operations of
  other goroutines that take effect right before load number \<open>i\<close>.
\<close>

definition Snapshot :: "(nat \<Rightarrow> metricOp list) \<Rightarrow> Metrics option \<Rightarrow> MetricsSnapshot" where
  "Snapshot g m =
     (if m = None
      then \<lparr>snapTotalConnections = 0, snapActiveConnections = 0, snapRejectedByACL = 0,
            snapRejectedByMaxConnections = 0, snapBlockedQueries = 0, snapBackendConnectErrors = 0\<rparr>
      else
        let m0 = runOps (g 0) m; t = TotalConnections (the m0);
            m1 = runOps (g 1) m0; a = ActiveConnections (the m1);
            m2 = runOps (g 2) m1; r = RejectedByACL (the m2);
            m3 = runOps (g 3) m2; x = RejectedByMaxConnections (the m3);
            m4 = runOps (g 4) m3; b = BlockedQueries (the m4);
            m5 = runOps (g 5) m4; e = BackendConnectErrors (the m5) in
        \<lparr>snapTotalConnections = t, snapActiveConnections = a, snapRejectedByACL = r,
         snapRejectedByMaxConnections = x, snapBlockedQueries = b, snapBackendConnectErrors = e\<rparr>)"

text \<open>What an operation adds to each of the counters, and the total over a history.\<close>

fun amount :: "metricOp \<Rightarrow> MetricsSnapshot" where
  "amount op =
     \<lparr>snapTotalConnections = (case op of OpTotal n \<Rightarrow> n | _ \<Rightarrow> 0),
      snapActiveConnections = (case op of OpActive n \<Rightarrow> n | _ \<Rightarrow> 0),
      snapRejectedByACL = (case op of OpRejectedACL n \<Rightarrow> n | _ \<Rightarrow> 0),
      snapRejectedByMaxConnections = (case op of OpRejectedMax n \<Rightarrow> n | _ \<Rightarrow> 0),
      snapBlockedQueries = (case op of OpBlocked n \<Rightarrow> n | _ \<Rightarrow> 0),
      snapBackendConnectErrors = (case op of OpConnectError n \<Rightarrow> n | _ \<Rightarrow> 0)\<rparr>"

definition added :: "(MetricsSnapshot \<Rightarrow> int64) \<Rightarrow> metricOp list \<Rightarrow> int64" where
  "added fld ops = sum_list (map (\<lambda>op. fld (amount op)) ops)"

definition opsBefore :: "(nat \<Rightarrow> metricOp list) \<Rightarrow> nat \<Rightarrow> metricOp list" where
  "opsBefore g i = concat (map g [0..<Suc i])"

lemma applyOp_Some:
  "\<exists>y. applyOp a (Some x) = Some y \<and>
     TotalConnections y = TotalConnections x + snapTotalConnections (amount a) \<and>
     ActiveConnections y = ActiveConnections x + snapActiveConnections (amount a) \<and>
     RejectedByACL y = RejectedByACL x + snapRejectedByACL (amount a) \<and>
     RejectedByMaxConnections y = RejectedByMaxConnections x + snapRejectedByMaxConnections (amount a) \<and>
     BlockedQueries y = BlockedQueries x + snapBlockedQueries (amount a) \<and>
     BackendConnectErrors y = BackendConnectErrors x + snapBackendConnectErrors (amount a)"
  by (cases a) (simp_all add: metrics_defs)

lemma runOps_Some:
  "\<exists>y. runOps ops (Some x) = Some y \<and>
     TotalConnections y = TotalConnections x + added snapTotalConnections ops \<and>
     ActiveConnections y = ActiveConnections x + added snapActiveConnections ops \<and>
     RejectedByACL y = RejectedByACL x + added snapRejectedByACL ops \<and>
     RejectedByMaxConnections y = RejectedByMaxConnections x + added snapRejectedByMaxConnections ops \<and>
     BlockedQueries y = BlockedQueries x + added snapBlockedQueries ops \<and>
     BackendConnectErrors y = BackendConnectErrors x + added snapBackendConnectErrors ops"
proof (induction ops arbitrary: x)
  case (Cons a ops)
  obtain z where z: "applyOp a (Some x) = Some z"
    "TotalConnections z = TotalConnections x + snapTotalConnections (amount a)"
    "ActiveConnections z = ActiveConnections x + snapActiveConnections (amount a)"
    "RejectedByACL z = RejectedByACL x + snapRejectedByACL (amount a)"
    "RejectedByMaxConnections z = RejectedByMaxConnections x + snapRejectedByMaxConnections (amount a)"
    "BlockedQueries z = BlockedQueries x + snapBlockedQueries (amount a)"
    "BackendConnectErrors z = BackendConnectErrors x + snapBackendConnectErrors (amount a)"
    using applyOp_Some by blast
  from Cons [of z] show ?case by (simp add: runOps_def added_def z add.assoc del: amount.simps)
qed (simp add: runOps_def added_def)

lemma runOps_runOps: "runOps ops' (runOps ops m) = runOps (ops @ ops') m"
  by (simp add: runOps_def)

lemma opsBefore_Suc: "opsBefore g (Suc i) = opsBefore g i @ g (Suc i)"
  by (simp add: opsBefore_def)

text \<open>
  C31. A snapshot taken while other goroutines count: on a nil \<open>*Metrics\<close> every field is zero;
  otherwise each field is its counter's value at the call plus the sum, modulo \<open>2 ^ 64\<close>, of the
  additions to that counter, and to no other, that took effect before its own load. The fields are
  loaded one after the other, so a later field counts operations that an earlier one does not.
\<close>

theorem snapshot_interleaving:
  "Snapshot g m =
     (case m of
        None \<Rightarrow> \<lparr>snapTotalConnections = 0, snapActiveConnections = 0, snapRejectedByACL = 0,
                 snapRejectedByMaxConnections = 0, snapBlockedQueries = 0, snapBackendConnectErrors = 0\<rparr>
      | Some x \<Rightarrow>
          \<lparr>snapTotalConnections = TotalConnections x + added snapTotalConnections (opsBefore g 0),
           snapActiveConnections = ActiveConnections x + added snapActiveConnections (opsBefore g 1),
           snapRejectedByACL = RejectedByACL x + added snapRejectedByACL (opsBefore g 2),
           snapRejectedByMaxConnections =
             RejectedByMaxConnections x + added snapRejectedByMaxConnections (opsBefore g 3),
           snapBlockedQueries = BlockedQueries x + added snapBlockedQueries (opsBefore g 4),
           snapBackendConnectErrors = BackendConnectErrors x + added snapBackendConnectErrors (opsBefore g 5)\<rparr>)"
proof (cases m)
  case (Some x)
  have "runOps (g 0) m = runOps (opsBefore g 0) m" by (simp add: opsBefore_def)
  moreover have "runOps (g (Suc i)) (runOps (opsBefore g i) m) = runOps (opsBefore g (Suc i)) m" for i
    by (simp add: runOps_runOps opsBefore_Suc)
  note this [of 0] this [of 1] this [of 2] this [of 3] this [of 4]
  ultimately have "Snapshot g m =
      \<lparr>snapTotalConnections = TotalConnections (the (runOps (opsBefore g 0) m)),
       snapActiveConnections = ActiveConnections (the (runOps (opsBefore g 1) m)),
       snapRejectedByACL = RejectedByACL (the (runOps (opsBefore g 2) m)),
       snapRejectedByMaxConnections = RejectedByMaxConnections (the (runOps (opsBefore g 3) m)),
       snapBlockedQueries = BlockedQueries (the (runOps (opsBefore g 4) m)),
       snapBackendConnectErrors = BackendConnectErrors (the (runOps (opsBefore g 5) m))\<rparr>"
    using Some by (simp add: Snapshot_def Let_def eval_nat_numeral)
  moreover note runOps_Some [of "opsBefore g 0" x] runOps_Some [of "opsBefore g 1" x] runOps_Some [of "opsBefore g 2" x]
    runOps_Some [of "opsBefore g 3" x] runOps_Some [of "opsBefore g 4" x] runOps_Some [of "opsBefore g 5" x]
  ultimately show ?thesis using Some by auto
qed (simp add: Snapshot_def)

end
