(* ===== verification/Proxy_Options.thy ===== *)
theory Proxy_Options
  imports Access_Control Proxy_Metrics
begin

text \<open>
  The options of \<^verbatim>\<open>proxy/options.go\<close> and the configuration they fill in. An \<open>Option\<close> is a
  function on \<open>startConfig\<close>, as in the code; \<open>Start\<close> applies them in order to the zero value.

  A handler may depend on state that changes while the proxy runs (the filter's configuration is
  replaced on reload), so handlers take that state, of type \<open>'f\<close>, as their first argument. A
  \<open>time.Duration\<close> and an \<open>int\<close> are 64-bit words read as signed numbers.

  The contract of an option is the locale \<open>config_field\<close>: it sets its field and nothing else, and
  the last one given wins. It is interpreted for each of the six options.
\<close>

section \<open>The part of crypto/tls the program uses\<close>

datatype ClientAuthType = NoClientCert | RequireAndVerifyClientCert

text \<open>A certificate is kept as an uninterpreted string, a pool as the list of its certificates.\<close>

type_synonym certificate = string

record tls_config =
  Certificates :: "certificate list"
  ClientCAs :: "certificate list option"
  ClientAuth :: ClientAuthType
  ServerName :: string
  InsecureSkipVerify :: bool
  RootCAs :: "certificate list option"

definition zeroTLSConfig :: tls_config where
  "zeroTLSConfig = \<lparr>Certificates = [], ClientCAs = None, ClientAuth = NoClientCert, ServerName = [],
     InsecureSkipVerify = False, RootCAs = None\<rparr>"

section \<open>Options\<close>

record ConnInfo =
  ConnID :: "64 word"
  User :: string
  Database :: string
  RemoteAddr :: string

type_synonym 'f stateful_handler = "'f \<Rightarrow> handler"
type_synonym 'f ContextHandler = "'f \<Rightarrow> ConnInfo \<Rightarrow> handler"
type_synonym Duration = "64 word"

record 'f startConfig =
  cfgTLS :: "tls_config option"
  cfgACL :: "ACL option"
  cfgContextHandler :: "'f ContextHandler option"
  cfgMaxConnections :: int64
  cfgIdleTimeout :: Duration
  cfgMetrics :: "Metrics option"

definition zeroStartConfig :: "'f startConfig" where
  "zeroStartConfig = \<lparr>cfgTLS = None, cfgACL = None, cfgContextHandler = None, cfgMaxConnections = 0,
     cfgIdleTimeout = 0, cfgMetrics = None\<rparr>"

type_synonym 'f Option = "'f startConfig \<Rightarrow> 'f startConfig"

definition WithTLS :: "tls_config option \<Rightarrow> 'f Option" where
  "WithTLS cfg c = c\<lparr>cfgTLS := cfg\<rparr>"

definition WithACL :: "ACL \<Rightarrow> 'f Option" where
  "WithACL acl c = c\<lparr>cfgACL := Some acl\<rparr>"

definition WithContextHandler :: "'f ContextHandler option \<Rightarrow> 'f Option" where
  "WithContextHandler h c = c\<lparr>cfgContextHandler := h\<rparr>"

definition WithMaxConnections :: "int64 \<Rightarrow> 'f Option" where
  "WithMaxConnections n c = c\<lparr>cfgMaxConnections := n\<rparr>"

definition WithIdleTimeout :: "Duration \<Rightarrow> 'f Option" where
  "WithIdleTimeout d c = c\<lparr>cfgIdleTimeout := d\<rparr>"

definition WithMetrics :: "Metrics option \<Rightarrow> 'f Option" where
  "WithMetrics m c = c\<lparr>cfgMetrics := m\<rparr>"

definition applyOptions :: "'f Option list \<Rightarrow> 'f startConfig" where
  "applyOptions opts = fold (\<lambda>opt cfg. opt cfg) opts zeroStartConfig"

lemmas option_defs = WithTLS_def WithACL_def WithContextHandler_def WithMaxConnections_def
  WithIdleTimeout_def WithMetrics_def

section \<open>The contract of an option\<close>

locale config_field =
  fixes set_field :: "'v \<Rightarrow> 'c \<Rightarrow> 'c"
    and get_field :: "'c \<Rightarrow> 'w"
    and stored :: "'v \<Rightarrow> 'w"
  assumes get_set: "get_field (set_field v c) = stored v"
    and set_set: "set_field v (set_field w c) = set_field v c"
begin

text \<open>
  Options that leave the field alone (\<open>get_field (opt c) = get_field c\<close>) may follow: the value set
  last is the one \<open>Start\<close> reads.
\<close>

lemma last_wins:
  assumes "list_all (\<lambda>opt. \<forall>c. get_field (opt c) = get_field c) later"
  shows "get_field (fold (\<lambda>opt cfg. opt cfg) (earlier @ set_field v # later) c) = stored v"
proof -
  have "get_field (fold (\<lambda>opt cfg. opt cfg) later d) = get_field d" for d
    using assms by (induction later arbitrary: d) simp_all
  then show ?thesis by (simp add: get_set)
qed

end

interpretation tls_field: config_field WithTLS cfgTLS "\<lambda>v. v"
  by unfold_locales (simp_all add: option_defs)

interpretation acl_field: config_field WithACL cfgACL Some
  by unfold_locales (simp_all add: option_defs)

interpretation context_field: config_field WithContextHandler cfgContextHandler "\<lambda>v. v"
  by unfold_locales (simp_all add: option_defs)

interpretation max_field: config_field WithMaxConnections cfgMaxConnections "\<lambda>v. v"
  by unfold_locales (simp_all add: option_defs)

interpretation idle_field: config_field WithIdleTimeout cfgIdleTimeout "\<lambda>v. v"
  by unfold_locales (simp_all add: option_defs)

interpretation metrics_field: config_field WithMetrics cfgMetrics "\<lambda>v. v"
  by unfold_locales (simp_all add: option_defs)

text \<open>An option touches no field but its own.\<close>

lemma option_frames [simp]:
  "cfgACL (WithTLS t c) = cfgACL c" "cfgContextHandler (WithTLS t c) = cfgContextHandler c"
  "cfgMaxConnections (WithTLS t c) = cfgMaxConnections c" "cfgIdleTimeout (WithTLS t c) = cfgIdleTimeout c"
  "cfgMetrics (WithTLS t c) = cfgMetrics c"
  "cfgTLS (WithACL a c) = cfgTLS c" "cfgContextHandler (WithACL a c) = cfgContextHandler c"
  "cfgMaxConnections (WithACL a c) = cfgMaxConnections c" "cfgIdleTimeout (WithACL a c) = cfgIdleTimeout c"
  "cfgMetrics (WithACL a c) = cfgMetrics c"
  "cfgTLS (WithMaxConnections n c) = cfgTLS c" "cfgACL (WithMaxConnections n c) = cfgACL c"
  "cfgContextHandler (WithMaxConnections n c) = cfgContextHandler c"
  "cfgIdleTimeout (WithMaxConnections n c) = cfgIdleTimeout c" "cfgMetrics (WithMaxConnections n c) = cfgMetrics c"
  "cfgTLS (WithIdleTimeout d c) = cfgTLS c" "cfgACL (WithIdleTimeout d c) = cfgACL c"
  "cfgContextHandler (WithIdleTimeout d c) = cfgContextHandler c"
  "cfgMaxConnections (WithIdleTimeout d c) = cfgMaxConnections c" "cfgMetrics (WithIdleTimeout d c) = cfgMetrics c"
  "cfgTLS (WithMetrics m c) = cfgTLS c" "cfgACL (WithMetrics m c) = cfgACL c"
  "cfgContextHandler (WithMetrics m c) = cfgContextHandler c"
  "cfgMaxConnections (WithMetrics m c) = cfgMaxConnections c" "cfgIdleTimeout (WithMetrics m c) = cfgIdleTimeout c"
  by (simp_all add: option_defs)

end
