(* ===== verification/Pg_Proto.thy ===== *)
theory Pg_Proto
  imports Pg_Prelude
begin

text \<open>
  The messages of the PostgreSQL protocol as the program sees them: the message types of package
  \<open>pgproto3\<close> on which its type switches branch, with the fields it reads, and one constructor for
  all the other types of each direction, which the program only re-encodes.

  The package itself is not part of the repository. Its encoder and decoders are the arguments
  \<open>Encode\<close>, \<open>DecodeFrontend\<close> and \<open>DecodeBackend\<close> of a \<open>codec\<close>: \<open>DecodeFrontend\<close> reads one frame of
  a client under the authentication type last set by \<open>SetAuthType\<close>, which is what selects the
  meaning of a \<open>p\<close> frame.
\<close>

type_synonym uint32 = "32 word"

datatype startup_msg =
    StartupMessage uint32 "string \<rightharpoonup> string"
  | SSLRequest
  | GSSEncRequest
  | CancelRequest uint32 string
  | OtherStartup string

datatype frontend_msg =
    Query string
  | Parse string string "uint32 list"
  | Terminate
  | OtherFrontend string

datatype AuthType =
    AuthTypeOk
  | AuthTypeCleartextPassword
  | AuthTypeMD5Password
  | AuthTypeGSS
  | AuthTypeGSSCont
  | AuthTypeSASL
  | AuthTypeSASLContinue
  | AuthTypeSASLFinal

datatype backend_msg =
    AuthenticationCleartextPassword
  | AuthenticationMD5Password string
  | AuthenticationSASL string
  | AuthenticationSASLContinue string
  | AuthenticationSASLFinal string
  | AuthenticationGSS
  | AuthenticationGSSContinue string
  | BackendKeyData uint32 string
  | ReadyForQuery char
  | ErrorResponse string string string
  | OtherBackend string

datatype message =
    StartupM startup_msg
  | FrontendM frontend_msg
  | BackendM backend_msg

text \<open>\<open>Encode\<close> returns bytes and an error; \<open>ErrorResponse\<close> has severity, message and code.\<close>

record codec =
  Encode :: "message \<Rightarrow> string \<times> go_error option"
  DecodeFrontend :: "AuthType \<Rightarrow> string \<Rightarrow> frontend_msg result"
  DecodeBackend :: "string \<Rightarrow> backend_msg result"

section \<open>Helpers of proxy.go\<close>

text \<open>\<open>encodeMsg\<close> drops the error.\<close>

definition encodeMsg :: "codec \<Rightarrow> message \<Rightarrow> string" where
  "encodeMsg cd msg = (case Encode cd msg of (b, _) \<Rightarrow> b)"

definition buildErrorResponse :: "codec \<Rightarrow> string \<Rightarrow> string \<Rightarrow> string \<Rightarrow> string" where
  "buildErrorResponse cd severity message code =
     (let code' = (if code = [] then ''XX000'' else code) in
      encodeMsg cd (BackendM (ErrorResponse severity message code')))"

text \<open>A codec for concrete runs: a tag byte and the text, one frame per string.\<close>

definition demoEncode :: "message \<Rightarrow> string" where
  "demoEncode msg =
     (case msg of
        StartupM (StartupMessage v ps) \<Rightarrow> ''S'' @ (case ps ''database'' of Some d \<Rightarrow> d | None \<Rightarrow> [])
      | StartupM SSLRequest \<Rightarrow> ''L''
      | StartupM GSSEncRequest \<Rightarrow> ''G''
      | StartupM (CancelRequest pid sec) \<Rightarrow> ''C'' @ sec
      | StartupM (OtherStartup b) \<Rightarrow> b
      | FrontendM (Query q) \<Rightarrow> ''Q'' @ q
      | FrontendM (Parse n q oids) \<Rightarrow> ''P'' @ q
      | FrontendM Terminate \<Rightarrow> ''X''
      | FrontendM (OtherFrontend b) \<Rightarrow> b
      | BackendM (ReadyForQuery t) \<Rightarrow> [CHR ''Z'', t]
      | BackendM (ErrorResponse sev m c) \<Rightarrow> ''E'' @ c @ m
      | BackendM (BackendKeyData pid sec) \<Rightarrow> ''K'' @ sec
      | BackendM m \<Rightarrow> ''R'')"

definition demoDecodeFrontend :: "AuthType \<Rightarrow> string \<Rightarrow> frontend_msg result" where
  "demoDecodeFrontend at b =
     (case b of
        [] \<Rightarrow> Inl EOF
      | c # cs \<Rightarrow>
          if c = CHR ''Q'' then Inr (Query cs)
          else if c = CHR ''P'' then Inr (Parse [] cs [])
          else if c = CHR ''X'' then Inr Terminate
          else if c = CHR ''p'' \<and> at = AuthTypeOk then Inr (OtherFrontend (takeWhile (\<lambda>x. x \<noteq> CHR 0x00) b))
          else Inr (OtherFrontend b))"

definition demoDecodeBackend :: "string \<Rightarrow> backend_msg result" where
  "demoDecodeBackend b =
     (case b of
        [] \<Rightarrow> Inl EOF
      | c # cs \<Rightarrow>
          if c = CHR ''Z'' \<and> cs \<noteq> [] then Inr (ReadyForQuery (hd cs))
          else if c = CHR ''K'' then Inr (BackendKeyData 1 cs)
          else if c = CHR ''R'' then Inr (AuthenticationSASL cs)
          else Inr (OtherBackend b))"

definition demoCodec :: codec where
  "demoCodec = \<lparr>Encode = (\<lambda>m. (demoEncode m, None)), DecodeFrontend = demoDecodeFrontend,
     DecodeBackend = demoDecodeBackend\<rparr>"

end
