(* ===== verification/Backend_Auth.thy ===== *)
theory Backend_Auth
  imports Proxy_Options Pg_Proto
begin

text \<open>
  Connection set-up, \<^verbatim>\<open>proxy/auth.go\<close>: \<open>NewFrontendTLSConfig\<close>, \<open>targetFor\<close>,
  \<open>readStartupMessage\<close>, \<open>rewriteStartupMessage\<close>, \<open>backendTLSConfig\<close>, \<open>connectBackend\<close>.

  The file system and the PEM parser are the arguments of a \<open>tls_env\<close>. A connection is the raw
  network connection or a TLS wrapper around a connection, so what is sent in the clear can be told
  from what is encrypted. What a peer does is data: the client's next packets for
  \<open>readStartupMessage\<close> (a list of rounds; a client that sends nothing more leaves the proxy waiting,
  the result \<open>None\<close>), the outcome of each network call for \<open>connectBackend\<close>. Both return the
  actions they take on the network, in order.
\<close>

section \<open>Data\<close>

record DBConfig =
  Addr :: string
  DBName :: string
  TLSRootCert :: string
  TLSServerName :: string

record backendTarget =
  network :: string
  addr :: string

datatype net_conn =
    NetConn nat
  | TLSServer tls_config net_conn
  | TLSClient tls_config net_conn

datatype net_action =
    Dial backendTarget
  | WriteTo net_conn string
  | ReadFrom net_conn
  | CloseConn net_conn

record tls_env =
  LoadX509KeyPair :: "string \<Rightarrow> string \<Rightarrow> certificate result"
  ReadFile :: "string \<Rightarrow> string result"
  CertsFromPEM :: "string \<Rightarrow> certificate list"

section \<open>Frontend TLS\<close>

definition NewFrontendTLSConfig :: "tls_env \<Rightarrow> string \<Rightarrow> string \<Rightarrow> string \<Rightarrow> tls_config result" where
  "NewFrontendTLSConfig env certFile keyFile clientCAFile =
     (case LoadX509KeyPair env certFile keyFile of
        Inl e \<Rightarrow> Inl (Errorf [Lit ''loading TLS certificate/key: '', Wrap e])
      | Inr cert \<Rightarrow>
          let cfg = zeroTLSConfig\<lparr>Certificates := [cert]\<rparr> in
          if clientCAFile = [] then Inr cfg
          else
            (case ReadFile env clientCAFile of
               Inl e \<Rightarrow> Inl (Errorf [Lit ''reading TLS client CA '', Quoted clientCAFile, Lit '': '', Wrap e])
             | Inr pem \<Rightarrow>
                 let pool = CertsFromPEM env pem in
                 if pool = []
                 then Inl (Errorf [Lit ''no certificates found in TLS client CA '', Quoted clientCAFile])
                 else Inr (cfg\<lparr>ClientCAs := Some pool, ClientAuth := RequireAndVerifyClientCert\<rparr>)))"

section \<open>The client's first packets\<close>

text \<open>
  One turn of the loop: what \<open>ReceiveStartupMessage\<close> returns, whether the one-byte answer can be
  written, and how the TLS handshake ends, where the turn gets that far.
\<close>

record startup_round =
  received :: "startup_msg result"
  answerErr :: "go_error option"
  handshakeErr :: "go_error option"

type_synonym startup_result = "net_action list \<times> startup_msg result \<times> net_conn"

fun readStartupMessage ::
  "startup_round list \<Rightarrow> net_conn \<Rightarrow> tls_config option \<Rightarrow> startup_result option" where
  "readStartupMessage [] conn tlsConfig = None"
| "readStartupMessage (r # rs) conn tlsConfig =
     (case received r of
        Inl e \<Rightarrow> Some ([], Inl e, conn)
      | Inr SSLRequest \<Rightarrow>
          (case tlsConfig of
             None \<Rightarrow>
               (case answerErr r of
                  Some e \<Rightarrow> Some ([WriteTo conn ''N''], Inl e, conn)
                | None \<Rightarrow>
                    map_option (\<lambda>(acts, res). (WriteTo conn ''N'' # acts, res))
                      (readStartupMessage rs conn tlsConfig))
           | Some cfg \<Rightarrow>
               (case answerErr r of
                  Some e \<Rightarrow> Some ([WriteTo conn ''S''], Inl e, conn)
                | None \<Rightarrow>
                    (case handshakeErr r of
                       Some e \<Rightarrow>
                         Some ([WriteTo conn ''S''],
                               Inl (Errorf [Lit ''client TLS handshake failed: '', Wrap e]), conn)
                     | None \<Rightarrow>
                         map_option (\<lambda>(acts, res). (WriteTo conn ''S'' # acts, res))
                           (readStartupMessage rs (TLSServer cfg conn) tlsConfig))))
      | Inr GSSEncRequest \<Rightarrow>
          (case answerErr r of
             Some e \<Rightarrow> Some ([WriteTo conn ''N''], Inl e, conn)
           | None \<Rightarrow>
               map_option (\<lambda>(acts, res). (WriteTo conn ''N'' # acts, res))
                 (readStartupMessage rs conn tlsConfig))
      | Inr msg \<Rightarrow> Some ([], Inr msg, conn))"

section \<open>Connecting to the backend\<close>

definition targetFor :: "string \<Rightarrow> backendTarget" where
  "targetFor a =
     (if HasPrefix a ''/'' then \<lparr>network = ''unix'', addr = a\<rparr>
      else if HasPrefix a ''unix:'' then \<lparr>network = ''unix'', addr = TrimPrefix a ''unix:''\<rparr>
      else \<lparr>network = ''tcp'', addr = a\<rparr>)"

text \<open>The function is called with a \<open>*StartupMessage\<close>: its version and parameters.\<close>

definition rewriteParameters :: "(string \<rightharpoonup> string) \<Rightarrow> DBConfig \<Rightarrow> (string \<rightharpoonup> string)" where
  "rewriteParameters ps db = (if DBName db \<noteq> [] then ps(''database'' \<mapsto> DBName db) else ps)"

definition rewriteStartupMessage :: "uint32 \<Rightarrow> (string \<rightharpoonup> string) \<Rightarrow> DBConfig \<Rightarrow> startup_msg" where
  "rewriteStartupMessage version ps db = StartupMessage version (rewriteParameters ps db)"

definition serverNameFor :: "DBConfig \<Rightarrow> string \<Rightarrow> string" where
  "serverNameFor db dialAddr =
     (if TLSServerName db = []
      then (case SplitHostPort dialAddr of Some (host, port) \<Rightarrow> host | None \<Rightarrow> dialAddr)
      else TLSServerName db)"

definition backendTLSConfig :: "tls_env \<Rightarrow> DBConfig \<Rightarrow> string \<Rightarrow> tls_config result" where
  "backendTLSConfig env db dialAddr =
     (let conf = zeroTLSConfig\<lparr>ServerName := serverNameFor db dialAddr\<rparr> in
      if TLSRootCert db = [] then Inr (conf\<lparr>InsecureSkipVerify := True\<rparr>)
      else
        (case ReadFile env (TLSRootCert db) of
           Inl e \<Rightarrow> Inl (Errorf [Lit ''reading TLSRootCert '', Quoted (TLSRootCert db), Lit '': '', Wrap e])
         | Inr pem \<Rightarrow>
             let pool = CertsFromPEM env pem in
             if pool = [] then Inl (Errorf [Lit ''no certificates found in TLSRootCert '', Quoted (TLSRootCert db)])
             else Inr (conf\<lparr>RootCAs := Some pool\<rparr>)))"

text \<open>The upgrade to TLS when the backend answers \<open>S\<close>.\<close>

definition upgradeBackend ::
  "tls_env \<Rightarrow> DBConfig \<Rightarrow> backendTarget \<Rightarrow> char \<Rightarrow> net_conn \<Rightarrow> net_conn result" where
  "upgradeBackend env db target resp conn =
     (if resp = CHR ''S'' then
        (case backendTLSConfig env db (addr target) of
           Inl e \<Rightarrow> Inl e
         | Inr conf \<Rightarrow> Inr (TLSClient conf conn))
      else Inr conn)"

text \<open>The outcome of each network call: the dial, the two writes and the read of one byte.\<close>

record backend_io =
  dialed :: "net_conn result"
  sslWriteErr :: "go_error option"
  sslResp :: "char result"
  startupWriteErr :: "go_error option"

definition connectBackend ::
  "codec \<Rightarrow> tls_env \<Rightarrow> backend_io \<Rightarrow> DBConfig \<Rightarrow> uint32 \<Rightarrow> (string \<rightharpoonup> string) \<Rightarrow>
     net_action list \<times> net_conn result \<times> backendTarget" where
  "connectBackend cd env io db version ps =
     (let target = targetFor (Addr db) in
      case dialed io of
        Inl e \<Rightarrow> ([Dial target], Inl e, target)
      | Inr conn \<Rightarrow>
          let acts1 = [Dial target, WriteTo conn (encodeMsg cd (StartupM SSLRequest))] in
          (case sslWriteErr io of
             Some e \<Rightarrow> (acts1 @ [CloseConn conn], Inl e, target)
           | None \<Rightarrow>
               (case sslResp io of
                  Inl e \<Rightarrow> (acts1 @ [ReadFrom conn, CloseConn conn], Inl e, target)
                | Inr resp \<Rightarrow>
                    let acts2 = acts1 @ [ReadFrom conn] in
                    (case upgradeBackend env db target resp conn of
                       Inl e \<Rightarrow> (acts2 @ [CloseConn conn], Inl e, target)
                     | Inr conn' \<Rightarrow>
                         let backendStartup = rewriteStartupMessage version ps db;
                             acts3 = acts2 @ [WriteTo conn' (encodeMsg cd (StartupM backendStartup))] in
                         (case startupWriteErr io of
                            Some e \<Rightarrow> (acts3 @ [CloseConn conn'], Inl e, target)
                          | None \<Rightarrow> (acts3, Inr conn', target))))))"

section \<open>What the client's first packets lead to\<close>

definition negotiation :: "startup_msg \<Rightarrow> bool" where
  "negotiation msg = (msg = SSLRequest \<or> msg = GSSEncRequest)"

text \<open>A turn after which the loop goes on: an encryption request, answered without an error.\<close>

definition goesOn :: "tls_config option \<Rightarrow> startup_round \<Rightarrow> bool" where
  "goesOn tls r =
     (case received r of
        Inl e \<Rightarrow> False
      | Inr msg \<Rightarrow>
          negotiation msg \<and> answerErr r = None \<and>
          (msg = SSLRequest \<and> tls \<noteq> None \<longrightarrow> handshakeErr r = None))"

definition answerTo :: "tls_config option \<Rightarrow> startup_round \<Rightarrow> string" where
  "answerTo tls r = (if received r = Inr SSLRequest \<and> tls \<noteq> None then ''S'' else ''N'')"

text \<open>The connection after some turns: one TLS layer for each SSLRequest that was accepted.\<close>

definition sslRequests :: "startup_round list \<Rightarrow> nat" where
  "sslRequests rs = length (filter (\<lambda>r. received r = Inr SSLRequest) rs)"

definition connAfter :: "tls_config option \<Rightarrow> net_conn \<Rightarrow> startup_round list \<Rightarrow> net_conn" where
  "connAfter tls conn rs =
     (case tls of None \<Rightarrow> conn | Some cfg \<Rightarrow> (TLSServer cfg ^^ sslRequests rs) conn)"

fun answers :: "tls_config option \<Rightarrow> net_conn \<Rightarrow> startup_round list \<Rightarrow> net_action list" where
  "answers tls conn [] = []"
| "answers tls conn (r # rs) = WriteTo conn (answerTo tls r) # answers tls (connAfter tls conn [r]) rs"

lemma connAfter_Nil [simp]: "connAfter tls conn [] = conn"
  by (simp add: connAfter_def sslRequests_def split: option.split)

lemma connAfter_Cons: "connAfter tls conn (r # rs) = connAfter tls (connAfter tls conn [r]) rs"
  by (auto simp: connAfter_def sslRequests_def funpow_swap1 split: option.split)

lemma readStartupMessage_step:
  assumes "goesOn tls r"
  shows "readStartupMessage (r # rs) conn tls =
    map_option (\<lambda>(acts, res). (WriteTo conn (answerTo tls r) # acts, res))
      (readStartupMessage rs (connAfter tls conn [r]) tls)"
  using assms
  by (auto simp: goesOn_def answerTo_def connAfter_def sslRequests_def negotiation_def
      split: sum.splits option.splits)

lemma readStartupMessage_stop:
  assumes "\<not> goesOn tls r"
  shows "\<exists>res. readStartupMessage (r # rs) conn tls = Some res"
  using assms
  by (cases "received r"; cases tls)
     (auto simp: goesOn_def negotiation_def split: startup_msg.splits option.splits)

lemma readStartupMessage_run:
  "list_all (goesOn tls) rs \<Longrightarrow>
     readStartupMessage (rs @ later) conn tls =
     map_option (\<lambda>(acts, res). (answers tls conn rs @ acts, res))
       (readStartupMessage later (connAfter tls conn rs) tls)"
proof (induction rs arbitrary: conn)
  case Nil
  then show ?case by (simp add: option.map_ident case_prod_unfold)
next
  case (Cons r rs)
  have "readStartupMessage ((r # rs) @ later) conn tls =
      map_option (\<lambda>(acts, res). (WriteTo conn (answerTo tls r) # acts, res))
        (readStartupMessage (rs @ later) (connAfter tls conn [r]) tls)"
    using Cons.prems readStartupMessage_step [of tls r "rs @ later" conn] by simp
  also have "\<dots> = map_option (\<lambda>(acts, res). (answers tls conn (r # rs) @ acts, res))
        (readStartupMessage later (connAfter tls conn (r # rs)) tls)"
    using Cons by (simp add: connAfter_Cons [of tls conn r rs] option.map_comp o_def case_prod_unfold)
  finally show ?case .
qed

text \<open>
  C18. After any number of encryption requests, each answered \<open>S\<close> and followed by a TLS upgrade when
  a TLS configuration is present and the request is an SSLRequest, and \<open>N\<close> otherwise,
  \<open>readStartupMessage\<close> returns the first other message, with the connection wrapped once per
  accepted SSLRequest. With no request at all (\<open>rs = []\<close>) the message is taken from the raw
  connection, also when a TLS configuration that demands client certificates is present.
\<close>

theorem readStartupMessage_exact:
  assumes "list_all (goesOn tls) rs" and "received r = Inr msg" and "\<not> negotiation msg"
  shows "readStartupMessage (rs @ r # later) conn tls =
    Some (answers tls conn rs, Inr msg, connAfter tls conn rs)"
  using readStartupMessage_run [OF assms(1), of "r # later" conn] assms(2,3)
  by (cases msg) (simp_all add: negotiation_def)

definition mutualTLS :: tls_config where
  "mutualTLS = zeroTLSConfig\<lparr>Certificates := [''server''], ClientCAs := Some [''ca''],
     ClientAuth := RequireAndVerifyClientCert\<rparr>"

definition says :: "startup_msg \<Rightarrow> startup_round" where
  "says msg = \<lparr>received = Inr msg, answerErr = None, handshakeErr = None\<rparr>"

theorem readStartupMessage_exact_witness:
  "readStartupMessage ([says GSSEncRequest, says SSLRequest] @ says (StartupMessage 196608 Map.empty) # [])
       (NetConn 7) (Some mutualTLS) =
     Some (answers (Some mutualTLS) (NetConn 7) [says GSSEncRequest, says SSLRequest],
           Inr (StartupMessage 196608 Map.empty),
           connAfter (Some mutualTLS) (NetConn 7) [says GSSEncRequest, says SSLRequest]) \<and>
   readStartupMessage ([] @ says (StartupMessage 196608 Map.empty) # []) (NetConn 7) (Some mutualTLS) =
     Some (answers (Some mutualTLS) (NetConn 7) [], Inr (StartupMessage 196608 Map.empty),
           connAfter (Some mutualTLS) (NetConn 7) [])"
  by (intro conjI readStartupMessage_exact) (simp_all add: says_def goesOn_def negotiation_def)

text \<open>
  C19. \<open>readStartupMessage\<close> returns as soon as a turn ends in an error or brings a message other
  than an encryption request; it waits for the client only while every turn so far was an answered
  encryption request.
\<close>

theorem readStartupMessage_returns:
  "readStartupMessage rs conn tls = None \<longleftrightarrow> list_all (goesOn tls) rs"
proof (induction rs arbitrary: conn)
  case (Cons r rs)
  then show ?case
    using readStartupMessage_step [of tls r rs conn] readStartupMessage_stop [of tls r rs conn]
    by (cases "goesOn tls r") auto
qed simp

section \<open>What connecting to the backend leads to\<close>

text \<open>The network connection under a connection.\<close>

primrec rawConn :: "net_conn \<Rightarrow> nat" where
  "rawConn (NetConn n) = n"
| "rawConn (TLSServer cfg c) = rawConn c"
| "rawConn (TLSClient cfg c) = rawConn c"

lemma backendTLSConfig_Inr:
  assumes "backendTLSConfig env db a = Inr conf"
  shows "ServerName conf = serverNameFor db a \<and> (InsecureSkipVerify conf \<longleftrightarrow> TLSRootCert db = []) \<and>
    (if TLSRootCert db = [] then RootCAs conf = None
     else \<exists>pem. ReadFile env (TLSRootCert db) = Inr pem \<and> RootCAs conf = Some (CertsFromPEM env pem) \<and>
       CertsFromPEM env pem \<noteq> [])"
  using assms
  by (auto simp: backendTLSConfig_def zeroTLSConfig_def Let_def split: sum.splits if_splits)

lemma upgradeBackend_rawConn:
  "upgradeBackend env db target resp conn = Inr conn' \<Longrightarrow> rawConn conn' = rawConn conn"
  by (auto simp: upgradeBackend_def split: sum.splits if_splits)

lemma connectBackend_Inr:
  assumes "connectBackend cd env io db version ps = (acts, Inr conn', target)"
  obtains conn resp where "dialed io = Inr conn" "sslResp io = Inr resp" "target = targetFor (Addr db)"
    "upgradeBackend env db target resp conn = Inr conn'"
    "acts = [Dial target, WriteTo conn (encodeMsg cd (StartupM SSLRequest)), ReadFrom conn,
       WriteTo conn' (encodeMsg cd (StartupM (rewriteStartupMessage version ps db)))]"
  using assms by (auto simp: connectBackend_def Let_def split: sum.splits option.splits)

definition isClose :: "net_action \<Rightarrow> bool" where
  "isClose a = (case a of CloseConn c \<Rightarrow> True | _ \<Rightarrow> False)"

text \<open>
  C20. \<open>connectBackend\<close> leaks no connection: when it fails after the dial, its last action closes the
  connection it opened, and it closes nothing else; when it succeeds it closes nothing and its last
  action sends the client's startup message, with only \<open>database\<close> rewritten, on the connection it
  returns, which lies over the dialled one.
\<close>

theorem connectBackend_no_leak:
  "case connectBackend cd env io db version ps of
     (acts, Inl e, target) \<Rightarrow>
       (case dialed io of
          Inl e' \<Rightarrow> acts = [Dial target] \<and> e = e'
        | Inr conn \<Rightarrow> \<exists>c. last acts = CloseConn c \<and> rawConn c = rawConn conn \<and>
            length (filter isClose acts) = 1)
   | (acts, Inr conn', target) \<Rightarrow>
       \<exists>conn ps'. dialed io = Inr conn \<and> rawConn conn' = rawConn conn \<and> filter isClose acts = [] \<and>
         last acts = WriteTo conn' (encodeMsg cd (StartupM (StartupMessage version ps'))) \<and>
         (\<forall>k. ps' k = (if k = ''database'' \<and> DBName db \<noteq> [] then Some (DBName db) else ps k))"
  by (auto simp: connectBackend_def Let_def isClose_def rewriteStartupMessage_def rewriteParameters_def
      upgradeBackend_rawConn split: sum.splits option.splits)

text \<open>
  C21. The connection \<open>connectBackend\<close> returns is encrypted exactly when the backend answered the
  SSLRequest with \<open>S\<close>. Then the peer's name is the configured one or the host dialled, and the
  certificate is verified against the configured CA file, which holds at least one certificate,
  exactly when such a file is configured. A backend that answers anything else gets the startup
  message in the clear, also when a CA file is configured.
\<close>

theorem connectBackend_encryption:
  assumes "connectBackend cd env io db version ps = (acts, Inr conn', target)"
  shows "\<exists>conn resp. dialed io = Inr conn \<and> sslResp io = Inr resp \<and>
    (if resp = CHR ''S''
     then \<exists>conf. conn' = TLSClient conf conn \<and>
       ServerName conf = serverNameFor db (addr (targetFor (Addr db))) \<and>
       (InsecureSkipVerify conf \<longleftrightarrow> TLSRootCert db = []) \<and>
       (if TLSRootCert db = [] then RootCAs conf = None
        else \<exists>pem. ReadFile env (TLSRootCert db) = Inr pem \<and> RootCAs conf = Some (CertsFromPEM env pem) \<and>
          CertsFromPEM env pem \<noteq> [])
     else conn' = conn \<and> (\<exists>ps'. WriteTo conn (encodeMsg cd (StartupM (StartupMessage version ps'))) \<in> set acts))"
proof -
  from assms obtain conn resp where c: "dialed io = Inr conn" "sslResp io = Inr resp"
      "target = targetFor (Addr db)" "upgradeBackend env db target resp conn = Inr conn'"
      "acts = [Dial target, WriteTo conn (encodeMsg cd (StartupM SSLRequest)), ReadFrom conn,
         WriteTo conn' (encodeMsg cd (StartupM (rewriteStartupMessage version ps db)))]"
    by (rule connectBackend_Inr)
  show ?thesis
  proof (cases "resp = CHR ''S''")
    case True
    with c(3,4) obtain conf where "conn' = TLSClient conf conn"
        "backendTLSConfig env db (addr (targetFor (Addr db))) = Inr conf"
      by (auto simp: upgradeBackend_def split: sum.splits)
    with backendTLSConfig_Inr [OF this(2)] True c(1,2) show ?thesis by simp
  next
    case False
    with c show ?thesis by (auto simp: upgradeBackend_def rewriteStartupMessage_def)
  qed
qed

definition demoDB :: DBConfig where
  "demoDB = \<lparr>Addr = ''10.0.0.5:5432'', DBName = ''real'', TLSRootCert = ''ca.pem'', TLSServerName = []\<rparr>"

definition refusingIO :: backend_io where
  "refusingIO = \<lparr>dialed = Inr (NetConn 9), sslWriteErr = None, sslResp = Inr (CHR ''N''), startupWriteErr = None\<rparr>"

definition noFiles :: tls_env where
  "noFiles = \<lparr>LoadX509KeyPair = (\<lambda>c k. Inl (ErrorString ''no such file'')),
     ReadFile = (\<lambda>f. Inl (ErrorString ''no such file'')), CertsFromPEM = (\<lambda>pem. [])\<rparr>"

lemma refusing_backend:
  "connectBackend demoCodec noFiles refusingIO demoDB 196608 Map.empty =
     ([Dial (targetFor (Addr demoDB)), WriteTo (NetConn 9) ''L'', ReadFrom (NetConn 9),
       WriteTo (NetConn 9) ''Sreal''], Inr (NetConn 9), targetFor (Addr demoDB))"
  by (simp add: connectBackend_def Let_def refusingIO_def demoDB_def encodeMsg_def demoCodec_def demoEncode_def
      rewriteStartupMessage_def rewriteParameters_def upgradeBackend_def)

theorem connectBackend_encryption_witness:
  "\<exists>conn resp. dialed refusingIO = Inr conn \<and> sslResp refusingIO = Inr resp \<and>
    (if resp = CHR ''S''
     then \<exists>conf. NetConn 9 = TLSClient conf conn \<and>
       ServerName conf = serverNameFor demoDB (addr (targetFor (Addr demoDB))) \<and>
       (InsecureSkipVerify conf \<longleftrightarrow> TLSRootCert demoDB = []) \<and>
       (if TLSRootCert demoDB = [] then RootCAs conf = None
        else \<exists>pem. ReadFile noFiles (TLSRootCert demoDB) = Inr pem \<and>
          RootCAs conf = Some (CertsFromPEM noFiles pem) \<and> CertsFromPEM noFiles pem \<noteq> [])
     else NetConn 9 = conn \<and>
       (\<exists>ps'. WriteTo conn (encodeMsg demoCodec (StartupM (StartupMessage 196608 ps'))) \<in>
          set [Dial (targetFor (Addr demoDB)), WriteTo (NetConn 9) ''L'', ReadFrom (NetConn 9),
               WriteTo (NetConn 9) ''Sreal'']))"
  by (rule connectBackend_encryption [OF refusing_backend])

text \<open>
  C22. A frontend TLS configuration demands a verified client certificate exactly when a client CA
  file is given, whose certificates, at least one, are then the trusted ones; building it fails when
  the key pair or the CA file cannot be read, or the CA file holds no certificate.
\<close>

theorem NewFrontendTLSConfig_mutual:
  "case NewFrontendTLSConfig env certFile keyFile clientCAFile of
     Inl e \<Rightarrow> isl (LoadX509KeyPair env certFile keyFile) \<or>
       clientCAFile \<noteq> [] \<and>
       (case ReadFile env clientCAFile of Inl e' \<Rightarrow> True | Inr pem \<Rightarrow> CertsFromPEM env pem = [])
   | Inr cfg \<Rightarrow> (\<exists>cert. LoadX509KeyPair env certFile keyFile = Inr cert \<and> Certificates cfg = [cert]) \<and>
       (ClientAuth cfg = RequireAndVerifyClientCert \<longleftrightarrow> clientCAFile \<noteq> []) \<and>
       (clientCAFile = [] \<or>
        (\<exists>pem. ReadFile env clientCAFile = Inr pem \<and> ClientCAs cfg = Some (CertsFromPEM env pem) \<and>
           CertsFromPEM env pem \<noteq> []))"
  by (auto simp: NewFrontendTLSConfig_def zeroTLSConfig_def Let_def split: sum.splits if_splits)

end
