(* ===== verification/Session.thy ===== *)
theory Session
  imports Backend_Auth
begin

text \<open>
  One client session, \<^verbatim>\<open>proxy/proxy.go\<close>: the type \<open>Proxy\<close> and its methods \<open>err\<close>,
  \<open>writeError\<close>, \<open>service\<close>, \<open>forwardCancelRequest\<close>, \<open>serviceStartup\<close>,
  \<open>handleIncomingConnection\<close>, \<open>applyFrontendHandler\<close>, \<open>handleResponseConnection\<close>, and the
  cancel registry.

  A session has three goroutines: \<open>service\<close>, and the two relays it starts. Each has a program
  counter in the session's state; a step is one operation on the state they share (a channel, an
  atomic, the registry, a write under the client mutex) or one network call, whose outcome is an
  argument of the step. The registry, the metrics and the state of the query handler are shared by
  all sessions (\<open>shared\<close>). The step relation \<open>session_step\<close> interleaves the goroutines.

  A write either takes effect completely or fails, and a write to a connection that was closed
  fails. A read may still succeed then, since the decoders buffer what they have read before. The
  fields from \<open>gotStartup\<close> on record history for the statements and are read by no step.
\<close>

section \<open>The cancel registry\<close>

record cancelKey =
  pid :: uint32
  secret :: string

record backendSession =
  sessTarget :: backendTarget
  secretKey :: string

type_synonym registry = "cancelKey \<rightharpoonup> backendSession"

text \<open>
  \<open>*(*[4]byte)(s)\<close>: the first four bytes of a slice; a shorter slice makes the conversion panic,
  here \<open>None\<close>.
\<close>

definition array4 :: "string \<Rightarrow> string option" where
  "array4 s = (if length s < 4 then None else Some (take 4 s))"

section \<open>State\<close>

record 'f shared =
  cancelRegistry :: registry
  metrics :: "Metrics option"
  handlerState :: 'f
  panicked :: bool

datatype svc_pc =
    SvcRead
  | SvcGot startup_msg
  | SvcPipe
  | SvcCloseR
  | SvcCloseL
  | SvcDone

datatype inc_pc =
    IncOff
  | IncDrain
  | IncRecv
  | IncApply frontend_msg
  | IncBlocked frontend_msg go_error
  | IncLoadTx
  | IncReady char
  | IncWrite frontend_msg string
  | IncDone

datatype rsp_pc =
    RspOff
  | RspRecv
  | RspSwitch backend_msg
  | RspKey cancelKey backend_msg
  | RspWrite backend_msg
  | RspDone

text \<open>What is written to the client: a message relayed from the backend, or one the proxy made.\<close>

datatype client_write =
    Relay string
  | Local string

record 'f session =
  lconn :: net_conn
  rconn :: "net_conn option"
  errsig :: bool
  errLog :: "(string \<times> go_error option) list"
  connID :: "64 word"
  remoteAddr :: string
  lastTxStatus :: uint32
  registeredKey :: "cancelKey option"
  tlsConfig :: "tls_config option"
  acl :: "compiledACL option"
  contextHandler :: "'f ContextHandler option"
  idleTimeout :: Duration
  svc :: svc_pc
  inc :: inc_pc
  rsp :: rsp_pc
  effectiveHandler :: "'f stateful_handler option"
  backendTgt :: backendTarget
  authTypeCh :: "AuthType list"
  backendAuthType :: AuthType
  lclosed :: bool
  rclosed :: bool
  netActs :: "net_action list"
  toBackend :: "string list"
  toClient :: "client_write list"
  gotStartup :: "startup_msg option"
  gotClient :: "frontend_msg list"
  checks :: "('f \<times> frontend_msg \<times> string result) list"
  gotBackend :: "backend_msg list"

type_synonym 'f pstate = "'f shared \<times> 'f session"

text \<open>
  What a session is given: the codec, the file system, the renderings of \<open>%q\<close> and of a duration,
  the configured databases and the plain handler (the arguments of \<open>service\<close>).
\<close>

record 'f proxy_env =
  envCodec :: codec
  envTLS :: tls_env
  envQuote :: "string \<Rightarrow> string"
  envDuration :: "Duration \<Rightarrow> string"
  envDBs :: "string \<rightharpoonup> DBConfig"
  envHandler :: "'f stateful_handler option"

section \<open>Errors\<close>

text \<open>
  \<open>err\<close> runs its body once: the first call logs, except for an end of file, and closes \<open>errsig\<close>.
\<close>

definition err :: "string \<Rightarrow> go_error option \<Rightarrow> 'f session \<Rightarrow> 'f session" where
  "err msg e s =
     (if errsig s then s
      else s\<lparr>errLog := (if e \<noteq> None \<and> e \<noteq> Some EOF then errLog s @ [(msg, e)]
                        else if e = None then errLog s @ [(msg, None)]
                        else errLog s),
             errsig := True\<rparr>)"

text \<open>The flag says whether the write reaches the client; a failure is ignored.\<close>

definition writeError :: "codec \<Rightarrow> bool \<Rightarrow> string \<Rightarrow> string \<Rightarrow> string \<Rightarrow> 'f session \<Rightarrow> 'f session" where
  "writeError cd delivered severity message code s =
     (if delivered then s\<lparr>toClient := toClient s @ [Local (buildErrorResponse cd severity message code)]\<rparr>
      else s)"

section \<open>service\<close>

definition typeName :: "startup_msg \<Rightarrow> string" where
  "typeName msg =
     (case msg of
        StartupMessage v ps \<Rightarrow> ''*pgproto3.StartupMessage''
      | SSLRequest \<Rightarrow> ''*pgproto3.SSLRequest''
      | GSSEncRequest \<Rightarrow> ''*pgproto3.GSSEncRequest''
      | CancelRequest processID sec \<Rightarrow> ''*pgproto3.CancelRequest''
      | OtherStartup t \<Rightarrow> t)"

text \<open>Reading the startup message; \<open>None\<close> while the client has not sent enough.\<close>

definition serviceRead :: "startup_round list \<Rightarrow> 'f session \<Rightarrow> 'f session option" where
  "serviceRead rounds s =
     (case readStartupMessage rounds (lconn s) (tlsConfig s) of
        None \<Rightarrow> None
      | Some (acts, res, conn) \<Rightarrow>
          let s' = s\<lparr>lconn := conn, netActs := netActs s @ acts\<rparr> in
          (case res of
             Inl e \<Rightarrow> Some ((err ''Failed to read startup message'' (Some e) s')\<lparr>svc := SvcCloseL\<rparr>)
           | Inr msg \<Rightarrow> Some (s'\<lparr>svc := SvcGot msg, gotStartup := Some msg\<rparr>)))"

text \<open>
  The request is forwarded only when the registry has the session; \<open>None\<close> is the panic on a secret
  of fewer than four bytes. \<open>dial\<close> and \<open>werr\<close> are the outcomes of the two network calls; a failed
  write is only logged.
\<close>

definition forwardCancelRequest ::
  "codec \<Rightarrow> registry \<Rightarrow> net_conn result \<Rightarrow> go_error option \<Rightarrow> uint32 \<Rightarrow> string \<Rightarrow> net_action list option" where
  "forwardCancelRequest cd reg dial werr processID secretKeyBytes =
     (case array4 secretKeyBytes of
        None \<Rightarrow> None
      | Some sec \<Rightarrow>
          (case reg \<lparr>pid = processID, secret = sec\<rparr> of
             None \<Rightarrow> Some []
           | Some sess \<Rightarrow>
               if secretKey sess \<noteq> sec then Some []
               else
                 (case dial of
                    Inl e \<Rightarrow> Some [Dial (sessTarget sess)]
                  | Inr conn \<Rightarrow>
                      Some [Dial (sessTarget sess),
                            WriteTo conn (encodeMsg cd (StartupM (CancelRequest processID secretKeyBytes))),
                            CloseConn conn])))"

section \<open>serviceStartup\<close>

text \<open>Reading a Go map: a missing key gives the empty string.\<close>

definition param :: "(string \<rightharpoonup> string) \<Rightarrow> string \<Rightarrow> string" where
  "param ps k = (case ps k of None \<Rightarrow> [] | Some v \<Rightarrow> v)"

definition refuse ::
  "'f proxy_env \<Rightarrow> bool \<Rightarrow> string \<Rightarrow> string \<Rightarrow> string \<Rightarrow> go_error option \<Rightarrow> 'f session \<Rightarrow> 'f session" where
  "refuse env delivered message code logged e s =
     (err logged e (writeError (envCodec env) delivered ''FATAL'' message code s))\<lparr>svc := SvcCloseL\<rparr>"

definition chooseHandler ::
  "'f stateful_handler option \<Rightarrow> 'f ContextHandler option \<Rightarrow> ConnInfo \<Rightarrow> 'f stateful_handler option" where
  "chooseHandler handler ctx info =
     (case ctx of None \<Rightarrow> handler | Some ctxHandler \<Rightarrow> Some (\<lambda>f query. ctxHandler f info query))"

definition connInfoOf :: "'f session \<Rightarrow> (string \<rightharpoonup> string) \<Rightarrow> ConnInfo" where
  "connInfoOf s ps =
     \<lparr>ConnID = connID s, User = param ps ''user'', Database = param ps ''database'',
      RemoteAddr = remoteAddr s\<rparr>"

definition serviceStartup ::
  "'f proxy_env \<Rightarrow> backend_io \<Rightarrow> bool \<Rightarrow> uint32 \<Rightarrow> (string \<rightharpoonup> string) \<Rightarrow> 'f pstate \<Rightarrow> 'f pstate" where
  "serviceStartup env io delivered version ps = (\<lambda>(sh, s).
     let dbName = param ps ''database''; user = param ps ''user'' in
     case checkDatabase (acl s) dbName of
       Some e \<Rightarrow>
         (sh, refuse env delivered ''database not permitted'' ''42501''
                (''Rejected by ACL: '' @ Error (envQuote env) e) None s)
     | None \<Rightarrow>
       (case checkUser (acl s) user of
          Some e \<Rightarrow>
            (sh, refuse env delivered ''user not permitted'' ''42501''
                   (''Rejected by ACL: '' @ Error (envQuote env) e) None s)
        | None \<Rightarrow>
          (case envDBs env dbName of
             None \<Rightarrow>
               (sh, refuse env delivered (''database not found in proxy config: '' @ dbName) ''3D000''
                      (''Database not configured: '' @ dbName) None s)
           | Some dbConf \<Rightarrow>
               (case connectBackend (envCodec env) (envTLS env) io dbConf version ps of
                  (acts, Inl e, target) \<Rightarrow>
                    (sh\<lparr>metrics := addBackendConnectErrors (metrics sh) 1\<rparr>,
                     refuse env delivered (''backend connection failed: '' @ Error (envQuote env) e) ''08006''
                       ''Remote connection failed'' (Some e) (s\<lparr>netActs := netActs s @ acts\<rparr>))
                | (acts, Inr rc, target) \<Rightarrow>
                    (sh,
                     s\<lparr>netActs := netActs s @ acts,
                       rconn := Some rc,
                       authTypeCh := [],
                       backendTgt := target,
                       effectiveHandler := chooseHandler (envHandler env) (contextHandler s) (connInfoOf s ps),
                       backendAuthType := AuthTypeOk,
                       inc := IncDrain,
                       rsp := RspRecv,
                       svc := SvcPipe\<rparr>)))))"

text \<open>After \<open>errsig\<close>: the key this session registered is deleted, then the connections are closed.\<close>

definition serviceCleanup :: "'f pstate \<Rightarrow> 'f pstate" where
  "serviceCleanup = (\<lambda>(sh, s).
     (case registeredKey s of
        None \<Rightarrow> sh
      | Some key \<Rightarrow> sh\<lparr>cancelRegistry := (cancelRegistry sh)(key := None)\<rparr>,
      s\<lparr>svc := SvcCloseR\<rparr>))"

section \<open>From the client to the backend\<close>

definition runHandler :: "handler option \<Rightarrow> string \<Rightarrow> string result" where
  "runHandler handler query =
     (case handler of
        None \<Rightarrow> Inr query
      | Some h \<Rightarrow>
          (case h query of
             Inl e \<Rightarrow> Inl (Errorf [Lit ''handler error: '', Wrap e])
           | Inr None \<Rightarrow> Inr query
           | Inr (Some out) \<Rightarrow> Inr out))"

definition applyFrontendHandler :: "codec \<Rightarrow> frontend_msg \<Rightarrow> handler option \<Rightarrow> string result" where
  "applyFrontendHandler cd msg handler =
     (case msg of
        Query q \<Rightarrow>
          (case runHandler handler q of
             Inl e \<Rightarrow> Inl e
           | Inr text \<Rightarrow> Inr (encodeMsg cd (FrontendM (Query text))))
      | Parse name q oids \<Rightarrow>
          (case runHandler handler q of
             Inl e \<Rightarrow> Inl e
           | Inr text \<Rightarrow> Inr (encodeMsg cd (FrontendM (Parse name text oids))))
      | _ \<Rightarrow> Inr (encodeMsg cd (FrontendM msg)))"

text \<open>One turn of the draining loop.\<close>

definition incDrain :: "'f session \<Rightarrow> 'f session" where
  "incDrain s =
     (case authTypeCh s of
        [] \<Rightarrow> s\<lparr>inc := IncRecv\<rparr>
      | at # rest \<Rightarrow> s\<lparr>authTypeCh := rest, backendAuthType := at\<rparr>)"

definition isTimeout :: "go_error \<Rightarrow> bool" where
  "isTimeout e = (case e of NetTimeout t \<Rightarrow> True | _ \<Rightarrow> False)"

text \<open>
  \<open>Receive\<close>: a network error, or a frame, decoded under the authentication type set last.
\<close>

definition incRecv :: "'f proxy_env \<Rightarrow> string result \<Rightarrow> 'f session \<Rightarrow> 'f session" where
  "incRecv env frame s =
     (case (case frame of Inl e \<Rightarrow> Inl e | Inr b \<Rightarrow> DecodeFrontend (envCodec env) (backendAuthType s) b) of
        Inr msg \<Rightarrow> s\<lparr>inc := IncApply msg, gotClient := gotClient s @ [msg]\<rparr>
      | Inl e \<Rightarrow>
          (if e = EOF then err ''Client closed connection'' (Some e) s
           else if isTimeout e \<and> 0 < sint (idleTimeout s)
             then err (''Client idle for longer than '' @ envDuration env (idleTimeout s)) None s
           else err ''Read from client failed'' (Some e) s)\<lparr>inc := IncDone\<rparr>)"

definition incApply :: "'f proxy_env \<Rightarrow> frontend_msg \<Rightarrow> 'f pstate \<Rightarrow> 'f pstate" where
  "incApply env msg = (\<lambda>(sh, s).
     let out = applyFrontendHandler (envCodec env) msg
                 (map_option (\<lambda>h. h (handlerState sh)) (effectiveHandler s));
         s' = s\<lparr>checks := checks s @ [(handlerState sh, msg, out)]\<rparr> in
     case out of
       Inl herr \<Rightarrow>
         (sh\<lparr>metrics := addBlockedQueries (metrics sh) 1\<rparr>, s'\<lparr>inc := IncBlocked msg herr\<rparr>)
     | Inr b \<Rightarrow> (sh, s'\<lparr>inc := IncWrite msg b\<rparr>))"

definition incBlocked :: "'f proxy_env \<Rightarrow> bool \<Rightarrow> frontend_msg \<Rightarrow> go_error \<Rightarrow> 'f session \<Rightarrow> 'f session" where
  "incBlocked env delivered msg herr s =
     (writeError (envCodec env) delivered ''ERROR'' (Error (envQuote env) herr) ''42501'' s)
       \<lparr>inc := (case msg of Query q \<Rightarrow> IncLoadTx | _ \<Rightarrow> IncDrain)\<rparr>"

text \<open>\<open>byte(p.lastTxStatus.Load())\<close> and \<open>uint32(m.TxStatus)\<close>.\<close>

definition txByte :: "uint32 \<Rightarrow> char" where
  "txByte w = char_of (unat w)"

definition txWord :: "char \<Rightarrow> uint32" where
  "txWord c = of_nat (of_char c)"

definition incLoadTx :: "'f session \<Rightarrow> 'f session" where
  "incLoadTx s = s\<lparr>inc := IncReady (txByte (lastTxStatus s))\<rparr>"

definition incReady :: "'f proxy_env \<Rightarrow> bool \<Rightarrow> char \<Rightarrow> 'f session \<Rightarrow> 'f session" where
  "incReady env delivered txStatus s =
     (if delivered
      then s\<lparr>toClient := toClient s @ [Local (encodeMsg (envCodec env) (BackendM (ReadyForQuery txStatus)))]\<rparr>
      else s)\<lparr>inc := IncDrain\<rparr>"

definition incWrite :: "go_error option \<Rightarrow> frontend_msg \<Rightarrow> string \<Rightarrow> 'f session \<Rightarrow> 'f session" where
  "incWrite werr msg out s =
     (case werr of
        Some e \<Rightarrow> (err ''Write to backend failed'' (Some e) s)\<lparr>inc := IncDone\<rparr>
      | None \<Rightarrow>
          s\<lparr>toBackend := toBackend s @ [out],
            inc := (case msg of Terminate \<Rightarrow> IncDone | _ \<Rightarrow> IncDrain)\<rparr>)"

section \<open>From the backend to the client\<close>

definition rspRecv :: "'f proxy_env \<Rightarrow> string result \<Rightarrow> 'f session \<Rightarrow> 'f session" where
  "rspRecv env frame s =
     (case (case frame of Inl e \<Rightarrow> Inl e | Inr b \<Rightarrow> DecodeBackend (envCodec env) b) of
        Inr msg \<Rightarrow> s\<lparr>rsp := RspSwitch msg, gotBackend := gotBackend s @ [msg]\<rparr>
      | Inl e \<Rightarrow>
          (if e = EOF then err ''Backend closed connection'' (Some e) s
           else err ''Read from backend failed'' (Some e) s)\<lparr>rsp := RspDone\<rparr>)"

definition authTypeOf :: "backend_msg \<Rightarrow> AuthType option" where
  "authTypeOf msg =
     (case msg of
        AuthenticationCleartextPassword \<Rightarrow> Some AuthTypeCleartextPassword
      | AuthenticationMD5Password salt \<Rightarrow> Some AuthTypeMD5Password
      | AuthenticationSASL ms \<Rightarrow> Some AuthTypeSASL
      | AuthenticationSASLContinue d \<Rightarrow> Some AuthTypeSASLContinue
      | AuthenticationSASLFinal d \<Rightarrow> Some AuthTypeSASLFinal
      | AuthenticationGSS \<Rightarrow> Some AuthTypeGSS
      | AuthenticationGSSContinue d \<Rightarrow> Some AuthTypeGSSCont
      | _ \<Rightarrow> None)"

text \<open>The capacity of \<open>authTypeCh\<close>; a send to a full channel waits, here \<open>None\<close>.\<close>

definition authCap :: nat where
  "authCap = 4"

definition rspSwitch :: "backend_msg \<Rightarrow> 'f pstate \<Rightarrow> 'f pstate option" where
  "rspSwitch msg = (\<lambda>(sh, s).
     case authTypeOf msg of
       Some at \<Rightarrow>
         (if length (authTypeCh s) < authCap
          then Some (sh, s\<lparr>authTypeCh := authTypeCh s @ [at], rsp := RspWrite msg\<rparr>)
          else None)
     | None \<Rightarrow>
         (case msg of
            BackendKeyData processID sec \<Rightarrow>
              (case array4 sec of
                 None \<Rightarrow> Some (sh\<lparr>panicked := True\<rparr>, s)
               | Some sec4 \<Rightarrow>
                   let key = \<lparr>pid = processID, secret = sec4\<rparr> in
                   Some (sh\<lparr>cancelRegistry :=
                              (cancelRegistry sh)(key \<mapsto> \<lparr>sessTarget = backendTgt s, secretKey = sec4\<rparr>)\<rparr>,
                         s\<lparr>rsp := RspKey key msg\<rparr>))
          | ReadyForQuery txStatus \<Rightarrow>
              Some (sh, s\<lparr>lastTxStatus := txWord txStatus, rsp := RspWrite msg\<rparr>)
          | _ \<Rightarrow> Some (sh, s\<lparr>rsp := RspWrite msg\<rparr>)))"

definition rspKey :: "cancelKey \<Rightarrow> backend_msg \<Rightarrow> 'f session \<Rightarrow> 'f session" where
  "rspKey key msg s = s\<lparr>registeredKey := Some key, rsp := RspWrite msg\<rparr>"

definition rspWrite :: "'f proxy_env \<Rightarrow> go_error option \<Rightarrow> backend_msg \<Rightarrow> 'f session \<Rightarrow> 'f session" where
  "rspWrite env werr msg s =
     (case werr of
        Some e \<Rightarrow> (err ''Write to client failed'' (Some e) s)\<lparr>rsp := RspDone\<rparr>
      | None \<Rightarrow>
          s\<lparr>toClient := toClient s @ [Relay (encodeMsg (envCodec env) (BackendM msg))], rsp := RspRecv\<rparr>)"

section \<open>Steps\<close>

text \<open>
  One step of one goroutine of the session; nothing runs after a panic. The arguments a rule leaves
  free are the outcome of the network call.
\<close>

inductive session_step :: "'f proxy_env \<Rightarrow> 'f pstate \<Rightarrow> 'f pstate \<Rightarrow> bool" for env where
  svc_read: "\<lbrakk>\<not> panicked sh; svc s = SvcRead; serviceRead rounds s = Some s'\<rbrakk>
    \<Longrightarrow> session_step env (sh, s) (sh, s')"
| svc_startup: "\<lbrakk>\<not> panicked sh; svc s = SvcGot (StartupMessage version ps); delivered \<Longrightarrow> \<not> lclosed s\<rbrakk>
    \<Longrightarrow> session_step env (sh, s) (serviceStartup env io delivered version ps (sh, s))"
| svc_cancel: "\<lbrakk>\<not> panicked sh; svc s = SvcGot (CancelRequest processID sec);
      forwardCancelRequest (envCodec env) (cancelRegistry sh) dial werr processID sec = Some acts\<rbrakk>
    \<Longrightarrow> session_step env (sh, s) (sh, s\<lparr>netActs := netActs s @ acts, svc := SvcCloseL\<rparr>)"
| svc_cancel_panic: "\<lbrakk>\<not> panicked sh; svc s = SvcGot (CancelRequest processID sec);
      forwardCancelRequest (envCodec env) (cancelRegistry sh) dial werr processID sec = None\<rbrakk>
    \<Longrightarrow> session_step env (sh, s) (sh\<lparr>panicked := True\<rparr>, s)"
| svc_other: "\<lbrakk>\<not> panicked sh; svc s = SvcGot msg; \<forall>v ps. msg \<noteq> StartupMessage v ps; \<forall>p k. msg \<noteq> CancelRequest p k\<rbrakk>
    \<Longrightarrow> session_step env (sh, s)
          (sh, (err ''Unsupported startup message'' (Some (ErrorString (typeName msg))) s)\<lparr>svc := SvcCloseL\<rparr>)"
| svc_wake: "\<lbrakk>\<not> panicked sh; svc s = SvcPipe; errsig s\<rbrakk>
    \<Longrightarrow> session_step env (sh, s) (serviceCleanup (sh, s))"
| svc_closeR: "\<lbrakk>\<not> panicked sh; svc s = SvcCloseR\<rbrakk>
    \<Longrightarrow> session_step env (sh, s) (sh, s\<lparr>rclosed := True, svc := SvcCloseL\<rparr>)"
| svc_closeL: "\<lbrakk>\<not> panicked sh; svc s = SvcCloseL\<rbrakk>
    \<Longrightarrow> session_step env (sh, s) (sh, s\<lparr>lclosed := True, svc := SvcDone\<rparr>)"
| inc_drain: "\<lbrakk>\<not> panicked sh; inc s = IncDrain\<rbrakk> \<Longrightarrow> session_step env (sh, s) (sh, incDrain s)"
| inc_recv: "\<lbrakk>\<not> panicked sh; inc s = IncRecv\<rbrakk> \<Longrightarrow> session_step env (sh, s) (sh, incRecv env frame s)"
| inc_apply: "\<lbrakk>\<not> panicked sh; inc s = IncApply fmsg\<rbrakk> \<Longrightarrow> session_step env (sh, s) (incApply env fmsg (sh, s))"
| inc_blocked: "\<lbrakk>\<not> panicked sh; inc s = IncBlocked fmsg herr; delivered \<Longrightarrow> \<not> lclosed s\<rbrakk>
    \<Longrightarrow> session_step env (sh, s) (sh, incBlocked env delivered fmsg herr s)"
| inc_load: "\<lbrakk>\<not> panicked sh; inc s = IncLoadTx\<rbrakk> \<Longrightarrow> session_step env (sh, s) (sh, incLoadTx s)"
| inc_ready: "\<lbrakk>\<not> panicked sh; inc s = IncReady c; delivered \<Longrightarrow> \<not> lclosed s\<rbrakk>
    \<Longrightarrow> session_step env (sh, s) (sh, incReady env delivered c s)"
| inc_write: "\<lbrakk>\<not> panicked sh; inc s = IncWrite fmsg b; werr = None \<Longrightarrow> \<not> rclosed s\<rbrakk>
    \<Longrightarrow> session_step env (sh, s) (sh, incWrite werr fmsg b s)"
| rsp_recv: "\<lbrakk>\<not> panicked sh; rsp s = RspRecv\<rbrakk> \<Longrightarrow> session_step env (sh, s) (sh, rspRecv env frame s)"
| rsp_switch: "\<lbrakk>\<not> panicked sh; rsp s = RspSwitch bmsg; rspSwitch bmsg (sh, s) = Some (sh', s')\<rbrakk>
    \<Longrightarrow> session_step env (sh, s) (sh', s')"
| rsp_key: "\<lbrakk>\<not> panicked sh; rsp s = RspKey key bmsg\<rbrakk> \<Longrightarrow> session_step env (sh, s) (sh, rspKey key bmsg s)"
| rsp_write: "\<lbrakk>\<not> panicked sh; rsp s = RspWrite bmsg; werr = None \<Longrightarrow> \<not> lclosed s\<rbrakk>
    \<Longrightarrow> session_step env (sh, s) (sh, rspWrite env werr bmsg s)"

text \<open>A session as \<open>Start\<close> creates it.\<close>

definition newSession ::
  "net_conn \<Rightarrow> 64 word \<Rightarrow> string \<Rightarrow> tls_config option \<Rightarrow> compiledACL option \<Rightarrow> 'f ContextHandler option \<Rightarrow>
     Duration \<Rightarrow> 'f session" where
  "newSession conn cid raddr tls a ctx idle =
     \<lparr>lconn = conn, rconn = None, errsig = False, errLog = [], connID = cid, remoteAddr = raddr,
      lastTxStatus = txWord (CHR ''I''), registeredKey = None, tlsConfig = tls, acl = a,
      contextHandler = ctx, idleTimeout = idle, svc = SvcRead, inc = IncOff, rsp = RspOff,
      effectiveHandler = None, backendTgt = \<lparr>network = [], addr = []\<rparr>, authTypeCh = [],
      backendAuthType = AuthTypeOk, lclosed = False, rclosed = False, netActs = [], toBackend = [],
      toClient = [], gotStartup = None, gotClient = [], checks = [], gotBackend = []\<rparr>"

text \<open>
  The states a session reaches while other goroutines of the process change the shared state
  between its steps; the handler state then stays within \<open>S\<close>, the states the handler can have. A
  shutdown may close the client's connection at any time.
\<close>

inductive session_reach ::
  "'f proxy_env \<Rightarrow> 'f set \<Rightarrow> 'f session \<Rightarrow> 'f pstate \<Rightarrow> bool" for env S s0 where
  start: "handlerState sh \<in> S \<Longrightarrow> session_reach env S s0 (sh, s0)"
| step: "session_reach env S s0 st \<Longrightarrow> session_step env st st' \<Longrightarrow> session_reach env S s0 st'"
| other: "session_reach env S s0 (sh, s) \<Longrightarrow> handlerState sh' \<in> S \<Longrightarrow> session_reach env S s0 (sh', s)"
| forced: "session_reach env S s0 (sh, s) \<Longrightarrow> session_reach env S s0 (sh, s\<lparr>lclosed := True\<rparr>)"

end
