(* ===== verification/Session_Safety.thy ===== *)
theory Session_Safety
  imports Session
begin

text \<open>
  Invariants of a session under every interleaving of its goroutines and every change of the shared
  state by others. The locale \<open>session_invariant\<close> turns preservation by one step into a fact about
  all reachable states; it is interpreted at the end of the theory for the conjunction
  \<open>sessionInv\<close> of the invariants:

  \<^item> \<open>checkInv\<close>: every message was checked with the handler of the session in one of its states;
  \<^item> \<open>sentInv\<close>: the backend gets the messages that passed, in the order they came;
  \<^item> \<open>relayInv\<close>: the client gets the backend's messages, in the order they came;
  \<^item> \<open>txInv\<close>: \<open>lastTxStatus\<close> is the status of the backend's last ReadyForQuery;
  \<^item> \<open>onceInv\<close>, \<open>endInv\<close>: one error is recorded, and a relay ends by an error or a Terminate;
  \<^item> \<open>chanInv\<close>: the capacity of the channel between the relays is kept;
  \<^item> \<open>authInv\<close>: a backend connection exists only when the session's startup message named an
    admitted user and database.

  The rules \<open>step_rsp_cases\<close> and \<open>step_inc_cases\<close> reduce a step to the view of one relay.
\<close>

section \<open>Invariants of a session\<close>

locale session_invariant =
  fixes env :: "'f proxy_env" and S :: "'f set" and s0 :: "'f session" and P :: "'f session \<Rightarrow> bool"
  assumes holds_start: "P s0"
    and holds_step: "session_step env (sh, s) (sh', s') \<Longrightarrow> handlerState sh \<in> S \<Longrightarrow> P s \<Longrightarrow> P s'"
    and holds_forced: "P s \<Longrightarrow> P (s\<lparr>lclosed := True\<rparr>)"
begin

lemma reach_handlerState: "session_reach env S s0 st \<Longrightarrow> handlerState (fst st) \<in> S"
proof (induction rule: session_reach.induct)
  case (step st st')
  from step.hyps(2) have "handlerState (fst st') = handlerState (fst st)"
    by (cases rule: session_step.cases)
       (auto simp: serviceStartup_def serviceCleanup_def incApply_def rspSwitch_def Let_def
         split: option.splits sum.splits prod.splits backend_msg.splits if_splits)
  with step.IH show ?case by simp
qed simp_all

lemma reach_holds: "session_reach env S s0 st \<Longrightarrow> P (snd st)"
proof (induction rule: session_reach.induct)
  case (step st st')
  then show ?case
    using holds_step [of "fst st" "snd st" "fst st'" "snd st'"] reach_handlerState [OF step.hyps(1)] by simp
qed (simp_all add: holds_start holds_forced)

end

text \<open>What the error helpers leave alone.\<close>

lemma err_frames [simp]:
  "lconn (err msg e s) = lconn s" "rconn (err msg e s) = rconn s"
  "connID (err msg e s) = connID s" "remoteAddr (err msg e s) = remoteAddr s"
  "lastTxStatus (err msg e s) = lastTxStatus s" "registeredKey (err msg e s) = registeredKey s"
  "tlsConfig (err msg e s) = tlsConfig s" "acl (err msg e s) = acl s"
  "contextHandler (err msg e s) = contextHandler s" "idleTimeout (err msg e s) = idleTimeout s"
  "inc (err msg e s) = inc s" "rsp (err msg e s) = rsp s"
  "effectiveHandler (err msg e s) = effectiveHandler s" "backendTgt (err msg e s) = backendTgt s"
  "authTypeCh (err msg e s) = authTypeCh s" "backendAuthType (err msg e s) = backendAuthType s"
  "lclosed (err msg e s) = lclosed s" "rclosed (err msg e s) = rclosed s"
  "netActs (err msg e s) = netActs s" "toBackend (err msg e s) = toBackend s"
  "gotStartup (err msg e s) = gotStartup s" "gotClient (err msg e s) = gotClient s" "checks (err msg e s) = checks s"
  "gotBackend (err msg e s) = gotBackend s" "svc (err msg e s) = svc s"
  "toClient (err msg e s) = toClient s"
  by (simp_all add: err_def)

lemma writeError_frames [simp]:
  "lconn (writeError cd d sev m c s) = lconn s" "rconn (writeError cd d sev m c s) = rconn s"
  "connID (writeError cd d sev m c s) = connID s"
  "remoteAddr (writeError cd d sev m c s) = remoteAddr s"
  "lastTxStatus (writeError cd d sev m c s) = lastTxStatus s"
  "registeredKey (writeError cd d sev m c s) = registeredKey s"
  "tlsConfig (writeError cd d sev m c s) = tlsConfig s" "acl (writeError cd d sev m c s) = acl s"
  "contextHandler (writeError cd d sev m c s) = contextHandler s"
  "idleTimeout (writeError cd d sev m c s) = idleTimeout s"
  "inc (writeError cd d sev m c s) = inc s" "rsp (writeError cd d sev m c s) = rsp s"
  "effectiveHandler (writeError cd d sev m c s) = effectiveHandler s"
  "backendTgt (writeError cd d sev m c s) = backendTgt s"
  "authTypeCh (writeError cd d sev m c s) = authTypeCh s"
  "backendAuthType (writeError cd d sev m c s) = backendAuthType s"
  "lclosed (writeError cd d sev m c s) = lclosed s"
  "rclosed (writeError cd d sev m c s) = rclosed s"
  "netActs (writeError cd d sev m c s) = netActs s"
  "toBackend (writeError cd d sev m c s) = toBackend s"
  "gotStartup (writeError cd d sev m c s) = gotStartup s"
  "gotClient (writeError cd d sev m c s) = gotClient s"
  "checks (writeError cd d sev m c s) = checks s"
  "gotBackend (writeError cd d sev m c s) = gotBackend s"
  "svc (writeError cd d sev m c s) = svc s" "errsig (writeError cd d sev m c s) = errsig s"
  "errLog (writeError cd d sev m c s) = errLog s"
  by (simp_all add: writeError_def)

lemma refuse_frames [simp]:
  "lconn (refuse env d m c l e s) = lconn s" "rconn (refuse env d m c l e s) = rconn s"
  "connID (refuse env d m c l e s) = connID s"
  "remoteAddr (refuse env d m c l e s) = remoteAddr s"
  "lastTxStatus (refuse env d m c l e s) = lastTxStatus s"
  "registeredKey (refuse env d m c l e s) = registeredKey s"
  "tlsConfig (refuse env d m c l e s) = tlsConfig s" "acl (refuse env d m c l e s) = acl s"
  "contextHandler (refuse env d m c l e s) = contextHandler s"
  "idleTimeout (refuse env d m c l e s) = idleTimeout s" "inc (refuse env d m c l e s) = inc s"
  "rsp (refuse env d m c l e s) = rsp s"
  "effectiveHandler (refuse env d m c l e s) = effectiveHandler s"
  "backendTgt (refuse env d m c l e s) = backendTgt s"
  "authTypeCh (refuse env d m c l e s) = authTypeCh s"
  "backendAuthType (refuse env d m c l e s) = backendAuthType s"
  "lclosed (refuse env d m c l e s) = lclosed s" "rclosed (refuse env d m c l e s) = rclosed s"
  "netActs (refuse env d m c l e s) = netActs s"
  "toBackend (refuse env d m c l e s) = toBackend s"
  "gotStartup (refuse env d m c l e s) = gotStartup s"
  "gotClient (refuse env d m c l e s) = gotClient s" "checks (refuse env d m c l e s) = checks s"
  "gotBackend (refuse env d m c l e s) = gotBackend s"
  by (simp_all add: refuse_def)

lemma err_errsig [simp]: "errsig (err msg e s)"
  by (simp add: err_def)

lemma refuse_svc [simp]: "svc (refuse env d m c l e s) = SvcCloseL" "errsig (refuse env d m c l e s)"
  by (simp_all add: refuse_def)

definition relays :: "client_write list \<Rightarrow> string list" where
  "relays ws = concat (map (\<lambda>w. case w of Relay b \<Rightarrow> [b] | Local b \<Rightarrow> []) ws)"

lemma relays_simps [simp]:
  "relays [] = []" "relays (ws @ vs) = relays ws @ relays vs" "relays [Relay b] = [b]" "relays [Local b] = []"
  by (simp_all add: relays_def)

lemma relays_errors [simp]:
  "relays (toClient (writeError cd d sev m c s)) = relays (toClient s)"
  "relays (toClient (refuse env d m c l e s)) = relays (toClient s)"
  by (simp_all add: writeError_def refuse_def)

text \<open>The steps of one relay leave the fields of the other alone.\<close>

lemmas session_splits = option.splits sum.splits prod.splits backend_msg.splits frontend_msg.splits
  list.splits if_splits

lemma incDrain_frames [simp]:
  "rsp (incDrain s) = rsp s" "gotBackend (incDrain s) = gotBackend s"
  "lastTxStatus (incDrain s) = lastTxStatus s" "registeredKey (incDrain s) = registeredKey s"
  "svc (incDrain s) = svc s" "contextHandler (incDrain s) = contextHandler s"
  "effectiveHandler (incDrain s) = effectiveHandler s" "acl (incDrain s) = acl s"
  "rclosed (incDrain s) = rclosed s" "backendTgt (incDrain s) = backendTgt s"
  "relays (toClient (incDrain s)) = relays (toClient s)"
  by (auto simp: incDrain_def Let_def split: option.split sum.split list.split)

lemma incRecv_frames [simp]:
  "rsp (incRecv env fr s) = rsp s" "gotBackend (incRecv env fr s) = gotBackend s"
  "lastTxStatus (incRecv env fr s) = lastTxStatus s"
  "registeredKey (incRecv env fr s) = registeredKey s" "svc (incRecv env fr s) = svc s"
  "contextHandler (incRecv env fr s) = contextHandler s"
  "effectiveHandler (incRecv env fr s) = effectiveHandler s" "acl (incRecv env fr s) = acl s"
  "rclosed (incRecv env fr s) = rclosed s" "backendTgt (incRecv env fr s) = backendTgt s"
  "relays (toClient (incRecv env fr s)) = relays (toClient s)"
  by (auto simp: incRecv_def Let_def split: option.split sum.split list.split)

lemma incBlocked_frames [simp]:
  "rsp (incBlocked env d m e s) = rsp s" "gotBackend (incBlocked env d m e s) = gotBackend s"
  "lastTxStatus (incBlocked env d m e s) = lastTxStatus s"
  "registeredKey (incBlocked env d m e s) = registeredKey s"
  "svc (incBlocked env d m e s) = svc s"
  "contextHandler (incBlocked env d m e s) = contextHandler s"
  "effectiveHandler (incBlocked env d m e s) = effectiveHandler s"
  "acl (incBlocked env d m e s) = acl s" "rclosed (incBlocked env d m e s) = rclosed s"
  "backendTgt (incBlocked env d m e s) = backendTgt s"
  "relays (toClient (incBlocked env d m e s)) = relays (toClient s)"
  by (auto simp: incBlocked_def Let_def split: option.split sum.split list.split)

lemma incLoadTx_frames [simp]:
  "rsp (incLoadTx s) = rsp s" "gotBackend (incLoadTx s) = gotBackend s"
  "lastTxStatus (incLoadTx s) = lastTxStatus s" "registeredKey (incLoadTx s) = registeredKey s"
  "svc (incLoadTx s) = svc s" "contextHandler (incLoadTx s) = contextHandler s"
  "effectiveHandler (incLoadTx s) = effectiveHandler s" "acl (incLoadTx s) = acl s"
  "rclosed (incLoadTx s) = rclosed s" "backendTgt (incLoadTx s) = backendTgt s"
  "relays (toClient (incLoadTx s)) = relays (toClient s)"
  by (auto simp: incLoadTx_def Let_def split: option.split sum.split list.split)

lemma incReady_frames [simp]:
  "rsp (incReady env d c s) = rsp s" "gotBackend (incReady env d c s) = gotBackend s"
  "lastTxStatus (incReady env d c s) = lastTxStatus s"
  "registeredKey (incReady env d c s) = registeredKey s" "svc (incReady env d c s) = svc s"
  "contextHandler (incReady env d c s) = contextHandler s"
  "effectiveHandler (incReady env d c s) = effectiveHandler s" "acl (incReady env d c s) = acl s"
  "rclosed (incReady env d c s) = rclosed s" "backendTgt (incReady env d c s) = backendTgt s"
  "relays (toClient (incReady env d c s)) = relays (toClient s)"
  by (auto simp: incReady_def Let_def split: option.split sum.split list.split)

lemma incWrite_frames [simp]:
  "rsp (incWrite w m b s) = rsp s" "gotBackend (incWrite w m b s) = gotBackend s"
  "lastTxStatus (incWrite w m b s) = lastTxStatus s"
  "registeredKey (incWrite w m b s) = registeredKey s" "svc (incWrite w m b s) = svc s"
  "contextHandler (incWrite w m b s) = contextHandler s"
  "effectiveHandler (incWrite w m b s) = effectiveHandler s" "acl (incWrite w m b s) = acl s"
  "rclosed (incWrite w m b s) = rclosed s" "backendTgt (incWrite w m b s) = backendTgt s"
  "relays (toClient (incWrite w m b s)) = relays (toClient s)"
  by (auto simp: incWrite_def Let_def split: option.split sum.split list.split)

lemma incApply_frames [simp]:
  "rsp (snd (incApply env m (sh, s))) = rsp s"
  "gotBackend (snd (incApply env m (sh, s))) = gotBackend s"
  "lastTxStatus (snd (incApply env m (sh, s))) = lastTxStatus s"
  "registeredKey (snd (incApply env m (sh, s))) = registeredKey s"
  "svc (snd (incApply env m (sh, s))) = svc s"
  "contextHandler (snd (incApply env m (sh, s))) = contextHandler s"
  "effectiveHandler (snd (incApply env m (sh, s))) = effectiveHandler s"
  "acl (snd (incApply env m (sh, s))) = acl s"
  "rclosed (snd (incApply env m (sh, s))) = rclosed s"
  "backendTgt (snd (incApply env m (sh, s))) = backendTgt s"
  "relays (toClient (snd (incApply env m (sh, s)))) = relays (toClient s)"
  by (auto simp: incApply_def Let_def split: option.split sum.split list.split)

lemma rspRecv_frames [simp]:
  "inc (rspRecv env fr s) = inc s" "gotClient (rspRecv env fr s) = gotClient s"
  "checks (rspRecv env fr s) = checks s" "toBackend (rspRecv env fr s) = toBackend s"
  "backendAuthType (rspRecv env fr s) = backendAuthType s"
  "effectiveHandler (rspRecv env fr s) = effectiveHandler s"
  "contextHandler (rspRecv env fr s) = contextHandler s" "svc (rspRecv env fr s) = svc s"
  "acl (rspRecv env fr s) = acl s" "rclosed (rspRecv env fr s) = rclosed s"
  "backendTgt (rspRecv env fr s) = backendTgt s"
  by (auto simp: rspRecv_def Let_def split: option.split sum.split)

lemma rspKey_frames [simp]:
  "inc (rspKey k m s) = inc s" "gotClient (rspKey k m s) = gotClient s"
  "checks (rspKey k m s) = checks s" "toBackend (rspKey k m s) = toBackend s"
  "backendAuthType (rspKey k m s) = backendAuthType s"
  "effectiveHandler (rspKey k m s) = effectiveHandler s"
  "contextHandler (rspKey k m s) = contextHandler s" "svc (rspKey k m s) = svc s"
  "acl (rspKey k m s) = acl s" "rclosed (rspKey k m s) = rclosed s"
  "backendTgt (rspKey k m s) = backendTgt s"
  by (auto simp: rspKey_def Let_def split: option.split sum.split)

lemma rspWrite_frames [simp]:
  "inc (rspWrite env w m s) = inc s" "gotClient (rspWrite env w m s) = gotClient s"
  "checks (rspWrite env w m s) = checks s" "toBackend (rspWrite env w m s) = toBackend s"
  "backendAuthType (rspWrite env w m s) = backendAuthType s"
  "effectiveHandler (rspWrite env w m s) = effectiveHandler s"
  "contextHandler (rspWrite env w m s) = contextHandler s" "svc (rspWrite env w m s) = svc s"
  "acl (rspWrite env w m s) = acl s" "rclosed (rspWrite env w m s) = rclosed s"
  "backendTgt (rspWrite env w m s) = backendTgt s"
  by (auto simp: rspWrite_def Let_def split: option.split sum.split)

lemma rspSwitch_frames:
  assumes "rspSwitch m (sh, s) = Some (sh', s')"
  shows "inc s' = inc s" "gotClient s' = gotClient s" "checks s' = checks s"
  "toBackend s' = toBackend s" "backendAuthType s' = backendAuthType s"
  "effectiveHandler s' = effectiveHandler s" "contextHandler s' = contextHandler s"
  "svc s' = svc s" "acl s' = acl s" "rclosed s' = rclosed s" "backendTgt s' = backendTgt s"
  using assms by (auto simp: rspSwitch_def Let_def split: option.splits backend_msg.splits if_splits)

lemma serviceRead_frames:
  assumes "serviceRead rounds s = Some s'"
  shows "rconn s' = rconn s" "connID s' = connID s" "remoteAddr s' = remoteAddr s"
  "lastTxStatus s' = lastTxStatus s" "registeredKey s' = registeredKey s"
  "contextHandler s' = contextHandler s" "inc s' = inc s" "rsp s' = rsp s"
  "effectiveHandler s' = effectiveHandler s" "backendTgt s' = backendTgt s"
  "authTypeCh s' = authTypeCh s" "backendAuthType s' = backendAuthType s"
  "rclosed s' = rclosed s" "toBackend s' = toBackend s" "toClient s' = toClient s"
  "gotClient s' = gotClient s" "checks s' = checks s" "gotBackend s' = gotBackend s"
  "acl s' = acl s"
  using assms by (auto simp: serviceRead_def Let_def split: option.splits sum.splits prod.splits)

lemma serviceCleanup_frames [simp]:
  "rconn (snd (serviceCleanup (sh, s))) = rconn s"
  "connID (snd (serviceCleanup (sh, s))) = connID s"
  "remoteAddr (snd (serviceCleanup (sh, s))) = remoteAddr s"
  "lastTxStatus (snd (serviceCleanup (sh, s))) = lastTxStatus s"
  "registeredKey (snd (serviceCleanup (sh, s))) = registeredKey s"
  "contextHandler (snd (serviceCleanup (sh, s))) = contextHandler s"
  "inc (snd (serviceCleanup (sh, s))) = inc s" "rsp (snd (serviceCleanup (sh, s))) = rsp s"
  "effectiveHandler (snd (serviceCleanup (sh, s))) = effectiveHandler s"
  "backendTgt (snd (serviceCleanup (sh, s))) = backendTgt s"
  "authTypeCh (snd (serviceCleanup (sh, s))) = authTypeCh s"
  "backendAuthType (snd (serviceCleanup (sh, s))) = backendAuthType s"
  "rclosed (snd (serviceCleanup (sh, s))) = rclosed s"
  "toBackend (snd (serviceCleanup (sh, s))) = toBackend s"
  "toClient (snd (serviceCleanup (sh, s))) = toClient s"
  "gotClient (snd (serviceCleanup (sh, s))) = gotClient s"
  "checks (snd (serviceCleanup (sh, s))) = checks s"
  "gotBackend (snd (serviceCleanup (sh, s))) = gotBackend s"
  "acl (snd (serviceCleanup (sh, s))) = acl s"
  by (auto simp: serviceCleanup_def)

text \<open>A startup is refused, or the relays are started.\<close>

lemma serviceStartup_cases:
  assumes start: "serviceStartup env io d version ps (sh, s) = (sh', s')"
  obtains (refused) acts m c l e where "s' = refuse env d m c l e (s\<lparr>netActs := netActs s @ acts\<rparr>)"
  | (piping) acts rc target where
      "s' = s\<lparr>netActs := netActs s @ acts, rconn := Some rc, authTypeCh := [], backendTgt := target,
         effectiveHandler := chooseHandler (envHandler env) (contextHandler s) (connInfoOf s ps),
         backendAuthType := AuthTypeOk, inc := IncDrain, rsp := RspRecv, svc := SvcPipe\<rparr>" "sh' = sh"
proof -
  have same: "s\<lparr>netActs := netActs s @ []\<rparr> = s" by simp
  show thesis
  proof (cases "checkDatabase (acl s) (param ps ''database'')")
    case None
    note db = this
    show thesis
    proof (cases "checkUser (acl s) (param ps ''user'')")
      case None
      note user = this
      show thesis
      proof (cases "envDBs env (param ps ''database'')")
        case None
        with start db user have "\<exists>m c l e. s' = refuse env d m c l e s"
          by (auto simp: serviceStartup_def Let_def)
        then show thesis using refused [where acts = "[]", unfolded same] by blast
      next
        case (Some dbConf)
        obtain acts r target where
          c: "connectBackend (envCodec env) (envTLS env) io dbConf version ps = (acts, r, target)"
          by (cases "connectBackend (envCodec env) (envTLS env) io dbConf version ps") auto
        show thesis
        proof (cases r)
          case (Inl e)
          with start db user Some c
          have "\<exists>m c l e. s' = refuse env d m c l e (s\<lparr>netActs := netActs s @ acts\<rparr>)"
            by (auto simp: serviceStartup_def Let_def)
          then show thesis using refused by blast
        next
          case (Inr rc)
          with start db user Some c show thesis
            by (intro piping [where acts = acts and rc = rc and target = target]) (simp_all add: serviceStartup_def Let_def)
        qed
      qed
    next
      case (Some e)
      with start db have "\<exists>m c l e. s' = refuse env d m c l e s"
        by (auto simp: serviceStartup_def Let_def)
      then show thesis using refused [where acts = "[]", unfolded same] by blast
    qed
  next
    case (Some e)
    with start have "\<exists>m c l e. s' = refuse env d m c l e s"
      by (auto simp: serviceStartup_def Let_def)
    then show thesis using refused [where acts = "[]", unfolded same] by blast
  qed
qed

lemmas session_op_defs = serviceRead_def serviceStartup_def serviceCleanup_def
  incDrain_def incRecv_def incApply_def incBlocked_def incLoadTx_def incReady_def incWrite_def
  rspRecv_def rspSwitch_def rspKey_def rspWrite_def Let_def

definition preparing :: "'f session \<Rightarrow> bool" where
  "preparing s = (case svc s of SvcRead \<Rightarrow> True | SvcGot m \<Rightarrow> True | _ \<Rightarrow> False)"

definition phaseInv :: "'f session \<Rightarrow> bool" where
  "phaseInv s = ((preparing s \<or> inc s = IncOff \<or> rsp s = RspOff) \<longrightarrow>
     inc s = IncOff \<and> rsp s = RspOff \<and> checks s = [] \<and> gotClient s = [] \<and> gotBackend s = [] \<and>
     toBackend s = [] \<and> registeredKey s = None)"

lemma phaseInv_step:
  assumes "session_step env (sh, s) (sh', s')" and "phaseInv s"
  shows "phaseInv s'"
  using assms
  by (cases rule: session_step.cases)
     (auto simp: session_op_defs phaseInv_def preparing_def
       split: option.splits sum.splits prod.splits backend_msg.splits frontend_msg.splits list.splits if_splits)


section \<open>Steps, seen from each relay\<close>

text \<open>
  What a step means for the fields of the response relay: they stay, the relay is started, or it is
  one of the relay's own steps. Likewise for the request relay.
\<close>

definition sameRsp :: "'f session \<Rightarrow> 'f session \<Rightarrow> bool" where
  "sameRsp s s' = (gotBackend s' = gotBackend s \<and> lastTxStatus s' = lastTxStatus s \<and>
     relays (toClient s') = relays (toClient s))"

lemma step_rsp_cases:
  assumes "session_step env (sh, s) (sh', s')" and "phaseInv s"
  obtains (same) "sameRsp s s'" "rsp s' = rsp s"
  | (started) "sameRsp s s'" "rsp s = RspOff" "rsp s' = RspRecv" "gotBackend s = []"
  | (recv) frame where "rsp s = RspRecv" "s' = rspRecv env frame s"
  | (switch) m where "rsp s = RspSwitch m" "rspSwitch m (sh, s) = Some (sh', s')"
  | (keyed) key m where "rsp s = RspKey key m" "s' = rspKey key m s"
  | (written) werr m where "rsp s = RspWrite m" "s' = rspWrite env werr m s"
  using assms(1)
proof (cases rule: session_step.cases)
  case (svc_startup version ps delivered io)
  then have "serviceStartup env io delivered version ps (sh, s) = (sh', s')" by simp
  then show thesis
  proof (cases rule: serviceStartup_cases)
    case refused
    then show thesis by (intro same) (auto simp: sameRsp_def)
  next
    case piping
    with svc_startup assms(2) show thesis
      by (intro started) (auto simp: sameRsp_def phaseInv_def preparing_def)
  qed
next
  case (svc_read rounds)
  then show thesis by (intro same) (simp_all add: sameRsp_def serviceRead_frames)
next
  case svc_wake
  then have "s' = snd (serviceCleanup (sh, s))" by (metis snd_conv)
  then show thesis by (intro same) (simp_all add: sameRsp_def)
next
  case (inc_apply m)
  then have "s' = snd (incApply env m (sh, s))" by (metis snd_conv)
  then show thesis by (intro same) (simp_all add: sameRsp_def)
next
  case (rsp_recv frame)
  then show thesis using recv by blast
next
  case (rsp_switch m)
  then show thesis using switch by blast
next
  case (rsp_key key m)
  then show thesis using keyed by blast
next
  case (rsp_write m werr)
  then show thesis using written by blast
qed (rule same; simp add: sameRsp_def)+

definition sameInc :: "'f session \<Rightarrow> 'f session \<Rightarrow> bool" where
  "sameInc s s' = (gotClient s' = gotClient s \<and> checks s' = checks s \<and> toBackend s' = toBackend s \<and>
     backendAuthType s' = backendAuthType s)"

lemma step_inc_cases:
  assumes "session_step env (sh, s) (sh', s')" and "phaseInv s"
  obtains (same) "sameInc s s'" "inc s' = inc s" "effectiveHandler s' = effectiveHandler s"
  | (started) info where "inc s = IncOff" "inc s' = IncDrain" "checks s' = []" "gotClient s' = []" "toBackend s' = []"
      "checks s = []" "effectiveHandler s' = chooseHandler (envHandler env) (contextHandler s) info"
  | (drain) "inc s = IncDrain" "s' = incDrain s"
  | (recv) frame where "inc s = IncRecv" "s' = incRecv env frame s"
  | (applied) m where "inc s = IncApply m" "(sh', s') = incApply env m (sh, s)"
  | (blocked) m herr delivered where "inc s = IncBlocked m herr" "s' = incBlocked env delivered m herr s"
  | (loaded) "inc s = IncLoadTx" "s' = incLoadTx s"
  | (ready) c delivered where "inc s = IncReady c" "s' = incReady env delivered c s"
  | (written) m b werr where "inc s = IncWrite m b" "s' = incWrite werr m b s"
  using assms(1)
proof (cases rule: session_step.cases)
  case (svc_startup version ps delivered io)
  then have "serviceStartup env io delivered version ps (sh, s) = (sh', s')" by simp
  then show thesis
  proof (cases rule: serviceStartup_cases)
    case refused
    then show thesis by (intro same) (auto simp: sameInc_def)
  next
    case piping
    with svc_startup assms(2) show thesis
      by (intro started) (auto simp: sameInc_def phaseInv_def preparing_def)
  qed
next
  case (svc_read rounds)
  then show thesis by (intro same) (simp_all add: sameInc_def serviceRead_frames)
next
  case svc_wake
  then have "s' = snd (serviceCleanup (sh, s))" by (metis snd_conv)
  then show thesis by (intro same) (simp_all add: sameInc_def)
next
  case (rsp_switch m)
  then show thesis by (intro same) (simp_all add: sameInc_def rspSwitch_frames)
next
  case inc_drain
  then show thesis using drain by blast
next
  case (inc_recv frame)
  then show thesis using recv by blast
next
  case (inc_apply m)
  then show thesis using applied by metis
next
  case (inc_blocked m herr delivered)
  then show thesis using blocked by blast
next
  case inc_load
  then show thesis using loaded by blast
next
  case (inc_ready c delivered)
  then show thesis using ready by blast
next
  case (inc_write m b werr)
  then show thesis using written by blast
qed (rule same; simp add: sameInc_def)+

section \<open>What was checked\<close>

text \<open>The handler a session uses for its queries, once it is connected.\<close>

definition sessionHandler :: "'f proxy_env \<Rightarrow> 'f session \<Rightarrow> ('f stateful_handler option) set" where
  "sessionHandler env s0 = {chooseHandler (envHandler env) (contextHandler s0) info | info. True}"

definition checkInv :: "'f proxy_env \<Rightarrow> 'f set \<Rightarrow> 'f session \<Rightarrow> 'f session \<Rightarrow> bool" where
  "checkInv env S s0 s =
     (phaseInv s \<and> contextHandler s = contextHandler s0 \<and>
      (inc s \<noteq> IncOff \<longrightarrow> effectiveHandler s \<in> sessionHandler env s0) \<and>
      list_all (\<lambda>(f, msg, out). f \<in> S \<and>
        out = applyFrontendHandler (envCodec env) msg (map_option (\<lambda>h. h f) (effectiveHandler s))) (checks s))"

lemma step_contextHandler: "session_step env (sh, s) (sh', s') \<Longrightarrow> contextHandler s' = contextHandler s"
  by (cases rule: session_step.cases, assumption) (auto simp: session_op_defs split: session_splits)

lemma checkInv_step:
  assumes "session_step env (sh, s) (sh', s')" and "handlerState sh \<in> S" and "checkInv env S s0 s"
  shows "checkInv env S s0 s'"
proof -
  have ph: "phaseInv s" "phaseInv s'" "contextHandler s' = contextHandler s"
    using assms phaseInv_step [OF assms(1)] step_contextHandler [OF assms(1)] by (auto simp: checkInv_def)
  from assms(1) ph(1) show ?thesis
    by (cases rule: step_inc_cases; insert assms(2,3) ph)
       (auto simp: session_op_defs checkInv_def sameInc_def sessionHandler_def split: session_splits)
qed

section \<open>What was sent\<close>

definition passed :: "('f \<times> frontend_msg \<times> string result) list \<Rightarrow> string list" where
  "passed cs = concat (map (\<lambda>(f, msg, out). case out of Inl e \<Rightarrow> [] | Inr b \<Rightarrow> [b]) cs)"

definition pendingCheck :: "inc_pc \<Rightarrow> frontend_msg list" where
  "pendingCheck pc = (case pc of IncApply msg \<Rightarrow> [msg] | _ \<Rightarrow> [])"

definition pendingWrite :: "inc_pc \<Rightarrow> string list" where
  "pendingWrite pc = (case pc of IncWrite msg b \<Rightarrow> [b] | _ \<Rightarrow> [])"

definition sentInv :: "'f session \<Rightarrow> bool" where
  "sentInv s =
     (map (\<lambda>(f, msg, out). msg) (checks s) @ pendingCheck (inc s) = gotClient s \<and>
      (passed (checks s) = toBackend s @ pendingWrite (inc s) \<or>
       inc s = IncDone \<and> (\<exists>b. passed (checks s) = toBackend s @ [b])))"

lemma passed_simps [simp]:
  "passed [] = []" "passed (cs @ ds) = passed cs @ passed ds"
  "passed [(f, msg, Inl e)] = []" "passed [(f, msg, Inr b)] = [b]"
  by (simp_all add: passed_def)

lemma sentInv_step:
  assumes "session_step env (sh, s) (sh', s')" and "phaseInv s" and "sentInv s"
  shows "sentInv s'"
  using assms(1,2,3)
  by (cases rule: step_inc_cases)
     (auto simp: session_op_defs sameInc_def sentInv_def pendingCheck_def pendingWrite_def split: session_splits)

section \<open>What was relayed\<close>

definition pendingRelay :: "rsp_pc \<Rightarrow> backend_msg list" where
  "pendingRelay pc =
     (case pc of RspSwitch m \<Rightarrow> [m] | RspKey key m \<Rightarrow> [m] | RspWrite m \<Rightarrow> [m] | _ \<Rightarrow> [])"

definition wire :: "'f proxy_env \<Rightarrow> backend_msg \<Rightarrow> string" where
  "wire env m = encodeMsg (envCodec env) (BackendM m)"

definition relayInv :: "'f proxy_env \<Rightarrow> 'f session \<Rightarrow> bool" where
  "relayInv env s =
     (map (wire env) (gotBackend s) = relays (toClient s) @ map (wire env) (pendingRelay (rsp s)) \<or>
      rsp s = RspDone \<and> (\<exists>b. map (wire env) (gotBackend s) = relays (toClient s) @ [b]))"

lemma relayInv_step:
  assumes "session_step env (sh, s) (sh', s')" and "phaseInv s" and "relayInv env s"
  shows "relayInv env s'"
  using assms
  by (cases rule: step_rsp_cases)
     (auto simp: session_op_defs sameRsp_def relayInv_def pendingRelay_def wire_def split: session_splits)

section \<open>The transaction status\<close>

text \<open>The status of the last ReadyForQuery of a list of messages, idle when there is none.\<close>

definition lastReady :: "backend_msg list \<Rightarrow> char" where
  "lastReady ms = foldl (\<lambda>c m. case m of ReadyForQuery t \<Rightarrow> t | _ \<Rightarrow> c) (CHR ''I'') ms"

text \<open>The messages of the backend the relay has looked at.\<close>

definition handled :: "'f session \<Rightarrow> backend_msg list" where
  "handled s = (case rsp s of RspSwitch m \<Rightarrow> butlast (gotBackend s) | _ \<Rightarrow> gotBackend s)"

definition txInv :: "'f session \<Rightarrow> bool" where
  "txInv s =
     (lastTxStatus s = txWord (lastReady (handled s)) \<and>
      (\<forall>m. rsp s = RspSwitch m \<longrightarrow> gotBackend s \<noteq> [] \<and> last (gotBackend s) = m))"

lemma lastReady_snoc [simp]:
  "lastReady (ms @ [m]) = (case m of ReadyForQuery t \<Rightarrow> t | _ \<Rightarrow> lastReady ms)"
  by (simp add: lastReady_def split: backend_msg.split)

lemma txByte_txWord [simp]: "txByte (txWord c) = c"
proof -
  have "(of_char c :: nat) < 4294967296"
    by (rule less_trans [OF nat_of_char_less_256]) simp
  then have "unat (txWord c) = of_char c"
    by (simp add: txWord_def unat_of_nat)
  then show ?thesis by (simp add: txByte_def)
qed

lemma lastReady_handled:
  assumes "gotBackend s \<noteq> []"
  shows "lastReady (gotBackend s) =
    (case last (gotBackend s) of ReadyForQuery t \<Rightarrow> t | _ \<Rightarrow> lastReady (butlast (gotBackend s)))"
  using lastReady_snoc [of "butlast (gotBackend s)" "last (gotBackend s)"] assms by simp

lemma txInv_step:
  assumes "session_step env (sh, s) (sh', s')" and "phaseInv s" and "txInv s"
  shows "txInv s'"
  using assms
  by (cases rule: step_rsp_cases)
     (auto simp: session_op_defs sameRsp_def txInv_def handled_def lastReady_handled authTypeOf_def
       split: session_splits rsp_pc.splits)

section \<open>Errors and the end of a session\<close>

text \<open>The error state changes by calls of \<open>err\<close> only.\<close>

definition sameErr :: "'f session \<Rightarrow> 'f session \<Rightarrow> bool" where
  "sameErr s s' = (errsig s' = errsig s \<and> errLog s' = errLog s)"

lemma sameErr_refl [simp]: "sameErr s s"
  by (simp add: sameErr_def)

lemma sameErr_writeError [simp]: "sameErr (writeError cd d sev m c s) s" "sameErr s (writeError cd d sev m c s)"
  by (simp_all add: sameErr_def)

definition errCall :: "'f session \<Rightarrow> 'f session \<Rightarrow> bool" where
  "errCall s s' = (sameErr s s' \<or> (\<exists>s1 msg e. sameErr s s1 \<and> sameErr (err msg e s1) s'))"

lemma errCallI:
  "sameErr s s' \<Longrightarrow> errCall s s'"
  "sameErr s s1 \<Longrightarrow> sameErr (err msg e s1) s' \<Longrightarrow> errCall s s'"
  by (auto simp: errCall_def)

lemma errCall_svc: "sameErr s s1 \<Longrightarrow> errCall s ((err msg e s1)\<lparr>svc := p\<rparr>)"
  by (rule errCallI(2) [of s s1 msg e]) (simp_all add: sameErr_def)

lemma op_errCall:
  "errCall s (incDrain s)" "errCall s (incRecv env fr s)" "errCall s (incBlocked env d m he s)"
  "errCall s (incLoadTx s)" "errCall s (incReady env d c s)" "errCall s (incWrite w m b s)"
  "errCall s (rspRecv env fr s)" "errCall s (rspKey k bm s)" "errCall s (rspWrite env w bm s)"
  unfolding incDrain_def incRecv_def incBlocked_def incLoadTx_def incReady_def incWrite_def rspRecv_def
    rspKey_def rspWrite_def
  by (auto intro: errCallI simp: sameErr_def split: list.split sum.split option.split)

lemma refuse_errCall: "sameErr s s1 \<Longrightarrow> errCall s (refuse env d m c l e s1)"
  unfolding refuse_def by (rule errCallI(2) [of s "writeError (envCodec env) d ''FATAL'' m c s1" l e])
    (simp_all add: sameErr_def)

lemma step_errCall:
  assumes "session_step env (sh, s) (sh', s')"
  shows "errCall s s'"
  using assms
proof (cases rule: session_step.cases)
  case (svc_read rounds)
  then show ?thesis
    by (auto simp: serviceRead_def Let_def sameErr_def intro: errCall_svc errCallI(1)
        split: option.splits sum.splits prod.splits)
next
  case (svc_startup version ps delivered io)
  then have "serviceStartup env io delivered version ps (sh, s) = (sh', s')" by simp
  then show ?thesis
    by (cases rule: serviceStartup_cases) (auto intro: refuse_errCall errCallI(1) simp: sameErr_def)
next
  case (svc_other msg)
  then show ?thesis by (auto intro: errCall_svc simp: sameErr_def)
next
  case svc_wake
  then show ?thesis by (auto intro: errCallI simp: serviceCleanup_def sameErr_def)
next
  case (inc_apply m)
  then show ?thesis
    by (auto intro: errCallI simp: incApply_def Let_def sameErr_def split: sum.splits)
next
  case (rsp_switch m)
  then show ?thesis
    by (auto intro!: errCallI(1) simp: rspSwitch_def Let_def sameErr_def
        split: option.splits backend_msg.splits if_splits)
qed (auto intro: op_errCall errCallI(1) simp: sameErr_def)

definition onceInv :: "'f session \<Rightarrow> bool" where
  "onceInv s = (length (errLog s) \<le> 1 \<and> (errLog s \<noteq> [] \<longrightarrow> errsig s))"

lemma step_errsig: "session_step env (sh, s) (sh', s') \<Longrightarrow> errsig s \<Longrightarrow> errsig s'"
  by (drule step_errCall) (auto simp: errCall_def sameErr_def)

lemma onceInv_step: "session_step env (sh, s) (sh', s') \<Longrightarrow> onceInv s \<Longrightarrow> onceInv s'"
  by (drule step_errCall) (auto simp: errCall_def sameErr_def onceInv_def err_def split: if_splits)

text \<open>A relay ends by an error, or because the client said goodbye; the session ends after an error.\<close>

definition endInv :: "'f session \<Rightarrow> bool" where
  "endInv s =
     ((rsp s = RspDone \<longrightarrow> errsig s) \<and>
      (inc s = IncDone \<longrightarrow> errsig s \<or> Terminate \<in> set (gotClient s)) \<and>
      (\<forall>b. inc s = IncWrite Terminate b \<longrightarrow> Terminate \<in> set (gotClient s)) \<and>
      (inc s = IncApply Terminate \<longrightarrow> Terminate \<in> set (gotClient s)))"

lemma step_rsp_end:
  assumes "session_step env (sh, s) (sh', s')" and "phaseInv s" and "endInv s"
  shows "rsp s' = RspDone \<longrightarrow> errsig s'"
  using assms(1,2)
  by (cases rule: step_rsp_cases; insert assms(3) step_errsig [OF assms(1)])
     (auto simp: endInv_def rspRecv_def rspSwitch_def rspKey_def rspWrite_def Let_def
       split: option.splits sum.splits backend_msg.splits if_splits)

lemma step_inc_end:
  assumes "session_step env (sh, s) (sh', s')" and "phaseInv s" and "endInv s"
  shows "(inc s' = IncDone \<longrightarrow> errsig s' \<or> Terminate \<in> set (gotClient s')) \<and>
      (\<forall>b. inc s' = IncWrite Terminate b \<longrightarrow> Terminate \<in> set (gotClient s')) \<and>
      (inc s' = IncApply Terminate \<longrightarrow> Terminate \<in> set (gotClient s'))"
  using assms(1,2)
  by (cases rule: step_inc_cases; insert assms(3) step_errsig [OF assms(1)])
     (auto simp: endInv_def sameInc_def incDrain_def incRecv_def incApply_def incBlocked_def incLoadTx_def
       incReady_def incWrite_def Let_def split: option.splits sum.splits frontend_msg.splits list.splits if_splits)

lemma endInv_step:
  assumes "session_step env (sh, s) (sh', s')" and "phaseInv s" and "endInv s"
  shows "endInv s'"
  using step_rsp_end [OF assms] step_inc_end [OF assms] by (auto simp: endInv_def)

text \<open>The channel never holds more than its capacity.\<close>

definition chanInv :: "'f session \<Rightarrow> bool" where
  "chanInv s = (length (authTypeCh s) \<le> authCap)"

lemma chanInv_step:
  assumes "session_step env (sh, s) (sh', s')" and "chanInv s"
  shows "chanInv s'"
  using assms(1)
proof (cases rule: session_step.cases)
  case (svc_startup version ps delivered io)
  then have "serviceStartup env io delivered version ps (sh, s) = (sh', s')" by simp
  then show ?thesis
    by (cases rule: serviceStartup_cases) (use assms(2) in \<open>auto simp: chanInv_def\<close>)
qed (use assms(2) in \<open>auto simp: chanInv_def serviceRead_frames serviceCleanup_def incDrain_def incRecv_def incApply_def
    incBlocked_def incLoadTx_def incReady_def incWrite_def rspRecv_def rspSwitch_def rspKey_def rspWrite_def Let_def
    split: option.splits sum.splits backend_msg.splits frontend_msg.splits list.splits if_splits\<close>)

section \<open>Who is connected to what\<close>

text \<open>
  A session has a backend connection only after the access checks passed for the user and the
  database of its startup message, and then to the backend configured for that database.
\<close>

definition admitted :: "'f proxy_env \<Rightarrow> compiledACL option \<Rightarrow> backendTarget \<Rightarrow> (string \<rightharpoonup> string) \<Rightarrow> bool" where
  "admitted env a target ps =
     (checkDatabase a (param ps ''database'') = None \<and> checkUser a (param ps ''user'') = None \<and>
      (\<exists>db. envDBs env (param ps ''database'') = Some db \<and> target = targetFor (Addr db)))"

definition authInv :: "'f proxy_env \<Rightarrow> compiledACL option \<Rightarrow> 'f session \<Rightarrow> bool" where
  "authInv env a s =
     (acl s = a \<and> (inc s \<noteq> IncOff \<longrightarrow> rconn s \<noteq> None) \<and>
      (preparing s \<longrightarrow> rconn s = None) \<and> (\<forall>msg. svc s = SvcGot msg \<longrightarrow> gotStartup s = Some msg) \<and>
      (rconn s \<noteq> None \<longrightarrow> (\<exists>version ps. gotStartup s = Some (StartupMessage version ps) \<and>
         admitted env a (backendTgt s) ps)))"

lemma connectBackend_target: "snd (snd (connectBackend cd te io db version ps)) = targetFor (Addr db)"
  by (auto simp: connectBackend_def Let_def split: sum.split option.split)

lemma serviceStartup_admitted:
  assumes "serviceStartup env io d version ps (sh, s) = (sh', s')" and "svc s' = SvcPipe" and "svc s \<noteq> SvcPipe"
  shows "admitted env (acl s) (backendTgt s') ps"
  using assms connectBackend_target [of "envCodec env" "envTLS env" io _ version ps]
  by (auto simp: serviceStartup_def admitted_def Let_def split: option.splits sum.splits prod.splits)
     (metis snd_conv)

lemma op_rconn:
  "rconn (incDrain s) = rconn s" "rconn (incRecv env fr s) = rconn s" "rconn (incBlocked env d m he s) = rconn s"
  "rconn (incLoadTx s) = rconn s" "rconn (incReady env d c s) = rconn s" "rconn (incWrite w m b s) = rconn s"
  "rconn (rspRecv env fr s) = rconn s" "rconn (rspKey k bm s) = rconn s" "rconn (rspWrite env w bm s) = rconn s"
  "rconn (snd (incApply env m (sh, s))) = rconn s"
  by (auto simp: incDrain_def incRecv_def incBlocked_def incLoadTx_def incReady_def incWrite_def rspRecv_def
      rspKey_def rspWrite_def incApply_def Let_def split: list.split sum.split option.split)

lemma op_gotStartup:
  "gotStartup (incDrain s) = gotStartup s" "gotStartup (incRecv env fr s) = gotStartup s"
  "gotStartup (incBlocked env d m he s) = gotStartup s" "gotStartup (incLoadTx s) = gotStartup s"
  "gotStartup (incReady env d c s) = gotStartup s" "gotStartup (incWrite w m b s) = gotStartup s"
  "gotStartup (rspRecv env fr s) = gotStartup s" "gotStartup (rspKey k bm s) = gotStartup s"
  "gotStartup (rspWrite env w bm s) = gotStartup s" "gotStartup (snd (incApply env m (sh, s))) = gotStartup s"
  "gotStartup (snd (serviceCleanup (sh, s))) = gotStartup s"
  by (auto simp: incDrain_def incRecv_def incBlocked_def incLoadTx_def incReady_def incWrite_def rspRecv_def
      rspKey_def rspWrite_def incApply_def serviceCleanup_def Let_def split: list.split sum.split option.split)

lemma rspSwitch_rconn: "rspSwitch m (sh, s) = Some (sh', s') \<Longrightarrow> rconn s' = rconn s \<and> gotStartup s' = gotStartup s"
  by (auto simp: rspSwitch_def Let_def split: option.splits backend_msg.splits if_splits)

lemma authInv_step:
  assumes "session_step env (sh, s) (sh', s')" and "authInv env a s"
  shows "authInv env a s'"
  using assms(1)
proof (cases rule: session_step.cases)
  case (svc_startup version ps delivered io)
  then have st: "serviceStartup env io delivered version ps (sh, s) = (sh', s')" by simp
  then show ?thesis
  proof (cases rule: serviceStartup_cases)
    case refused
    with assms(2) show ?thesis by (simp add: authInv_def preparing_def)
  next
    case piping
    then have "svc s' = SvcPipe" "acl s' = acl s" "rconn s' \<noteq> None" "gotStartup s' = gotStartup s" by auto
    with serviceStartup_admitted [OF st] svc_startup assms(2) show ?thesis
      by (auto simp: authInv_def preparing_def)
  qed
next
  case (svc_read rounds)
  then have "rconn s = None" "inc s = IncOff" using assms(2) by (auto simp: authInv_def preparing_def)
  with svc_read assms(2) serviceRead_frames [OF svc_read(4)] show ?thesis
    by (auto simp: authInv_def serviceRead_def Let_def split: option.splits sum.splits prod.splits)
next
  case svc_wake
  then have "s' = snd (serviceCleanup (sh, s))" "svc s' = SvcCloseR" by (auto simp: serviceCleanup_def)
  with assms(2) show ?thesis by (simp add: authInv_def preparing_def op_gotStartup)
next
  case (inc_apply m)
  then have "s' = snd (incApply env m (sh, s))" by (metis snd_conv)
  with assms(2) inc_apply(3) show ?thesis by (simp add: authInv_def preparing_def op_rconn op_gotStartup)
next
  case (rsp_switch m)
  with assms(2) show ?thesis
    using rspSwitch_frames [OF rsp_switch(3)] rspSwitch_rconn [OF rsp_switch(3)] by (simp add: authInv_def preparing_def)
qed (use assms(2) in \<open>auto simp: authInv_def preparing_def op_rconn op_gotStartup\<close>)

section \<open>All together\<close>

definition sessionInv :: "'f proxy_env \<Rightarrow> 'f set \<Rightarrow> 'f session \<Rightarrow> 'f session \<Rightarrow> bool" where
  "sessionInv env S s0 s =
     (checkInv env S s0 s \<and> sentInv s \<and> relayInv env s \<and> txInv s \<and> onceInv s \<and> endInv s \<and> chanInv s \<and>
      authInv env (acl s0) s)"

lemma sessionInv_step:
  assumes "session_step env (sh, s) (sh', s')" and "handlerState sh \<in> S" and "sessionInv env S s0 s"
  shows "sessionInv env S s0 s'"
proof -
  have "phaseInv s" using assms(3) by (simp add: sessionInv_def checkInv_def)
  then show ?thesis
    using assms(3) checkInv_step [OF assms(1,2)] sentInv_step [OF assms(1)] relayInv_step [OF assms(1)]
      txInv_step [OF assms(1)] onceInv_step [OF assms(1)] endInv_step [OF assms(1)] chanInv_step [OF assms(1)]
      authInv_step [OF assms(1)]
    by (auto simp: sessionInv_def)
qed

lemma sessionInv_new:
  "s0 = newSession conn cid raddr tls a ctx idle \<Longrightarrow> sessionInv env S s0 s0"
  by (simp add: sessionInv_def checkInv_def phaseInv_def sentInv_def relayInv_def txInv_def onceInv_def endInv_def
      chanInv_def authInv_def newSession_def pendingCheck_def pendingWrite_def pendingRelay_def handled_def
      lastReady_def authCap_def)

lemma sessionInv_forced: "sessionInv env S s0 s \<Longrightarrow> sessionInv env S s0 (s\<lparr>lclosed := True\<rparr>)"
  by (simp add: sessionInv_def checkInv_def phaseInv_def preparing_def sentInv_def relayInv_def txInv_def onceInv_def
      endInv_def chanInv_def authInv_def handled_def cong: rsp_pc.case_cong)

interpretation session: session_invariant env S "newSession conn cid raddr tls a ctx idle"
    "sessionInv env S (newSession conn cid raddr tls a ctx idle)"
  for env S conn cid raddr tls a ctx idle
  by unfold_locales (blast intro: sessionInv_new sessionInv_step sessionInv_forced)+

end
