(* ===== verification/Server.thy ===== *)
theory Server
  imports Session_Safety
begin

text \<open>
  The server, \<^verbatim>\<open>proxy/proxy.go\<close>: \<open>Start\<close> with its accept loop and the \<open>stop\<close> function it
  returns, \<open>sessionCount\<close>, \<open>getListener\<close> and \<open>removeStaleUnixSocket\<close>.

  The state holds what the goroutines share (the metrics, the cancel registry and the handler state
  in \<open>shared\<close>, the connection counter, the set of live sessions, the wait group, the \<open>stopping\<close>
  channel and the listener), the program counters of the accept loop and of \<open>stop\<close>, and one entry
  for every session goroutine started so far, with its session and the deferred calls it still has to
  run. \<open>server_internal\<close> interleaves them all; a step of a session is a \<open>session_step\<close>. What the
  program that started the server does to it, calling \<open>stop\<close> and replacing the state of the query
  handler, is added by \<open>server_step\<close>.
\<close>

section \<open>Listening\<close>

text \<open>What \<open>os.Stat\<close> finds at a path, and the outcomes of the other system calls.\<close>

datatype file_stat =
    StatNotExist
  | StatFailed go_error
  | StatSocket
  | StatOther

datatype remove_result =
    Removed
  | RemoveNotExist
  | RemoveFailed go_error

record listen_env =
  activationListeners :: "string list result"
  stat :: "string \<Rightarrow> file_stat"
  dialAnswers :: "string \<Rightarrow> bool"
  removeFile :: "string \<Rightarrow> remove_result"
  listenOn :: "string \<Rightarrow> string \<Rightarrow> string result"

datatype os_action =
    RemoveFile string
  | Listen string string
  | Chmod770 string

definition removeStaleUnixSocket :: "listen_env \<Rightarrow> string \<Rightarrow> os_action list \<times> go_error option" where
  "removeStaleUnixSocket io host =
     (case stat io host of
        StatNotExist \<Rightarrow> ([], None)
      | StatFailed e \<Rightarrow> ([], Some (Errorf [Lit ''stat '', Lit host, Lit '': '', Wrap e]))
      | StatOther \<Rightarrow> ([], Some (Errorf [Lit host, Lit '' exists and is not a socket'']))
      | StatSocket \<Rightarrow>
          if dialAnswers io host
          then ([], Some (Errorf [Lit host, Lit '': another process is already listening on this socket'']))
          else
            (case removeFile io host of
               RemoveFailed e \<Rightarrow>
                 ([RemoveFile host], Some (Errorf [Lit ''removing stale socket '', Lit host, Lit '': '', Wrap e]))
             | _ \<Rightarrow> ([RemoveFile host], None)))"

definition getListener :: "listen_env \<Rightarrow> string \<Rightarrow> os_action list \<times> string result" where
  "getListener io host =
     (case activationListeners io of
        Inr (l # ls) \<Rightarrow> ([], Inr l)
      | _ \<Rightarrow>
          if HasPrefix host ''/'' \<or> HasPrefix host ''unix:'' then
            let path = TrimPrefix host ''unix:'' in
            (case removeStaleUnixSocket io path of
               (acts, Some e) \<Rightarrow> (acts, Inl e)
             | (acts, None) \<Rightarrow>
                 (case listenOn io ''unix'' path of
                    Inl e \<Rightarrow> (acts @ [Listen ''unix'' path],
                               Inl (Errorf [Lit ''listen on '', Lit path, Lit '': '', Wrap e]))
                  | Inr l \<Rightarrow> (acts @ [Listen ''unix'' path, Chmod770 path], Inr l)))
          else
            (case listenOn io ''tcp'' host of
               Inl e \<Rightarrow> ([Listen ''tcp'' host], Inl (Errorf [Lit ''listen on '', Lit host, Lit '': '', Wrap e]))
             | Inr l \<Rightarrow> ([Listen ''tcp'' host], Inr l)))"

section \<open>State\<close>

datatype accept_pc =
    AAccept
  | ACheck net_conn string "64 word"
  | AMax net_conn string "64 word"
  | AStore net_conn string "64 word"
  | AActivate net_conn string "64 word"
  | ASpawn net_conn string "64 word"
  | ADone

text \<open>A session goroutine: it runs \<open>service\<close>, then its deferred calls, last deferred first.\<close>

datatype proc_pc =
    PRun
  | PDelete
  | PActive
  | PWg
  | PGone

datatype stop_pc =
    StIdle
  | StListener
  | StWait
  | StForced
  | StReturned

record 'f proc =
  procID :: "64 word"
  procSession :: "'f session"
  procPc :: proc_pc

record 'f server =
  srvShared :: "'f shared"
  connid :: "64 word"
  sessions :: "64 word set"
  procs :: "'f proc list"
  wg :: nat
  stopping :: bool
  listening :: bool
  acceptPc :: accept_pc
  stopPc :: stop_pc
  forceClosed :: "64 word set"
  rejections :: "(net_conn \<times> string) list"

text \<open>
  \<open>forceClosed\<close> are the sessions whose client connection a forced stop has closed; the one of a
  session that was stored and whose goroutine is not started yet is among them.
\<close>

text \<open>What \<open>Start\<close> has fixed when the accept loop runs.\<close>

record 'f server_conf =
  srvEnv :: "'f proxy_env"
  srvCfg :: "'f startConfig"
  srvACL :: "compiledACL option"

text \<open>
  \<open>Start\<close>: the options, the ACL and the listener; on success the accept loop is running. The counter
  of connections is global to the process and the registry too, so their contents are arguments.
\<close>

definition Start ::
  "listen_env \<Rightarrow> 'f proxy_env \<Rightarrow> registry \<Rightarrow> 64 word \<Rightarrow> 'f \<Rightarrow> string \<Rightarrow> 'f Option list \<Rightarrow>
     os_action list \<times> ('f server_conf \<times> 'f server) result" where
  "Start io env reg cid f proxyHost opts =
     (let cfg = applyOptions opts in
      case compileACL (cfgACL cfg) of
        Inl e \<Rightarrow> ([], Inl e)
      | Inr a \<Rightarrow>
          let ms = (case cfgMetrics cfg of None \<Rightarrow> Some zeroMetrics | Some m \<Rightarrow> Some m) in
          (case getListener io proxyHost of
             (acts, Inl e) \<Rightarrow> (acts, Inl e)
           | (acts, Inr l) \<Rightarrow>
               (acts,
                Inr (\<lparr>srvEnv = env, srvCfg = cfg, srvACL = a\<rparr>,
                     \<lparr>srvShared = \<lparr>cancelRegistry = reg, metrics = ms, handlerState = f, panicked = False\<rparr>,
                      connid = cid, sessions = {}, procs = [], wg = 1, stopping = False, listening = True,
                      acceptPc = AAccept, stopPc = StIdle, forceClosed = {}, rejections = []\<rparr>))))"

section \<open>The accept loop\<close>

definition updMetrics :: "(Metrics option \<Rightarrow> Metrics option) \<Rightarrow> 'f server \<Rightarrow> 'f server" where
  "updMetrics g v = v\<lparr>srvShared := (srvShared v)\<lparr>metrics := g (metrics (srvShared v))\<rparr>\<rparr>"

definition acceptConn :: "(net_conn \<times> string) result \<Rightarrow> 'f server \<Rightarrow> 'f server" where
  "acceptConn r v =
     (case r of
        Inl e \<Rightarrow> if stopping v then v\<lparr>acceptPc := ADone, wg := wg v - 1\<rparr> else v
      | Inr (conn, raddr) \<Rightarrow>
          let cid = connid v + 1 in
          (updMetrics (\<lambda>m. addTotalConnections m 1) v)\<lparr>connid := cid, acceptPc := ACheck conn raddr cid\<rparr>)"

definition checkACL :: "'f server_conf \<Rightarrow> net_conn \<Rightarrow> string \<Rightarrow> 64 word \<Rightarrow> 'f server \<Rightarrow> 'f server" where
  "checkACL c conn raddr cid v =
     (case checkAddr (srvACL c) raddr of
        Some e \<Rightarrow>
          (updMetrics (\<lambda>m. addRejectedByACL m 1) v)
            \<lparr>rejections := rejections v @
               [(conn, buildErrorResponse (envCodec (srvEnv c)) ''FATAL'' ''connection not permitted'' ''28000'')],
             acceptPc := AAccept\<rparr>
      | None \<Rightarrow> v\<lparr>acceptPc := AMax conn raddr cid\<rparr>)"

definition atLimit :: "'f server_conf \<Rightarrow> 'f server \<Rightarrow> bool" where
  "atLimit c v =
     (0 < sint (cfgMaxConnections (srvCfg c)) \<and>
      sint (cfgMaxConnections (srvCfg c)) \<le> sint (loadActiveConnections (metrics (srvShared v))))"

definition checkMax :: "'f server_conf \<Rightarrow> net_conn \<Rightarrow> string \<Rightarrow> 64 word \<Rightarrow> 'f server \<Rightarrow> 'f server" where
  "checkMax c conn raddr cid v =
     (if atLimit c v then
        (updMetrics (\<lambda>m. addRejectedByMaxConnections m 1) v)
          \<lparr>rejections := rejections v @
             [(conn, buildErrorResponse (envCodec (srvEnv c)) ''FATAL'' ''too many connections'' ''53300'')],
           acceptPc := AAccept\<rparr>
      else v\<lparr>acceptPc := AStore conn raddr cid\<rparr>)"

definition storeSession :: "net_conn \<Rightarrow> string \<Rightarrow> 64 word \<Rightarrow> 'f server \<Rightarrow> 'f server" where
  "storeSession conn raddr cid v = v\<lparr>sessions := insert cid (sessions v), acceptPc := AActivate conn raddr cid\<rparr>"

definition activate :: "net_conn \<Rightarrow> string \<Rightarrow> 64 word \<Rightarrow> 'f server \<Rightarrow> 'f server" where
  "activate conn raddr cid v =
     (updMetrics (\<lambda>m. addActiveConnections m 1) v)\<lparr>acceptPc := ASpawn conn raddr cid\<rparr>"

definition spawn :: "'f server_conf \<Rightarrow> net_conn \<Rightarrow> string \<Rightarrow> 64 word \<Rightarrow> 'f server \<Rightarrow> 'f server" where
  "spawn c conn raddr cid v =
     (let p = newSession conn cid raddr (cfgTLS (srvCfg c)) (srvACL c) (cfgContextHandler (srvCfg c))
                (cfgIdleTimeout (srvCfg c));
          p' = (if cid \<in> forceClosed v then p\<lparr>lclosed := True\<rparr> else p) in
      v\<lparr>procs := procs v @ [\<lparr>procID = cid, procSession = p', procPc = PRun\<rparr>], wg := wg v + 1,
        acceptPc := AAccept\<rparr>)"

section \<open>The deferred calls of a session goroutine\<close>

definition procReturn :: "nat \<Rightarrow> 'f server \<Rightarrow> 'f server" where
  "procReturn i v = v\<lparr>procs := (procs v)[i := (procs v ! i)\<lparr>procPc := PDelete\<rparr>]\<rparr>"

definition procDelete :: "nat \<Rightarrow> 'f server \<Rightarrow> 'f server" where
  "procDelete i v = v\<lparr>sessions := sessions v - {procID (procs v ! i)},
     procs := (procs v)[i := (procs v ! i)\<lparr>procPc := PActive\<rparr>]\<rparr>"

definition procActive :: "nat \<Rightarrow> 'f server \<Rightarrow> 'f server" where
  "procActive i v = (updMetrics (\<lambda>m. addActiveConnections m (- 1)) v)
     \<lparr>procs := (procs v)[i := (procs v ! i)\<lparr>procPc := PWg\<rparr>]\<rparr>"

definition procWg :: "nat \<Rightarrow> 'f server \<Rightarrow> 'f server" where
  "procWg i v = v\<lparr>wg := wg v - 1, procs := (procs v)[i := (procs v ! i)\<lparr>procPc := PGone\<rparr>]\<rparr>"

section \<open>stop\<close>

definition sessionCount :: "'f server \<Rightarrow> nat" where
  "sessionCount v = card (sessions v)"

text \<open>Closing a closed channel panics.\<close>

definition stopCall :: "'f server \<Rightarrow> 'f server" where
  "stopCall v =
     (if stopping v then v\<lparr>srvShared := (srvShared v)\<lparr>panicked := True\<rparr>\<rparr>
      else v\<lparr>stopping := True, stopPc := StListener\<rparr>)"

definition stopListener :: "'f server \<Rightarrow> 'f server" where
  "stopListener v = v\<lparr>listening := False, stopPc := StWait\<rparr>"

text \<open>After the drain time: the client connections of all the sessions still stored are closed.\<close>

definition stopForce :: "'f server \<Rightarrow> 'f server" where
  "stopForce v =
     v\<lparr>procs := map (\<lambda>p. if procID p \<in> sessions v then p\<lparr>procSession := (procSession p)\<lparr>lclosed := True\<rparr>\<rparr> else p)
                 (procs v),
       forceClosed := sessions v,
       stopPc := StForced\<rparr>"

definition stopReturn :: "'f server \<Rightarrow> 'f server" where
  "stopReturn v = v\<lparr>stopPc := StReturned\<rparr>"

section \<open>Steps\<close>

definition runSession :: "nat \<Rightarrow> 'f shared \<Rightarrow> 'f session \<Rightarrow> 'f server \<Rightarrow> 'f server" where
  "runSession i sh s v = v\<lparr>srvShared := sh, procs := (procs v)[i := (procs v ! i)\<lparr>procSession := s\<rparr>]\<rparr>"

text \<open>One step of a goroutine of the server.\<close>

inductive server_internal :: "'f server_conf \<Rightarrow> 'f server \<Rightarrow> 'f server \<Rightarrow> bool" for c where
  i_accept_fail: "\<lbrakk>\<not> panicked (srvShared v); acceptPc v = AAccept\<rbrakk> \<Longrightarrow> server_internal c v (acceptConn (Inl e) v)"
| i_accept_ok: "\<lbrakk>\<not> panicked (srvShared v); acceptPc v = AAccept; listening v\<rbrakk>
    \<Longrightarrow> server_internal c v (acceptConn (Inr (conn, raddr)) v)"
| i_check_acl: "\<lbrakk>\<not> panicked (srvShared v); acceptPc v = ACheck conn raddr cid\<rbrakk>
    \<Longrightarrow> server_internal c v (checkACL c conn raddr cid v)"
| i_check_max: "\<lbrakk>\<not> panicked (srvShared v); acceptPc v = AMax conn raddr cid\<rbrakk>
    \<Longrightarrow> server_internal c v (checkMax c conn raddr cid v)"
| i_store: "\<lbrakk>\<not> panicked (srvShared v); acceptPc v = AStore conn raddr cid\<rbrakk>
    \<Longrightarrow> server_internal c v (storeSession conn raddr cid v)"
| i_activated: "\<lbrakk>\<not> panicked (srvShared v); acceptPc v = AActivate conn raddr cid\<rbrakk>
    \<Longrightarrow> server_internal c v (activate conn raddr cid v)"
| i_spawned: "\<lbrakk>\<not> panicked (srvShared v); acceptPc v = ASpawn conn raddr cid\<rbrakk>
    \<Longrightarrow> server_internal c v (spawn c conn raddr cid v)"
| i_session: "\<lbrakk>\<not> panicked (srvShared v); i < length (procs v);
      session_step (srvEnv c) (srvShared v, procSession (procs v ! i)) (sh, s)\<rbrakk>
    \<Longrightarrow> server_internal c v (runSession i sh s v)"
| i_proc_return: "\<lbrakk>\<not> panicked (srvShared v); i < length (procs v); procPc (procs v ! i) = PRun;
      svc (procSession (procs v ! i)) = SvcDone\<rbrakk> \<Longrightarrow> server_internal c v (procReturn i v)"
| i_proc_delete: "\<lbrakk>\<not> panicked (srvShared v); i < length (procs v); procPc (procs v ! i) = PDelete\<rbrakk>
    \<Longrightarrow> server_internal c v (procDelete i v)"
| i_proc_active: "\<lbrakk>\<not> panicked (srvShared v); i < length (procs v); procPc (procs v ! i) = PActive\<rbrakk>
    \<Longrightarrow> server_internal c v (procActive i v)"
| i_proc_wg: "\<lbrakk>\<not> panicked (srvShared v); i < length (procs v); procPc (procs v ! i) = PWg\<rbrakk>
    \<Longrightarrow> server_internal c v (procWg i v)"
| i_stop_listener: "\<lbrakk>\<not> panicked (srvShared v); stopPc v = StListener\<rbrakk> \<Longrightarrow> server_internal c v (stopListener v)"
| i_stop_force: "\<lbrakk>\<not> panicked (srvShared v); stopPc v = StWait\<rbrakk> \<Longrightarrow> server_internal c v (stopForce v)"
| i_stop_return: "\<lbrakk>\<not> panicked (srvShared v); stopPc v = StWait \<or> stopPc v = StForced; wg v = 0\<rbrakk>
    \<Longrightarrow> server_internal c v (stopReturn v)"

text \<open>
  One step of the process, with what the program does to the server. \<open>H\<close> are the states the query
  handler can be given while the proxy runs.
\<close>

inductive server_step :: "'f server_conf \<Rightarrow> 'f set \<Rightarrow> 'f server \<Rightarrow> 'f server \<Rightarrow> bool" for c H where
  internal: "server_internal c v v' \<Longrightarrow> server_step c H v v'"
| stop_call: "\<not> panicked (srvShared v) \<Longrightarrow> server_step c H v (stopCall v)"
| handler_state: "\<lbrakk>\<not> panicked (srvShared v); f \<in> H\<rbrakk>
    \<Longrightarrow> server_step c H v (v\<lparr>srvShared := (srvShared v)\<lparr>handlerState := f\<rparr>\<rparr>)"

lemmas accept_fail = server_internal.i_accept_fail [THEN server_step.internal]
lemmas accept_ok = server_internal.i_accept_ok [THEN server_step.internal]
lemmas check_acl = server_internal.i_check_acl [THEN server_step.internal]
lemmas check_max = server_internal.i_check_max [THEN server_step.internal]
lemmas store = server_internal.i_store [THEN server_step.internal]
lemmas activated = server_internal.i_activated [THEN server_step.internal]
lemmas spawned = server_internal.i_spawned [THEN server_step.internal]
lemmas session = server_internal.i_session [THEN server_step.internal]
lemmas proc_return = server_internal.i_proc_return [THEN server_step.internal]
lemmas proc_delete = server_internal.i_proc_delete [THEN server_step.internal]
lemmas proc_active = server_internal.i_proc_active [THEN server_step.internal]
lemmas proc_wg = server_internal.i_proc_wg [THEN server_step.internal]
lemmas stop_listener = server_internal.i_stop_listener [THEN server_step.internal]
lemmas stop_force = server_internal.i_stop_force [THEN server_step.internal]
lemmas stop_return = server_internal.i_stop_return [THEN server_step.internal]

lemma server_step_cases:
  assumes "server_step c H v v'"
  obtains (accept_fail) e where "v' = acceptConn (Inl e) v" "\<not> panicked (srvShared v)" "acceptPc v = AAccept"
  | (accept_ok) conn raddr where "v' = acceptConn (Inr (conn, raddr)) v" "\<not> panicked (srvShared v)"
      "acceptPc v = AAccept" "listening v"
  | (check_acl) conn raddr cid where "v' = checkACL c conn raddr cid v" "\<not> panicked (srvShared v)"
      "acceptPc v = ACheck conn raddr cid"
  | (check_max) conn raddr cid where "v' = checkMax c conn raddr cid v" "\<not> panicked (srvShared v)"
      "acceptPc v = AMax conn raddr cid"
  | (store) conn raddr cid where "v' = storeSession conn raddr cid v" "\<not> panicked (srvShared v)"
      "acceptPc v = AStore conn raddr cid"
  | (activated) conn raddr cid where "v' = activate conn raddr cid v" "\<not> panicked (srvShared v)"
      "acceptPc v = AActivate conn raddr cid"
  | (spawned) conn raddr cid where "v' = spawn c conn raddr cid v" "\<not> panicked (srvShared v)"
      "acceptPc v = ASpawn conn raddr cid"
  | (session) i sh s where "v' = runSession i sh s v" "\<not> panicked (srvShared v)"
      "i < length (procs v)" "session_step (srvEnv c) (srvShared v, procSession (procs v ! i)) (sh, s)"
  | (proc_return) i where "v' = procReturn i v" "\<not> panicked (srvShared v)" "i < length (procs v)"
      "procPc (procs v ! i) = PRun" "svc (procSession (procs v ! i)) = SvcDone"
  | (proc_delete) i where "v' = procDelete i v" "\<not> panicked (srvShared v)" "i < length (procs v)"
      "procPc (procs v ! i) = PDelete"
  | (proc_active) i where "v' = procActive i v" "\<not> panicked (srvShared v)" "i < length (procs v)"
      "procPc (procs v ! i) = PActive"
  | (proc_wg) i where "v' = procWg i v" "\<not> panicked (srvShared v)" "i < length (procs v)"
      "procPc (procs v ! i) = PWg"
  | (stop_call) "v' = stopCall v" "\<not> panicked (srvShared v)"
  | (stop_listener) "v' = stopListener v" "\<not> panicked (srvShared v)" "stopPc v = StListener"
  | (stop_force) "v' = stopForce v" "\<not> panicked (srvShared v)" "stopPc v = StWait"
  | (stop_return) "v' = stopReturn v" "\<not> panicked (srvShared v)"
      "stopPc v = StWait \<or> stopPc v = StForced" "wg v = 0"
  | (handler_state) f where "v' = v\<lparr>srvShared := (srvShared v)\<lparr>handlerState := f\<rparr>\<rparr>" "\<not> panicked (srvShared v)" "f \<in> H"
  using assms
proof (cases rule: server_step.cases)
  case internal
  then show thesis
  proof (cases rule: server_internal.cases)
    case (i_accept_fail e)
    then show thesis by (rule that(1))
  next
    case (i_accept_ok conn raddr)
    then show thesis by (rule that(2))
  next
    case (i_check_acl conn raddr cid)
    then show thesis by (rule that(3))
  next
    case (i_check_max conn raddr cid)
    then show thesis by (rule that(4))
  next
    case (i_store conn raddr cid)
    then show thesis by (rule that(5))
  next
    case (i_activated conn raddr cid)
    then show thesis by (rule that(6))
  next
    case (i_spawned conn raddr cid)
    then show thesis by (rule that(7))
  next
    case (i_session i sh s)
    then show thesis by (rule that(8))
  next
    case (i_proc_return i)
    then show thesis by (rule that(9))
  next
    case (i_proc_delete i)
    then show thesis by (rule that(10))
  next
    case (i_proc_active i)
    then show thesis by (rule that(11))
  next
    case (i_proc_wg i)
    then show thesis by (rule that(12))
  next
    case i_stop_listener
    then show thesis by (rule that(14))
  next
    case i_stop_force
    then show thesis by (rule that(15))
  next
    case i_stop_return
    then show thesis by (rule that(16))
  qed
next
  case stop_call
  then show thesis by (rule that(13))
next
  case (handler_state f)
  then show thesis by (rule that(17))
qed

inductive server_reach :: "'f server_conf \<Rightarrow> 'f set \<Rightarrow> 'f server \<Rightarrow> 'f server \<Rightarrow> bool" for c H v0 where
  start: "server_reach c H v0 v0"
| step: "server_reach c H v0 v \<Longrightarrow> server_step c H v v' \<Longrightarrow> server_reach c H v0 v'"

end
