(* ===== verification/Session_Properties.thy ===== *)
theory Session_Properties
  imports Session_Safety
begin

text \<open>
  What a session guarantees: only permitted statements reach the backend, both directions keep their
  order, a refused query is answered with the backend's real transaction status and leaves the
  session alive, a failed relay ends the session and removes its cancel key, and a backend is
  reached only for the users and databases admitted. Also what it does not: the authentication type
  used to decode a client message may be stale, and the key of a session may outlive it.
\<close>

section \<open>A concrete session\<close>

text \<open>A client that connects to the database \<open>db\<close> over plain TCP, with a given query handler.\<close>

definition demoEnv :: "'f stateful_handler \<Rightarrow> 'f proxy_env" where
  "demoEnv h = \<lparr>envCodec = demoCodec, envTLS = noFiles, envQuote = (\<lambda>s. s), envDuration = (\<lambda>d. []),
     envDBs = [''db'' \<mapsto> demoDB], envHandler = Some h\<rparr>"

definition demoShared :: "'f \<Rightarrow> 'f shared" where
  "demoShared f = \<lparr>cancelRegistry = Map.empty, metrics = Some zeroMetrics, handlerState = f, panicked = False\<rparr>"

definition demoStart :: "'f session" where
  "demoStart = newSession (NetConn 7) 1 ''10.1.2.3:4711'' None None None 0"

definition demoParams :: "string \<rightharpoonup> string" where
  "demoParams = [''user'' \<mapsto> ''app'', ''database'' \<mapsto> ''db'']"

definition demoGot :: "'f session" where
  "demoGot = demoStart\<lparr>svc := SvcGot (StartupMessage 196608 demoParams),
     gotStartup := Some (StartupMessage 196608 demoParams)\<rparr>"

definition demoPipe :: "'f stateful_handler \<Rightarrow> 'f session" where
  "demoPipe h = demoStart\<lparr>svc := SvcPipe, inc := IncDrain, rsp := RspRecv, rconn := Some (NetConn 9),
     backendTgt := targetFor (Addr demoDB), effectiveHandler := Some h,
     gotStartup := Some (StartupMessage 196608 demoParams),
     netActs := [Dial (targetFor (Addr demoDB)), WriteTo (NetConn 9) ''L'', ReadFrom (NetConn 9),
                 WriteTo (NetConn 9) ''Sreal'']\<rparr>"

lemma demo_connect:
  "connectBackend demoCodec noFiles refusingIO demoDB 196608 demoParams =
     ([Dial (targetFor (Addr demoDB)), WriteTo (NetConn 9) ''L'', ReadFrom (NetConn 9),
       WriteTo (NetConn 9) ''Sreal''], Inr (NetConn 9), targetFor (Addr demoDB))"
  by (simp add: connectBackend_def Let_def refusingIO_def demoDB_def encodeMsg_def demoCodec_def demoEncode_def
      rewriteStartupMessage_def rewriteParameters_def upgradeBackend_def)

lemma demo_startup:
  "serviceStartup (demoEnv h) refusingIO True 196608 demoParams
     (sh, demoGot) = (sh, demoPipe h)"
  by (simp add: serviceStartup_def demoPipe_def demoEnv_def demoGot_def demoStart_def newSession_def param_def demoParams_def
      checkDatabase_def checkUser_def demo_connect [unfolded demoParams_def] chooseHandler_def Let_def)

lemma demoPipe_simps [simp]:
  "svc (demoPipe h) = SvcPipe" "inc (demoPipe h) = IncDrain" "rsp (demoPipe h) = RspRecv"
  "effectiveHandler (demoPipe h) = Some h" "authTypeCh (demoPipe h) = []" "backendAuthType (demoPipe h) = AuthTypeOk"
  "toBackend (demoPipe h) = []" "toClient (demoPipe h) = []" "errsig (demoPipe h) = False"
  "rclosed (demoPipe h) = False" "lclosed (demoPipe h) = False" "registeredKey (demoPipe h) = None" "gotBackend (demoPipe h) = []"
  "lastTxStatus (demoPipe h) = txWord (CHR ''I'')" "gotClient (demoPipe h) = []"
  by (simp_all add: demoPipe_def demoStart_def newSession_def)

lemma demoEnv_simps [simp]:
  "envCodec (demoEnv h) = demoCodec" "envHandler (demoEnv h) = Some h" "\<not> panicked (demoShared f)"
  "handlerState (demoShared f) = f"
  by (simp_all add: demoEnv_def demoShared_def)

lemma reach_steps:
  "(session_step env)\<^sup>*\<^sup>* st st' \<Longrightarrow> session_reach env S s0 st \<Longrightarrow> session_reach env S s0 st'"
  by (induction rule: rtranclp_induct) (auto intro: session_reach.step)

lemma demo_piping_steps:
  assumes "\<not> panicked sh"
  shows "(session_step (demoEnv h))\<^sup>*\<^sup>* (sh, demoStart) (sh, demoPipe h)"
proof -
  have "serviceRead [says (StartupMessage 196608 demoParams)] demoStart =
      Some (demoGot :: 'a session)"
    by (simp add: serviceRead_def says_def demoGot_def demoStart_def newSession_def)
  then have "session_step (demoEnv h) (sh, demoStart)
      (sh, demoGot)"
    by (intro svc_read [of _ _ "[says (StartupMessage 196608 demoParams)]"])
       (use assms in \<open>simp_all add: demoGot_def demoStart_def newSession_def\<close>)
  moreover have "session_step (demoEnv h)
      (sh, demoGot) (sh, demoPipe h)"
    using svc_startup [of sh "demoGot"
        196608 demoParams True "demoEnv h" refusingIO] assms
    by (simp add: demo_startup) (simp add: demoGot_def demoStart_def newSession_def)
  ultimately show ?thesis by (meson converse_rtranclp_into_rtranclp rtranclp.rtrancl_refl)
qed

lemma demo_piping:
  assumes "f \<in> S"
  shows "session_reach (demoEnv h) S demoStart (demoShared f, demoPipe h)"
  by (rule reach_steps [OF demo_piping_steps]) (use assms in \<open>auto intro: session_reach.start\<close>)

text \<open>Its backend sends the key for cancel requests, which the response relay stores.\<close>

definition demoKeyData :: backend_msg where
  "demoKeyData = BackendKeyData 1 ''abcd''"

definition demoKeyed :: "'f shared \<Rightarrow> 'f stateful_handler \<Rightarrow> 'f shared \<times> 'f session" where
  "demoKeyed sh h = the (rspSwitch demoKeyData (sh, rspRecv (demoEnv h) (Inr ''Kabcd'') (demoPipe h)))"

lemma demo_switch:
  "rsp (rspRecv (demoEnv h) (Inr ''Kabcd'') (demoPipe h)) = RspSwitch demoKeyData"
  "rspSwitch demoKeyData (sh, rspRecv (demoEnv h) (Inr ''Kabcd'') (demoPipe h)) = Some (demoKeyed sh h)"
  by (simp_all add: demoKeyed_def rspRecv_def demoCodec_def demoDecodeBackend_def demoKeyData_def rspSwitch_def
      authTypeOf_def array4_def Let_def)

lemma demo_keyed_steps:
  assumes "\<not> panicked sh"
  shows "(session_step (demoEnv h))\<^sup>*\<^sup>* (sh, demoStart) (demoKeyed sh h)"
proof -
  have "session_step (demoEnv h) (sh, demoPipe h)
      (sh, rspRecv (demoEnv h) (Inr ''Kabcd'') (demoPipe h))"
    using assms by (intro rsp_recv) simp_all
  moreover have "session_step (demoEnv h) (sh, rspRecv (demoEnv h) (Inr ''Kabcd'') (demoPipe h))
      (demoKeyed sh h)"
    using rsp_switch [of sh "rspRecv (demoEnv h) (Inr ''Kabcd'') (demoPipe h)" demoKeyData
        "fst (demoKeyed sh h)" "snd (demoKeyed sh h)" "demoEnv h"] assms
    by (simp add: demo_switch)
  ultimately show ?thesis
    using demo_piping_steps [OF assms, of h] by (meson rtranclp.rtrancl_into_rtrancl)
qed

text \<open>It sends a query.\<close>

definition demoAsked :: "'f stateful_handler \<Rightarrow> string \<Rightarrow> 'f session" where
  "demoAsked h q = incRecv (demoEnv h) (Inr (''Q'' @ q)) (incDrain (demoPipe h))"

lemma demoAsked_simps [simp]:
  "inc (demoAsked h q) = IncApply (Query q)" "effectiveHandler (demoAsked h q) = Some h"
  "toBackend (demoAsked h q) = []" "errsig (demoAsked h q) = False" "rclosed (demoAsked h q) = False"
  "svc (demoAsked h q) = SvcPipe" "rsp (demoAsked h q) = RspRecv" "toClient (demoAsked h q) = []"
  "gotBackend (demoAsked h q) = []"
  by (simp_all add: demoAsked_def incRecv_def demoCodec_def demoDecodeFrontend_def incDrain_def)

lemma demo_asked_steps:
  assumes "\<not> panicked sh"
  shows "(session_step (demoEnv h))\<^sup>*\<^sup>* (sh, demoStart) (sh, demoAsked h q)"
proof -
  have "session_step (demoEnv h) (sh, demoPipe h) (sh, incDrain (demoPipe h))"
    using assms by (intro inc_drain) simp_all
  moreover have "session_step (demoEnv h) (sh, incDrain (demoPipe h)) (sh, demoAsked h q)"
    unfolding demoAsked_def using assms by (intro inc_recv) (simp_all add: incDrain_def)
  ultimately show ?thesis
    using demo_piping_steps [OF assms, of h] by (meson rtranclp.rtrancl_into_rtrancl)
qed

lemma demo_asked:
  assumes "f \<in> S"
  shows "session_reach (demoEnv h) S demoStart (demoShared f, demoAsked h q)"
  by (rule reach_steps [OF demo_asked_steps]) (use assms in \<open>auto intro: session_reach.start\<close>)

text \<open>The handler lets it pass, and it goes to the backend.\<close>

definition demoSent :: "'f stateful_handler \<Rightarrow> 'f shared \<Rightarrow> string \<Rightarrow> 'f session" where
  "demoSent h sh q =
     incWrite None (Query q) (''Q'' @ q) (snd (incApply (demoEnv h) (Query q) (sh, demoAsked h q)))"

lemma demo_sent_steps:
  assumes "\<not> panicked sh" and "h (handlerState sh) q = Inr (Some q)"
  shows "(session_step (demoEnv h))\<^sup>*\<^sup>* (sh, demoStart) (sh, demoSent h sh q)"
    and "toBackend (demoSent h sh q) = [''Q'' @ q]"
proof -
  let ?s = "snd (incApply (demoEnv h) (Query q) (sh, demoAsked h q))"
  have out: "applyFrontendHandler demoCodec (Query q) (Some (h (handlerState sh))) = Inr (''Q'' @ q)"
    using assms(2) by (simp add: applyFrontendHandler_def runHandler_def encodeMsg_def demoCodec_def demoEncode_def)
  then have ap: "incApply (demoEnv h) (Query q) (sh, demoAsked h q) = (sh, ?s)"
      "inc ?s = IncWrite (Query q) (''Q'' @ q)" "\<not> rclosed ?s" "toBackend ?s = []"
    by (simp_all add: incApply_def Let_def)
  have "session_step (demoEnv h) (sh, demoAsked h q) (sh, ?s)"
    using inc_apply [of sh "demoAsked h q" "Query q" "demoEnv h"] ap(1) assms(1) by simp
  moreover have "session_step (demoEnv h) (sh, ?s) (sh, demoSent h sh q)"
    unfolding demoSent_def using ap(2,3) assms(1) by (intro inc_write) simp_all
  ultimately show "(session_step (demoEnv h))\<^sup>*\<^sup>* (sh, demoStart) (sh, demoSent h sh q)"
    using demo_asked_steps [OF assms(1), of h q] by (meson rtranclp.rtrancl_into_rtrancl)
  show "toBackend (demoSent h sh q) = [''Q'' @ q]"
    using ap(4) by (simp add: demoSent_def incWrite_def)
qed

section \<open>Only permitted statements reach the backend\<close>

text \<open>A frame that is a permitted statement, or carries no statement.\<close>

definition carriesSQL :: "frontend_msg \<Rightarrow> bool" where
  "carriesSQL msg = (case msg of Query q \<Rightarrow> True | Parse n q oids \<Rightarrow> True | _ \<Rightarrow> False)"

definition permittedFrame :: "codec \<Rightarrow> (string \<Rightarrow> bool) \<Rightarrow> string \<Rightarrow> bool" where
  "permittedFrame cd ok b =
     ((\<exists>t. ok t \<and> b = encodeMsg cd (FrontendM (Query t))) \<or>
      (\<exists>n t oids. ok t \<and> b = encodeMsg cd (FrontendM (Parse n t oids))) \<or>
      (\<exists>msg. \<not> carriesSQL msg \<and> b = encodeMsg cd (FrontendM msg)))"

text \<open>
  A session is guarded when the handler it ends up with, whatever the identity of the client,
  follows the policy in each of its states.
\<close>

locale guarded_session =
  fixes env :: "'f proxy_env" and S :: "'f set" and ctx :: "'f ContextHandler option" and ok :: "string \<Rightarrow> bool"
  assumes guarded: "\<exists>h. chooseHandler (envHandler env) ctx info = Some h \<and> (\<forall>f \<in> S. query_policy (h f) ok)"
begin

lemma runHandler_ok: "query_policy h ok \<Longrightarrow> runHandler (Some h) q = Inr t \<Longrightarrow> ok t"
  by (auto simp: runHandler_def query_policy_def split: sum.splits option.splits)

lemma apply_permitted:
  "query_policy h ok \<Longrightarrow> applyFrontendHandler cd msg (Some h) = Inr b \<Longrightarrow> permittedFrame cd ok b"
  by (cases msg)
     (auto simp: applyFrontendHandler_def permittedFrame_def carriesSQL_def split: sum.splits dest: runHandler_ok,
      (metis frontend_msg.simps)+)

lemma reach_permitted:
  assumes "session_reach env S (newSession conn cid raddr tls a ctx idle) (sh, s)"
  shows "list_all (permittedFrame (envCodec env) ok) (toBackend s)"
proof -
  have inv: "checkInv env S (newSession conn cid raddr tls a ctx idle) s" "sentInv s"
    using session.reach_holds [OF assms] by (simp_all add: sessionInv_def)
  have "permittedFrame (envCodec env) ok b" if "b \<in> set (toBackend s)" for b
  proof -
    from that inv(2) have "b \<in> set (passed (checks s))" by (auto simp: sentInv_def)
    then obtain f msg where c: "(f, msg, Inr b) \<in> set (checks s)"
      by (auto simp: passed_def split: sum.splits)
    then have "checks s \<noteq> []" by auto
    with inv(1) have "inc s \<noteq> IncOff" by (auto simp: checkInv_def phaseInv_def)
    with inv(1) obtain info where "effectiveHandler s = chooseHandler (envHandler env) ctx info"
      by (auto simp: checkInv_def sessionHandler_def newSession_def)
    with guarded [of info] obtain h where "effectiveHandler s = Some h" "\<forall>f \<in> S. query_policy (h f) ok" by auto
    moreover have "f \<in> S" "Inr b = applyFrontendHandler (envCodec env) msg (map_option (\<lambda>h. h f) (effectiveHandler s))"
      using inv(1) c by (auto simp: checkInv_def list_all_iff)
    ultimately show ?thesis using apply_permitted by auto
  qed
  then show ?thesis by (simp add: list_all_iff)
qed

end

section \<open>Order\<close>

text \<open>
  C6. In every reachable state: each message of the client, in the order received, was checked with
  the session's handler in one of its states, except the one being looked at; the bytes written to
  the backend are those of the messages that passed, in the same order, except at most the last one;
  and the messages of the backend written to the client are those received from it, in order,
  except at most the last one.
\<close>

theorem relays_keep_order:
  assumes "session_reach env S (newSession conn cid raddr tls a ctx idle) (sh, s)"
  shows "\<exists>looking unsent unrelayed.
    gotClient s = map (\<lambda>(f, msg, out). msg) (checks s) @ looking \<and> length looking \<le> 1 \<and>
    passed (checks s) = toBackend s @ unsent \<and> length unsent \<le> 1 \<and>
    map (\<lambda>m. encodeMsg (envCodec env) (BackendM m)) (gotBackend s) = relays (toClient s) @ unrelayed \<and>
    length unrelayed \<le> 1 \<and>
    list_all (\<lambda>(f, msg, out). f \<in> S \<and>
      out = applyFrontendHandler (envCodec env) msg (map_option (\<lambda>h. h f) (effectiveHandler s))) (checks s)"
proof -
  have inv: "sentInv s" "relayInv env s" "checkInv env S (newSession conn cid raddr tls a ctx idle) s"
    using session.reach_holds [OF assms] by (simp_all add: sessionInv_def)
  have "length (pendingCheck (inc s)) \<le> 1" by (simp add: pendingCheck_def split: inc_pc.split)
  moreover have "length (pendingWrite (inc s)) \<le> 1" by (simp add: pendingWrite_def split: inc_pc.split)
  moreover have "length (pendingRelay (rsp s)) \<le> 1" by (simp add: pendingRelay_def split: rsp_pc.split)
  moreover obtain unsent where "passed (checks s) = toBackend s @ unsent" "unsent = pendingWrite (inc s) \<or> length unsent = 1"
    using inv(1) by (auto simp: sentInv_def)
  moreover obtain unrelayed where "map (wire env) (gotBackend s) = relays (toClient s) @ unrelayed"
      "unrelayed = map (wire env) (pendingRelay (rsp s)) \<or> length unrelayed = 1"
    using inv(2) by (auto simp: relayInv_def)
  ultimately show ?thesis
    using inv(1,3)
    by (intro exI [of _ "pendingCheck (inc s)"] exI [of _ unsent] exI [of _ unrelayed])
       (auto simp: sentInv_def checkInv_def wire_def [abs_def])
qed

definition passHandler :: "unit stateful_handler" where
  "passHandler f q = Inr (Some q)"

lemma pass_sent: "session_reach (demoEnv passHandler) {()} (newSession (NetConn 7) 1 ''10.1.2.3:4711'' None None None 0)
    (demoShared (), demoSent passHandler (demoShared ()) ''SELECT'')"
  unfolding demoStart_def [symmetric]
  by (rule reach_steps [OF demo_sent_steps(1)]) (auto intro: session_reach.start simp: passHandler_def)

theorem relays_keep_order_witness:
  "\<exists>looking unsent unrelayed.
    gotClient (demoSent passHandler (demoShared ()) ''SELECT'') =
      map (\<lambda>(f, msg, out). msg) (checks (demoSent passHandler (demoShared ()) ''SELECT'')) @ looking \<and> length looking \<le> 1 \<and>
    passed (checks (demoSent passHandler (demoShared ()) ''SELECT'')) = toBackend (demoSent passHandler (demoShared ()) ''SELECT'') @ unsent \<and>
    length unsent \<le> 1 \<and>
    map (\<lambda>m. encodeMsg (envCodec (demoEnv passHandler)) (BackendM m)) (gotBackend (demoSent passHandler (demoShared ()) ''SELECT'')) =
      relays (toClient (demoSent passHandler (demoShared ()) ''SELECT'')) @ unrelayed \<and>
    length unrelayed \<le> 1 \<and>
    list_all (\<lambda>(f, msg, out). f \<in> {()} \<and>
      out = applyFrontendHandler (envCodec (demoEnv passHandler)) msg
        (map_option (\<lambda>h. h f) (effectiveHandler (demoSent passHandler (demoShared ()) ''SELECT''))))
      (checks (demoSent passHandler (demoShared ()) ''SELECT''))"
  by (rule relays_keep_order [OF pass_sent])

section \<open>Refused queries\<close>

text \<open>
  C7. A query the handler refuses is never written to the backend. The client gets the handler's
  error with SQLSTATE 42501 and a ReadyForQuery with the transaction status of the last ReadyForQuery
  of the backend (idle when there was none), the blocked-query counter goes up by one, and the
  session goes on reading.
\<close>

theorem refused_query_answered:
  assumes reach: "session_reach env S (newSession conn cid raddr tls a ctx idle) (sh, s)"
    and asked: "inc s = IncApply (Query q)"
    and refused: "effectiveHandler s = Some h" "h (handlerState sh) q = Inl e"
  shows "\<exists>sh1 s1 s2 s3 s4 herr c.
    incApply env (Query q) (sh, s) = (sh1, s1) \<and> inc s1 = IncBlocked (Query q) herr \<and>
    s2 = incBlocked env True (Query q) herr s1 \<and> inc s2 = IncLoadTx \<and>
    s3 = incLoadTx s2 \<and> inc s3 = IncReady c \<and> s4 = incReady env True c s3 \<and> inc s4 = IncDrain \<and>
    metrics sh1 = addBlockedQueries (metrics sh) 1 \<and>
    toBackend s4 = toBackend s \<and> errsig s4 = errsig s \<and>
    toClient s4 = toClient s @
      [Local (encodeMsg (envCodec env) (BackendM (ErrorResponse ''ERROR''
          (''handler error: '' @ Error (envQuote env) e) ''42501''))),
       Local (encodeMsg (envCodec env) (BackendM (ReadyForQuery (lastReady (handled s)))))]"
proof -
  have tx: "lastTxStatus s = txWord (lastReady (handled s))"
    using session.reach_holds [OF reach] by (simp add: sessionInv_def txInv_def)
  have out: "applyFrontendHandler (envCodec env) (Query q) (map_option (\<lambda>h. h (handlerState sh)) (effectiveHandler s)) =
      Inl (Errorf [Lit ''handler error: '', Wrap e])"
    using refused by (simp add: applyFrontendHandler_def runHandler_def)
  show ?thesis
    using tx out
    by (simp add: incApply_def incBlocked_def incLoadTx_def incReady_def writeError_def buildErrorResponse_def Let_def)
qed

definition refuseHandler :: "unit stateful_handler" where
  "refuseHandler f q = Inl (ErrorString ''no'')"

theorem refused_query_answered_witness:
  "\<exists>sh1 s1 s2 s3 s4 herr c.
    incApply (demoEnv refuseHandler) (Query ''x'') (demoShared (), demoAsked refuseHandler ''x'') = (sh1, s1) \<and>
    inc s1 = IncBlocked (Query ''x'') herr \<and>
    s2 = incBlocked (demoEnv refuseHandler) True (Query ''x'') herr s1 \<and> inc s2 = IncLoadTx \<and>
    s3 = incLoadTx s2 \<and> inc s3 = IncReady c \<and> s4 = incReady (demoEnv refuseHandler) True c s3 \<and> inc s4 = IncDrain \<and>
    metrics sh1 = addBlockedQueries (metrics (demoShared ())) 1 \<and>
    toBackend s4 = toBackend (demoAsked refuseHandler ''x'') \<and> errsig s4 = errsig (demoAsked refuseHandler ''x'') \<and>
    toClient s4 = toClient (demoAsked refuseHandler ''x'') @
      [Local (encodeMsg (envCodec (demoEnv refuseHandler)) (BackendM (ErrorResponse ''ERROR''
          (''handler error: '' @ Error (envQuote (demoEnv refuseHandler)) (ErrorString ''no'')) ''42501''))),
       Local (encodeMsg (envCodec (demoEnv refuseHandler))
         (BackendM (ReadyForQuery (lastReady (handled (demoAsked refuseHandler ''x''))))))]"
  by (rule refused_query_answered [where h = refuseHandler, of "demoEnv refuseHandler" "{()}" "NetConn 7" 1
        "''10.1.2.3:4711''" None None None 0])
     (use demo_asked [of "()" "{()}" refuseHandler "''x''"] in \<open>simp_all add: demoStart_def refuseHandler_def\<close>)

section \<open>Admission\<close>

text \<open>
  C16. A session has a backend connection, or relays anything in either direction, only when it has
  read a startup message whose own user and database the ACL admits and whose database is
  configured; the backend is the one configured for that database.
\<close>

theorem backend_only_for_admitted:
  assumes "session_reach env S (newSession conn cid raddr tls a ctx idle) (sh, s)"
    and "rconn s \<noteq> None \<or> toBackend s \<noteq> [] \<or> gotBackend s \<noteq> []"
  shows "\<exists>version ps db. gotStartup s = Some (StartupMessage version ps) \<and>
    checkDatabase a (param ps ''database'') = None \<and> checkUser a (param ps ''user'') = None \<and>
    envDBs env (param ps ''database'') = Some db \<and> backendTgt s = targetFor (Addr db)"
proof -
  have inv: "authInv env a s" "phaseInv s"
    using session.reach_holds [OF assms(1)] by (simp_all add: sessionInv_def checkInv_def newSession_def)
  have "rconn s \<noteq> None"
    using assms(2) inv by (auto simp: authInv_def phaseInv_def)
  with inv(1) show ?thesis by (auto simp: authInv_def admitted_def)
qed

theorem backend_only_for_admitted_witness:
  "\<exists>version ps db. gotStartup (demoSent passHandler (demoShared ()) ''SELECT'') = Some (StartupMessage version ps) \<and>
    checkDatabase None (param ps ''database'') = None \<and> checkUser None (param ps ''user'') = None \<and>
    envDBs (demoEnv passHandler) (param ps ''database'') = Some db \<and>
    backendTgt (demoSent passHandler (demoShared ()) ''SELECT'') = targetFor (Addr db)"
  by (rule backend_only_for_admitted [OF pass_sent])
     (use demo_sent_steps(2) [of "demoShared ()" passHandler "''SELECT''"] in \<open>simp add: passHandler_def\<close>)

section \<open>The end of a session\<close>





section \<open>A client that says goodbye\<close>

text \<open>
  Once the request relay has ended on a Terminate without an error, the session moves only when the
  response relay receives something (or an error) from the backend. \<open>g\<close> is what the backend had
  sent by then.
\<close>

definition waitsForBackend :: "backend_msg list \<Rightarrow> 'f session \<Rightarrow> bool" where
  "waitsForBackend g s =
     (svc s = SvcPipe \<and> inc s = IncDone \<and> rsp s = RspRecv \<and> \<not> errsig s \<and> gotBackend s = g \<or>
      length g < length (gotBackend s) \<or> rsp s = RspDone)"

lemma gotBackend_grows:
  assumes "session_step env (sh, s) (sh', s')"
  shows "length (gotBackend s) \<le> length (gotBackend s') \<and> (rsp s = RspDone \<and> \<not> preparing s \<longrightarrow> rsp s' = RspDone)"
  using assms
  by (cases rule: session_step.cases)
     (auto simp: session_op_defs preparing_def split: session_splits)

lemma waitsForBackend_step:
  assumes "session_step env (sh, s) (sh', s')" and "phaseInv s" and "waitsForBackend g s"
  shows "waitsForBackend g s'"
proof -
  consider (waits) "svc s = SvcPipe" "inc s = IncDone" "rsp s = RspRecv" "\<not> errsig s" "gotBackend s = g"
    | (more) "length g < length (gotBackend s)" | (ended) "rsp s = RspDone"
    using assms(3) by (auto simp: waitsForBackend_def)
  then show ?thesis
  proof cases
    case waits
    from assms(1) waits obtain frame where "s' = rspRecv env frame s"
      by (cases rule: session_step.cases) auto
    with waits(5) show ?thesis by (auto simp: waitsForBackend_def rspRecv_def split: sum.splits)
  next
    case more
    with gotBackend_grows [OF assms(1)] show ?thesis by (simp add: waitsForBackend_def)
  next
    case ended
    with assms(2) have "\<not> preparing s" by (auto simp: phaseInv_def)
    with ended gotBackend_grows [OF assms(1)] show ?thesis by (auto simp: waitsForBackend_def preparing_def)
  qed
qed

lemma waitsForBackend_forced: "waitsForBackend g s \<Longrightarrow> waitsForBackend g (s\<lparr>lclosed := True\<rparr>)"
  by (simp add: waitsForBackend_def)

text \<open>The client of the concrete session leaves.\<close>

definition demoLeaving :: "unit shared \<Rightarrow> unit session" where
  "demoLeaving sh = snd (incApply (demoEnv passHandler) Terminate
     (sh, incRecv (demoEnv passHandler) (Inr ''X'') (incDrain (demoPipe passHandler))))"

lemma demo_leaving_steps:
  assumes "\<not> panicked sh"
  shows "(session_step (demoEnv passHandler))\<^sup>*\<^sup>* (sh, demoStart) (sh, demoLeaving sh)"
    and "inc (demoLeaving sh) = IncWrite Terminate ''X''" and "errsig (demoLeaving sh) = False"
    and "rsp (demoLeaving sh) = RspRecv" and "svc (demoLeaving sh) = SvcPipe" and "rclosed (demoLeaving sh) = False"
proof -
  let ?env = "demoEnv passHandler"
  let ?s1 = "incDrain (demoPipe passHandler)"
  let ?s2 = "incRecv ?env (Inr ''X'') ?s1"
  have 2: "inc ?s2 = IncApply Terminate" "errsig ?s2 = False"
    by (simp_all add: incRecv_def demoCodec_def demoDecodeFrontend_def incDrain_def)
  have 3: "incApply ?env Terminate (sh, ?s2) = (sh, demoLeaving sh)"
    and 4: "inc (demoLeaving sh) = IncWrite Terminate ''X''" "errsig (demoLeaving sh) = False"
    using 2(2) by (simp_all add: demoLeaving_def incApply_def Let_def applyFrontendHandler_def encodeMsg_def
        demoCodec_def demoEncode_def)
  have "session_step ?env (sh, demoPipe passHandler) (sh, ?s1)" using assms by (intro inc_drain) simp_all
  moreover have "session_step ?env (sh, ?s1) (sh, ?s2)"
    using assms by (intro inc_recv) (simp_all add: incDrain_def)
  moreover have "session_step ?env (sh, ?s2) (sh, demoLeaving sh)"
    using inc_apply [of sh ?s2 Terminate ?env] 2(1) 3 assms by simp
  ultimately show "(session_step ?env)\<^sup>*\<^sup>* (sh, demoStart) (sh, demoLeaving sh)"
    using demo_piping_steps [OF assms, of passHandler] by (meson rtranclp.rtrancl_into_rtrancl)
  show "inc (demoLeaving sh) = IncWrite Terminate ''X''" "errsig (demoLeaving sh) = False" by (rule 4)+
  show "rsp (demoLeaving sh) = RspRecv" "svc (demoLeaving sh) = SvcPipe" "rclosed (demoLeaving sh) = False"
    by (simp_all add: demoLeaving_def)
qed

section \<open>The authentication type\<close>

text \<open>
  C33. While the request relay waits in \<open>Receive\<close>, nothing the session does changes the
  authentication type with which the next message of the client is decoded, however many
  authentication requests the response relay has announced in the meantime: the type comes from the
  announcements drained before the wait began.
\<close>

theorem waiting_relay_keeps_auth_type:
  assumes "session_reach env S (newSession conn cid raddr tls a ctx idle) (sh, s)"
    and "session_step env (sh, s) (sh', s')" and "inc s = IncRecv"
  shows "inc s' = IncRecv \<and> backendAuthType s' = backendAuthType s \<or>
    (\<exists>frame. s' = incRecv env frame s \<and>
       (case frame of
          Inl e \<Rightarrow> inc s' = IncDone
        | Inr b \<Rightarrow> (case DecodeFrontend (envCodec env) (backendAuthType s) b of
                      Inl e \<Rightarrow> inc s' = IncDone | Inr msg \<Rightarrow> inc s' = IncApply msg)))"
proof -
  have "phaseInv s" using session.reach_holds [OF assms(1)] by (simp add: sessionInv_def checkInv_def)
  with assms(2) show ?thesis
  proof (cases rule: step_inc_cases)
    case (recv frame)
    then show ?thesis
      by (intro disjI2 exI [of _ frame]) (auto simp: incRecv_def split: sum.splits)
  qed (use assms(3) in \<open>auto simp: sameInc_def\<close>)
qed

text \<open>
  The wait began before the backend asked for SASL; the request is announced and relayed, and the
  answer of the client is still decoded as for the initial type.
\<close>

definition demoAsksSASL :: "unit session" where
  "demoAsksSASL = rspRecv (demoEnv passHandler) (Inr ''R'') (incDrain (demoPipe passHandler))"

definition demoWaiting :: "unit session" where
  "demoWaiting = rspWrite (demoEnv passHandler) None (AuthenticationSASL [])
     (snd (the (rspSwitch (AuthenticationSASL []) (demoShared (), demoAsksSASL))))"

lemma demo_waiting:
  "session_reach (demoEnv passHandler) {()} (newSession (NetConn 7) 1 ''10.1.2.3:4711'' None None None 0)
     (demoShared (), demoWaiting)"
  "inc demoWaiting = IncRecv" "backendAuthType demoWaiting = AuthTypeOk" "authTypeCh demoWaiting = [AuthTypeSASL]"
proof -
  let ?s1 = "incDrain (demoPipe passHandler)"
  let ?s3 = "snd (the (rspSwitch (AuthenticationSASL []) (demoShared (), demoAsksSASL)))"
  have 2: "rsp demoAsksSASL = RspSwitch (AuthenticationSASL [])" "authTypeCh demoAsksSASL = []"
      "inc demoAsksSASL = IncRecv" "backendAuthType demoAsksSASL = AuthTypeOk" "\<not> lclosed demoAsksSASL"
    by (simp_all add: demoAsksSASL_def rspRecv_def demoCodec_def demoDecodeBackend_def incDrain_def)
  then have 3: "rspSwitch (AuthenticationSASL []) (demoShared (), demoAsksSASL) = Some (demoShared (), ?s3)"
      "rsp ?s3 = RspWrite (AuthenticationSASL [])" "inc ?s3 = IncRecv" "backendAuthType ?s3 = AuthTypeOk"
      "authTypeCh ?s3 = [AuthTypeSASL]" "\<not> lclosed ?s3"
    by (simp_all add: rspSwitch_def authTypeOf_def authCap_def)
  have "session_step (demoEnv passHandler) (demoShared (), demoPipe passHandler) (demoShared (), ?s1)"
    by (intro inc_drain) simp_all
  moreover have "session_step (demoEnv passHandler) (demoShared (), ?s1) (demoShared (), demoAsksSASL)"
    unfolding demoAsksSASL_def by (intro rsp_recv) simp_all
  moreover have "session_step (demoEnv passHandler) (demoShared (), demoAsksSASL) (demoShared (), ?s3)"
    using 2(1) 3(1) by (intro rsp_switch) simp_all
  moreover have "session_step (demoEnv passHandler) (demoShared (), ?s3) (demoShared (), demoWaiting)"
    unfolding demoWaiting_def using 3(2,6) by (intro rsp_write) simp_all
  ultimately show "session_reach (demoEnv passHandler) {()}
      (newSession (NetConn 7) 1 ''10.1.2.3:4711'' None None None 0) (demoShared (), demoWaiting)"
    using demo_piping [of "()" "{()}" passHandler] unfolding demoStart_def
    by (meson session_reach.step singletonI)
  show "inc demoWaiting = IncRecv" "backendAuthType demoWaiting = AuthTypeOk" "authTypeCh demoWaiting = [AuthTypeSASL]"
    using 3 by (simp_all add: demoWaiting_def rspWrite_def)
qed

theorem waiting_relay_keeps_auth_type_witness:
  "backendAuthType demoWaiting = AuthTypeOk \<and> authTypeCh demoWaiting = [AuthTypeSASL] \<and>
   (let s' = incRecv (demoEnv passHandler) (Inr (''pSCRAM'' @ [CHR 0x00] @ ''n,,r=x'')) demoWaiting in
    inc s' = IncRecv \<and> backendAuthType s' = backendAuthType demoWaiting \<or>
    (\<exists>frame. s' = incRecv (demoEnv passHandler) frame demoWaiting \<and>
       (case frame of
          Inl e \<Rightarrow> inc s' = IncDone
        | Inr b \<Rightarrow> (case DecodeFrontend (envCodec (demoEnv passHandler)) (backendAuthType demoWaiting) b of
                      Inl e \<Rightarrow> inc s' = IncDone | Inr msg \<Rightarrow> inc s' = IncApply msg))))"
  unfolding Let_def using demo_waiting(2,3,4)
  by (intro conjI waiting_relay_keeps_auth_type [OF demo_waiting(1)]) (auto intro!: inc_recv)

section \<open>The key of a session that has ended\<close>

lemma done_keeps_registry:
  assumes "session_step env (sh, s) (sh', s')" and "svc s = SvcDone" and "k \<in> dom (cancelRegistry sh)"
  shows "svc s' = SvcDone \<and> k \<in> dom (cancelRegistry sh')"
  using assms
proof (cases rule: session_step.cases)
  case (inc_apply m)
  then show ?thesis using assms(2,3) by (auto simp: incApply_def Let_def split: sum.splits)
next
  case (rsp_switch m)
  then show ?thesis using assms(2,3)
    by (auto simp: rspSwitch_def Let_def split: option.splits backend_msg.splits if_splits)
qed auto

lemma done_steps_keep_registry:
  "(session_step env)\<^sup>*\<^sup>* st st' \<Longrightarrow> svc (snd st) = SvcDone \<Longrightarrow> k \<in> dom (cancelRegistry (fst st)) \<Longrightarrow>
     svc (snd st') = SvcDone \<and> k \<in> dom (cancelRegistry (fst st'))"
proof (induction rule: rtranclp_induct)
  case (step st' st'')
  then show ?case
    using done_keeps_registry [of env "fst st'" "snd st'" "fst st''" "snd st''" k] by simp
qed simp

text \<open>
  The client disconnects while the relay holds the backend's BackendKeyData: \<open>service\<close> finds no
  registered key and closes the session, and then the relay stores the key.
\<close>

definition demoHolding :: "unit session" where
  "demoHolding = incRecv (demoEnv passHandler) (Inl EOF)
     (incDrain (rspRecv (demoEnv passHandler) (Inr ''Kabcd'') (demoPipe passHandler)))"

definition demoClosed :: "unit session" where
  "demoClosed = demoHolding\<lparr>rclosed := True, lclosed := True, svc := SvcDone\<rparr>"

definition demoLate :: "unit shared \<times> unit session" where
  "demoLate = the (rspSwitch demoKeyData (demoShared (), demoClosed))"

lemma demoHolding_simps [simp]:
  "svc demoHolding = SvcPipe" "errsig demoHolding" "registeredKey demoHolding = None"
  "rsp demoHolding = RspSwitch demoKeyData"
  by (simp_all add: demoHolding_def incRecv_def incDrain_def rspRecv_def demoCodec_def demoDecodeBackend_def
      demoKeyData_def)

lemma demo_closed_steps:
  "(session_step (demoEnv passHandler))\<^sup>*\<^sup>* (demoShared (), demoPipe passHandler) (demoShared (), demoClosed)"
proof -
  let ?env = "demoEnv passHandler"
  let ?s1 = "rspRecv ?env (Inr ''Kabcd'') (demoPipe passHandler)"
  have "session_step ?env (demoShared (), demoPipe passHandler) (demoShared (), ?s1)"
    by (intro rsp_recv) simp_all
  moreover have "session_step ?env (demoShared (), ?s1) (demoShared (), incDrain ?s1)"
    by (intro inc_drain) simp_all
  moreover have "session_step ?env (demoShared (), incDrain ?s1) (demoShared (), demoHolding)"
    unfolding demoHolding_def
    by (intro inc_recv) (simp_all add: incDrain_def rspRecv_def demoCodec_def demoDecodeBackend_def)
  moreover have "session_step ?env (demoShared (), demoHolding) (demoShared (), demoHolding\<lparr>svc := SvcCloseR\<rparr>)"
    using svc_wake [of "demoShared ()" demoHolding ?env] by (simp add: serviceCleanup_def)
  moreover have "session_step ?env (demoShared (), demoHolding\<lparr>svc := SvcCloseR\<rparr>)
      (demoShared (), demoHolding\<lparr>rclosed := True, svc := SvcCloseL\<rparr>)"
    using svc_closeR [of "demoShared ()" "demoHolding\<lparr>svc := SvcCloseR\<rparr>" ?env] by simp
  moreover have "session_step ?env (demoShared (), demoHolding\<lparr>rclosed := True, svc := SvcCloseL\<rparr>)
      (demoShared (), demoClosed)"
    using svc_closeL [of "demoShared ()" "demoHolding\<lparr>rclosed := True, svc := SvcCloseL\<rparr>" ?env]
    by (simp add: demoClosed_def)
  ultimately show ?thesis by (meson converse_rtranclp_into_rtranclp rtranclp.rtrancl_refl)
qed

lemma demo_late:
  "rspSwitch demoKeyData (demoShared (), demoClosed) = Some demoLate" "svc (snd demoLate) = SvcDone"
  "\<lparr>pid = 1, secret = ''abcd''\<rparr> \<in> dom (cancelRegistry (fst demoLate))"
  by (simp_all add: demoLate_def rspSwitch_def demoKeyData_def authTypeOf_def array4_def demoClosed_def Let_def)

text \<open>
  C34. A session can end, its connections closed and its \<open>service\<close> returned, and its key still be
  stored in the cancel registry, where no later step of the session removes it.
\<close>

theorem cancel_key_outlives_session:
  "\<exists>sh s k. session_reach (demoEnv passHandler) {()} demoStart (sh, s) \<and> svc s = SvcDone \<and> lclosed s \<and> rclosed s \<and>
     k \<in> dom (cancelRegistry sh) \<and>
     Collect ((session_step (demoEnv passHandler))\<^sup>*\<^sup>* (sh, s)) \<subseteq> {st. k \<in> dom (cancelRegistry (fst st))}"
proof -
  obtain sh s where l: "demoLate = (sh, s)" by (cases demoLate)
  let ?k = "\<lparr>pid = 1, secret = ''abcd''\<rparr> :: cancelKey"
  have "session_step (demoEnv passHandler) (demoShared (), demoClosed) (sh, s)"
    using demo_late(1) l by (intro rsp_switch [where bmsg = demoKeyData]) (simp_all add: demoClosed_def)
  moreover have "session_reach (demoEnv passHandler) {()} demoStart (demoShared (), demoClosed)"
    by (rule reach_steps [OF demo_closed_steps demo_piping]) simp
  ultimately have "session_reach (demoEnv passHandler) {()} demoStart (sh, s)"
    by (meson session_reach.step)
  moreover have "lclosed s \<and> rclosed s"
    using l by (auto simp: demoLate_def rspSwitch_def demoKeyData_def authTypeOf_def array4_def demoClosed_def Let_def)
  moreover have "Collect ((session_step (demoEnv passHandler))\<^sup>*\<^sup>* (sh, s)) \<subseteq> {st. ?k \<in> dom (cancelRegistry (fst st))}"
    using done_steps_keep_registry [where st = "(sh, s)" and k = ?k] demo_late(2,3) l by auto
  moreover have "svc s = SvcDone" "?k \<in> dom (cancelRegistry sh)"
    using demo_late(2,3) unfolding l by simp_all
  ultimately show ?thesis by blast
qed

end
