(* ===== verification/Server_Properties.thy ===== *)
theory Server_Properties
  imports Server Session_Properties
begin

text \<open>
  What the server guarantees under every interleaving: the cap on connections holds and the counters
  add up, \<open>stop\<close> returns only when the accept loop and every \<open>service\<close> have ended, every session
  goroutine behaves as a session of \<open>session_reach\<close> (so its properties hold inside the server), a
  cancel request is forwarded, unchanged, to the backend that issued its key and to no other, and
  only a dead socket file is removed. Also that a session whose client has said goodbye keeps \<open>stop\<close>
  waiting for as long as its backend is quiet.

  The locale \<open>server_invariant\<close> lifts preservation by one step to all reachable states; it is
  interpreted for each of the invariants.
\<close>

section \<open>Invariants of the server\<close>

locale server_invariant =
  fixes c :: "'f server_conf" and H :: "'f set" and P :: "'f server \<Rightarrow> bool"
  assumes holds_step: "server_step c H v v' \<Longrightarrow> P v \<Longrightarrow> P v'"
begin

lemma reach_holds: "server_reach c H v0 v \<Longrightarrow> P v0 \<Longrightarrow> P v"
  by (induction rule: server_reach.induct) (auto intro: holds_step)

end

text \<open>What a step of a session does to the metrics.\<close>

lemma session_step_metrics:
  assumes "session_step env (sh, s) (sh', s')"
  shows "metrics sh' = metrics sh \<or> metrics sh' = addBlockedQueries (metrics sh) 1 \<or>
    metrics sh' = addBackendConnectErrors (metrics sh) 1"
  using assms
proof (cases rule: session_step.cases)
  case (svc_startup version ps delivered io)
  then show ?thesis
    by (auto simp: serviceStartup_def Let_def split: option.splits sum.splits prod.splits)
next
  case svc_wake
  then show ?thesis by (auto simp: serviceCleanup_def split: option.splits)
next
  case (inc_apply m)
  then show ?thesis by (auto simp: incApply_def Let_def split: sum.splits)
next
  case (rsp_switch m)
  then show ?thesis by (auto simp: rspSwitch_def Let_def split: option.splits backend_msg.splits if_splits)
qed auto

definition connCounters :: "Metrics option \<Rightarrow> (int64 \<times> int64 \<times> int64 \<times> int64) option" where
  "connCounters = map_option (\<lambda>m. (TotalConnections m, ActiveConnections m, RejectedByACL m, RejectedByMaxConnections m))"

lemma session_step_connCounters:
  assumes "session_step env (sh, s) (sh', s')"
  shows "connCounters (metrics sh') = connCounters (metrics sh)"
  using session_step_metrics [OF assms]
  by (auto simp: connCounters_def addBlockedQueries_def addBackendConnectErrors_def split: option.splits)

section \<open>Counting sessions\<close>

definition counted :: "'f proc \<Rightarrow> bool" where
  "counted p = (case procPc p of PRun \<Rightarrow> True | PDelete \<Rightarrow> True | PActive \<Rightarrow> True | _ \<Rightarrow> False)"

definition starting :: "accept_pc \<Rightarrow> nat" where
  "starting pc = (case pc of ASpawn conn raddr cid \<Rightarrow> 1 | _ \<Rightarrow> 0)"

text \<open>The sessions the counter stands for: not yet past their decrement, and the one being started.\<close>

definition activeSessions :: "'f server \<Rightarrow> nat" where
  "activeSessions v = length (filter counted (procs v)) + starting (acceptPc v)"

definition inAdmission :: "accept_pc \<Rightarrow> bool" where
  "inAdmission pc = (case pc of AAccept \<Rightarrow> False | ADone \<Rightarrow> False | _ \<Rightarrow> True)"

definition cap :: "'f server_conf \<Rightarrow> int" where
  "cap c = sint (cfgMaxConnections (srvCfg c))"

definition pastLimit :: "accept_pc \<Rightarrow> bool" where
  "pastLimit pc = (case pc of AStore conn raddr cid \<Rightarrow> True | AActivate conn raddr cid \<Rightarrow> True | _ \<Rightarrow> False)"

text \<open>The spawned session is counted from \<open>ASpawn\<close> to its entry in \<open>procs\<close> once.\<close>

definition capInv :: "'f server_conf \<Rightarrow> 'f server \<Rightarrow> bool" where
  "capInv c v =
     ((\<exists>m. metrics (srvShared v) = Some m \<and> ActiveConnections m = of_nat (activeSessions v) \<and>
        TotalConnections m = RejectedByACL m + RejectedByMaxConnections m + of_nat (length (procs v)) +
          (if inAdmission (acceptPc v) then 1 else 0)) \<and>
      (0 < cap c \<longrightarrow> int (activeSessions v) \<le> cap c \<and> (pastLimit (acceptPc v) \<longrightarrow> int (activeSessions v) < cap c)))"

lemma sint_of_nat_small:
  assumes "n < 2 ^ 63"
  shows "sint (of_nat n :: int64) = int n"
  using assms by (simp add: signed_of_nat signed_take_bit_int_eq_self)

lemma cap_bound: "cap c < 2 ^ 63"
  using sint_lt [of "cfgMaxConnections (srvCfg c)"] by (simp add: cap_def)

lemma counted_update:
  assumes "i < length (procs v)"
  shows "length (filter counted ((procs v)[i := p])) + (if counted (procs v ! i) then 1 else 0) =
    length (filter counted (procs v)) + (if counted p then 1 else 0)"
  using length_filter_update [OF assms] .

lemma capInv_checkMax:
  assumes "capInv c v" and "acceptPc v = AMax conn raddr cid"
  shows "capInv c (checkMax c conn raddr cid v)"
proof -
  obtain m where m: "metrics (srvShared v) = Some m" "ActiveConnections m = of_nat (activeSessions v)"
      "TotalConnections m = RejectedByACL m + RejectedByMaxConnections m + of_nat (length (procs v)) + 1"
    using assms by (auto simp: capInv_def inAdmission_def)
  have le: "0 < cap c \<longrightarrow> int (activeSessions v) \<le> cap c" using assms(1) by (simp add: capInv_def)
  show ?thesis
  proof (cases "atLimit c v")
    case True
    then show ?thesis using assms m le
      by (auto simp: capInv_def checkMax_def updMetrics_def addRejectedByMaxConnections_def activeSessions_def
          starting_def inAdmission_def pastLimit_def)
  next
    case False
    have "int (activeSessions v) < cap c" if pos: "0 < cap c"
    proof -
      have "int (activeSessions v) < 2 ^ 63" using le pos cap_bound [of c] by linarith
      then have "activeSessions v < 2 ^ 63" by simp
      then have "sint (ActiveConnections m) = int (activeSessions v)" using m(2) sint_of_nat_small by simp
      with False pos m(1) show ?thesis by (simp add: atLimit_def cap_def loadActiveConnections_def)
    qed
    with False assms m show ?thesis
      by (auto simp: capInv_def checkMax_def activeSessions_def starting_def inAdmission_def pastLimit_def)
  qed
qed

lemma capInv_procs:
  assumes "capInv c v" and "i < length (procs v)" and "counted p = counted (procs v ! i)"
    and "connCounters (metrics sh) = connCounters (metrics (srvShared v))"
  shows "capInv c (v\<lparr>srvShared := sh, procs := (procs v)[i := p]\<rparr>)"
proof -
  have "activeSessions (v\<lparr>srvShared := sh, procs := (procs v)[i := p]\<rparr>) = activeSessions v"
    using counted_update [OF assms(2), of p] assms(3) by (auto simp: activeSessions_def split: if_splits)
  moreover obtain m where "metrics (srvShared v) = Some m" "ActiveConnections m = of_nat (activeSessions v)"
      "TotalConnections m = RejectedByACL m + RejectedByMaxConnections m + of_nat (length (procs v)) +
          (if inAdmission (acceptPc v) then 1 else 0)"
    using assms(1) by (auto simp: capInv_def)
  ultimately show ?thesis
    using assms(1,4) by (auto simp: capInv_def connCounters_def)
qed

lemma capInv_procActive:
  assumes "capInv c v" and "i < length (procs v)" and "procPc (procs v ! i) = PActive"
  shows "capInv c (procActive i v)"
proof -
  obtain m where m: "metrics (srvShared v) = Some m" "ActiveConnections m = of_nat (activeSessions v)"
      "TotalConnections m = RejectedByACL m + RejectedByMaxConnections m + of_nat (length (procs v)) +
          (if inAdmission (acceptPc v) then 1 else 0)"
    using assms(1) by (auto simp: capInv_def)
  have "activeSessions (procActive i v) + 1 = activeSessions v"
    using counted_update [OF assms(2), of "(procs v ! i)\<lparr>procPc := PWg\<rparr>"] assms(3)
    by (simp add: activeSessions_def procActive_def updMetrics_def counted_def)
  then obtain n where n: "activeSessions v = n + 1" "activeSessions (procActive i v) = n" by simp
  have fields: "metrics (srvShared (procActive i v)) = Some (m\<lparr>ActiveConnections := ActiveConnections m - 1\<rparr>)"
      "length (procs (procActive i v)) = length (procs v)" "acceptPc (procActive i v) = acceptPc v"
    using m(1) by (simp_all add: procActive_def updMetrics_def addActiveConnections_def)
  show ?thesis
    using m assms(1) unfolding capInv_def fields n by (auto simp: n(1))
qed

lemma capInv_step:
  assumes "server_step c H v v'" and "capInv c v"
  shows "capInv c v'"
  using assms(1)
proof (cases rule: server_step_cases)
  case (check_max conn raddr cid)
  then show ?thesis using capInv_checkMax [OF assms(2)] by simp
next
  case (session i sh s)
  then show ?thesis
    using capInv_procs [OF assms(2), of i "(procs v ! i)\<lparr>procSession := s\<rparr>" sh]
      session_step_connCounters [OF session(4)]
    by (simp add: runSession_def counted_def)
next
  case (proc_return i)
  then show ?thesis
    using capInv_procs [OF assms(2), of i "(procs v ! i)\<lparr>procPc := PDelete\<rparr>" "srvShared v"]
    by (simp add: procReturn_def counted_def)
next
  case (proc_delete i)
  then show ?thesis
    using capInv_procs [OF assms(2), of i "(procs v ! i)\<lparr>procPc := PActive\<rparr>" "srvShared v"]
    by (auto simp: procDelete_def counted_def capInv_def activeSessions_def)
next
  case (proc_active i)
  then show ?thesis using capInv_procActive [OF assms(2)] by simp
next
  case (proc_wg i)
  then show ?thesis
    using capInv_procs [OF assms(2), of i "(procs v ! i)\<lparr>procPc := PGone\<rparr>" "srvShared v"]
    by (auto simp: procWg_def counted_def capInv_def activeSessions_def)
next
  case stop_force
  have "filter counted (map (\<lambda>p. if procID p \<in> X then p\<lparr>procSession := g p\<rparr> else p) ps) =
      map (\<lambda>p. if procID p \<in> X then p\<lparr>procSession := g p\<rparr> else p) (filter counted ps)"
    for X and g :: "'a proc \<Rightarrow> 'a session" and ps
    by (induction ps) (auto simp: counted_def)
  then show ?thesis
    using stop_force assms(2) by (auto simp: stopForce_def capInv_def activeSessions_def)
qed (use assms(2) in \<open>auto simp: acceptConn_def checkACL_def storeSession_def activate_def spawn_def stopCall_def
    stopListener_def stopReturn_def capInv_def activeSessions_def starting_def inAdmission_def pastLimit_def counted_def
    updMetrics_def addTotalConnections_def addRejectedByACL_def addActiveConnections_def Let_def
    split: option.splits sum.splits prod.splits if_splits\<close>)

interpretation counters: server_invariant c H "capInv c" for c H
  by unfold_locales (rule capInv_step)

section \<open>The wait group\<close>

text \<open>Every session goroutine runs \<open>service\<close> to its end before its deferred calls.\<close>

definition wgInv :: "'f server \<Rightarrow> bool" where
  "wgInv v =
     (wg v = length (filter (\<lambda>p. procPc p \<noteq> PGone) (procs v)) + (if acceptPc v = ADone then 0 else 1) \<and>
      (stopPc v = StReturned \<longrightarrow> wg v = 0) \<and>
      list_all (\<lambda>p. procPc p \<noteq> PRun \<longrightarrow> svc (procSession p) = SvcDone) (procs v))"

lemma session_step_done:
  assumes "session_step env (sh, s) (sh', s')" and "svc s = SvcDone"
  shows "svc s' = SvcDone"
  using assms
proof (cases rule: session_step.cases)
  case (inc_apply m)
  then have "s' = snd (incApply env m (sh, s))" by (metis snd_conv)
  with assms(2) show ?thesis by simp
qed (auto simp: rspSwitch_frames)

lemma wg_update:
  assumes "i < length (procs v)" and "(procPc p = PGone) = (procPc (procs v ! i) = PGone)"
  shows "length (filter (\<lambda>p. procPc p \<noteq> PGone) ((procs v)[i := p])) = length (filter (\<lambda>p. procPc p \<noteq> PGone) (procs v))"
  using length_filter_update [OF assms(1), of "\<lambda>p. procPc p \<noteq> PGone" p] assms(2) by (auto split: if_splits)

lemma wgInv_proc:
  assumes "wgInv v" and "i < length (procs v)" and "(procPc p = PGone) = (procPc (procs v ! i) = PGone)"
    and "procPc p \<noteq> PRun \<longrightarrow> svc (procSession p) = SvcDone"
  shows "wgInv (v\<lparr>srvShared := sh, sessions := X, procs := (procs v)[i := p]\<rparr>)"
  using assms(1,4) wg_update [OF assms(2,3)] by (auto simp: wgInv_def list_all_update)

lemma wgInv_procWg:
  assumes "wgInv v" and "i < length (procs v)" and "procPc (procs v ! i) = PWg"
  shows "wgInv (procWg i v)"
proof -
  have ended: "svc (procSession (procs v ! i)) = SvcDone"
    using assms by (auto simp: wgInv_def list_all_length)
  have "length (filter (\<lambda>p. procPc p \<noteq> PGone) ((procs v)[i := (procs v ! i)\<lparr>procPc := PGone\<rparr>])) + 1 =
      length (filter (\<lambda>p. procPc p \<noteq> PGone) (procs v))"
    using length_filter_update [OF assms(2), of "\<lambda>p. procPc p \<noteq> PGone" "(procs v ! i)\<lparr>procPc := PGone\<rparr>"] assms(3)
    by simp
  then show ?thesis
    using assms(1) ended by (auto simp: wgInv_def procWg_def list_all_update)
qed

lemma wgInv_step:
  assumes "server_step c H v v'" and "wgInv v"
  shows "wgInv v'"
  using assms(1)
proof (cases rule: server_step_cases)
  case (session i sh s)
  have "procPc (procs v ! i) \<noteq> PRun \<longrightarrow> svc s = SvcDone"
    using session assms(2) session_step_done [OF session(4)] by (auto simp: wgInv_def list_all_length)
  then show ?thesis
    using session wgInv_proc [OF assms(2), where i = i and p = "(procs v ! i)\<lparr>procSession := s\<rparr>"
        and sh = sh
        and X = "sessions v"]
    by (simp add: runSession_def)
next
  case (proc_return i)
  then show ?thesis
    using wgInv_proc [OF assms(2), where i = i and p = "(procs v ! i)\<lparr>procPc := PDelete\<rparr>"
        and sh = "srvShared v"
        and X = "sessions v"]
    by (simp add: procReturn_def)
next
  case (proc_delete i)
  then show ?thesis
    using assms(2) wgInv_proc [OF assms(2), where i = i and p = "(procs v ! i)\<lparr>procPc := PActive\<rparr>"
        and sh = "srvShared v"
        and X = "sessions v - {procID (procs v ! i)}"]
    by (auto simp: procDelete_def wgInv_def list_all_length)
next
  case (proc_active i)
  then show ?thesis
    using assms(2) wgInv_proc [OF assms(2), where i = i and p = "(procs v ! i)\<lparr>procPc := PWg\<rparr>"
        and sh = "(srvShared v)\<lparr>metrics := addActiveConnections (metrics (srvShared v)) (- 1)\<rparr>"
        and X = "sessions v"]
    by (auto simp: procActive_def updMetrics_def wgInv_def list_all_length)
next
  case (proc_wg i)
  then show ?thesis using wgInv_procWg [OF assms(2)] by simp
next
  case stop_force
  have "length (filter (\<lambda>p. procPc p \<noteq> PGone) (map (\<lambda>p. if procID p \<in> X then p\<lparr>procSession := g p\<rparr> else p) ps)) =
      length (filter (\<lambda>p. procPc p \<noteq> PGone) ps)"
    for X and g :: "'a proc \<Rightarrow> 'a session" and ps
    by (induction ps) auto
  then show ?thesis
    using stop_force assms(2) by (auto simp: stopForce_def wgInv_def list_all_iff)
qed (use assms(2) in \<open>auto simp: acceptConn_def checkACL_def checkMax_def storeSession_def activate_def spawn_def
    stopCall_def stopListener_def stopReturn_def wgInv_def updMetrics_def Let_def
    split: option.splits sum.splits prod.splits if_splits\<close>)

interpretation waitgroup: server_invariant c H wgInv for c H
  by unfold_locales (rule wgInv_step)

section \<open>The sessions of the server\<close>

definition sessionOf :: "'f server_conf \<Rightarrow> 'f set \<Rightarrow> 'f shared \<Rightarrow> 'f proc \<Rightarrow> bool" where
  "sessionOf c H sh p =
     (\<exists>conn raddr.
        session_reach (srvEnv c) H
          (newSession conn (procID p) raddr (cfgTLS (srvCfg c)) (srvACL c) (cfgContextHandler (srvCfg c))
             (cfgIdleTimeout (srvCfg c)))
          (sh, procSession p))"

definition liveInv :: "'f server_conf \<Rightarrow> 'f set \<Rightarrow> 'f server \<Rightarrow> bool" where
  "liveInv c H v = (handlerState (srvShared v) \<in> H \<and> list_all (sessionOf c H (srvShared v)) (procs v))"

lemma sessionOf_other: "sessionOf c H sh p \<Longrightarrow> handlerState sh' \<in> H \<Longrightarrow> sessionOf c H sh' p"
  unfolding sessionOf_def using session_reach.other by blast

lemma sessionOf_all: "list_all (sessionOf c H sh) ps \<Longrightarrow> handlerState sh' \<in> H \<Longrightarrow> list_all (sessionOf c H sh') ps"
  by (auto simp: list_all_iff intro: sessionOf_other)

lemma sessionOf_pc: "sessionOf c H sh (p\<lparr>procPc := pc\<rparr>) = sessionOf c H sh p"
  by (simp add: sessionOf_def)

lemma sessionOf_new:
  "handlerState sh \<in> H \<Longrightarrow> sessionOf c H sh
     \<lparr>procID = cid, procSession = newSession conn cid raddr (cfgTLS (srvCfg c)) (srvACL c)
        (cfgContextHandler (srvCfg c)) (cfgIdleTimeout (srvCfg c)), procPc = PRun\<rparr>"
  by (auto simp: sessionOf_def intro: session_reach.start)

lemma sessionOf_forced:
  "sessionOf c H sh p \<Longrightarrow> sessionOf c H sh (p\<lparr>procSession := (procSession p)\<lparr>lclosed := True\<rparr>\<rparr>)"
  by (auto simp: sessionOf_def intro: session_reach.forced)

lemma session_step_handlerState:
  assumes "session_step env (sh, s) (sh', s')"
  shows "handlerState sh' = handlerState sh"
  using assms
  by (cases rule: session_step.cases)
     (auto simp: serviceStartup_def serviceCleanup_def incApply_def rspSwitch_def Let_def
       split: option.splits sum.splits prod.splits backend_msg.splits if_splits)

lemma sessionOf_step:
  assumes "sessionOf c H sh p" and "session_step (srvEnv c) (sh, procSession p) (sh', s')"
  shows "sessionOf c H sh' (p\<lparr>procSession := s'\<rparr>)"
  using assms unfolding sessionOf_def by (auto intro: session_reach.step)

lemma liveInv_same:
  "liveInv c H v \<Longrightarrow> procs v' = procs v \<Longrightarrow> handlerState (srvShared v') \<in> H \<Longrightarrow> liveInv c H v'"
  by (auto simp: liveInv_def intro: sessionOf_all)

lemma liveInv_proc:
  assumes "liveInv c H v" and "i < length (procs v)" and "procs v' = (procs v)[i := (procs v ! i)\<lparr>procPc := pc\<rparr>]"
    and "handlerState (srvShared v') = handlerState (srvShared v)"
  shows "liveInv c H v'"
proof -
  have "list_all (sessionOf c H (srvShared v')) (procs v)"
    using assms(1,4) sessionOf_all [of c H "srvShared v" "procs v" "srvShared v'"] by (simp add: liveInv_def)
  then show ?thesis
    using assms by (auto simp: liveInv_def sessionOf_pc list_all_length nth_list_update)
qed

lemma liveInv_step:
  assumes "server_step c H v v'" and "liveInv c H v"
  shows "liveInv c H v'"
  using assms(1)
proof (cases rule: server_step_cases)
  case (session i sh s)
  have h: "handlerState sh \<in> H"
    using session_step_handlerState [OF session(4)] assms(2) by (simp add: liveInv_def)
  have "sessionOf c H sh ((procs v ! i)\<lparr>procSession := s\<rparr>)"
    using sessionOf_step [OF _ session(4)] assms(2) session(3) by (simp add: liveInv_def list_all_length)
  moreover have "list_all (sessionOf c H sh) (procs v)"
    using sessionOf_all [of c H "srvShared v" "procs v" sh] h assms(2) by (simp add: liveInv_def)
  ultimately show ?thesis
    using session h by (simp add: liveInv_def runSession_def list_all_update)
next
  case (spawned conn raddr cid)
  then show ?thesis
    using assms(2) sessionOf_new [of "srvShared v" H c cid conn raddr]
      sessionOf_forced [OF sessionOf_new [of "srvShared v" H c cid conn raddr]]
    by (auto simp: liveInv_def spawn_def Let_def)
next
  case stop_force
  then show ?thesis
    using assms(2) by (auto simp: liveInv_def stopForce_def list_all_iff intro: sessionOf_forced)
next
  case (proc_return i)
  then show ?thesis using liveInv_proc [OF assms(2), of i v'] by (simp add: procReturn_def)
next
  case (proc_delete i)
  then show ?thesis using liveInv_proc [OF assms(2), of i v'] by (simp add: procDelete_def)
next
  case (proc_active i)
  then show ?thesis using liveInv_proc [OF assms(2), of i v'] by (simp add: procActive_def updMetrics_def)
next
  case (proc_wg i)
  then show ?thesis using liveInv_proc [OF assms(2), of i v'] by (simp add: procWg_def)
next
  case (handler_state f)
  then show ?thesis by (intro liveInv_same [OF assms(2)]) auto
qed (use assms(2) in \<open>auto intro: sessionOf_all simp: liveInv_def acceptConn_def checkACL_def checkMax_def
    storeSession_def activate_def stopCall_def stopListener_def stopReturn_def updMetrics_def Let_def
    split: option.splits sum.splits prod.splits if_splits\<close>)

interpretation live: server_invariant c H "liveInv c H" for c H
  by unfold_locales (rule liveInv_step)

section \<open>The cancel registry\<close>

text \<open>The backend of a session issued a key for it: its target is what the registry should hold.\<close>

definition issued :: "cancelKey \<Rightarrow> backendSession \<Rightarrow> 'f session \<Rightarrow> bool" where
  "issued k x s =
     (\<exists>processID sec. BackendKeyData processID sec \<in> set (gotBackend s) \<and> 4 \<le> length sec \<and>
        k = \<lparr>pid = processID, secret = take 4 sec\<rparr> \<and> x = \<lparr>sessTarget = backendTgt s, secretKey = take 4 sec\<rparr>)"

lemma rspRecv_gotBackend: "set (gotBackend s) \<subseteq> set (gotBackend (rspRecv env fr s))"
  by (auto simp: rspRecv_def split: sum.split)

lemma rspSwitch_gotBackend: "rspSwitch m (sh, s) = Some (sh', s') \<Longrightarrow> gotBackend s' = gotBackend s"
  by (auto simp: rspSwitch_def Let_def split: option.splits backend_msg.splits if_splits)

lemma issued_step:
  assumes "session_step env (sh, s) (sh', s')" and "phaseInv s" and "issued k x s"
  shows "issued k x s'"
proof -
  have nonempty: "gotBackend s \<noteq> []" using assms(3) by (auto simp: issued_def)
  have keep: "set (gotBackend s) \<subseteq> set (gotBackend s') \<and> backendTgt s' = backendTgt s"
    using assms(1)
  proof (cases rule: session_step.cases)
    case (svc_startup version ps delivered io)
    with nonempty assms(2) show ?thesis by (auto simp: phaseInv_def preparing_def)
  next
    case svc_wake
    then have "s' = snd (serviceCleanup (sh, s))" by (metis snd_conv)
    then show ?thesis by simp
  next
    case (inc_apply m)
    then have "s' = snd (incApply env m (sh, s))" by (metis snd_conv)
    then show ?thesis by simp
  qed (auto simp: serviceRead_frames rspSwitch_frames rspSwitch_gotBackend rspKey_def rspWrite_def
      dest: rspRecv_gotBackend [THEN subsetD] split: option.splits)
  with assms(3) show ?thesis by (auto simp: issued_def)
qed

lemma registry_step:
  assumes "session_step env (sh, s) (sh', s')" and "txInv s" and "cancelRegistry sh' k = Some x"
  shows "cancelRegistry sh k = Some x \<or> issued k x s'"
  using assms(1)
proof (cases rule: session_step.cases)
  case (svc_startup version ps delivered io)
  then have "serviceStartup env io delivered version ps (sh, s) = (sh', s')" by simp
  then have "cancelRegistry sh' = cancelRegistry sh"
    by (auto simp: serviceStartup_def Let_def split: option.splits sum.splits prod.splits)
  with assms(3) show ?thesis by simp
next
  case svc_wake
  with assms(3) show ?thesis by (auto simp: serviceCleanup_def split: option.splits if_splits)
next
  case (inc_apply m)
  with assms(3) show ?thesis by (auto simp: incApply_def Let_def split: sum.splits)
next
  case (rsp_switch m)
  then have "m \<in> set (gotBackend s)" using assms(2) by (auto simp: txInv_def)
  with rsp_switch assms(3) show ?thesis
    by (auto simp: rspSwitch_def array4_def authTypeOf_def issued_def Let_def
        split: option.splits backend_msg.splits if_splits)
qed (use assms(3) in auto)

definition registryInv :: "'f server_conf \<Rightarrow> 'f set \<Rightarrow> 'f server \<Rightarrow> bool" where
  "registryInv c H v =
     (liveInv c H v \<and>
      (\<forall>k x. cancelRegistry (srvShared v) k = Some x \<longrightarrow> (\<exists>p \<in> set (procs v). issued k x (procSession p))))"

lemma liveInv_session:
  assumes "liveInv c H v" and "i < length (procs v)"
  shows "phaseInv (procSession (procs v ! i))" and "txInv (procSession (procs v ! i))"
proof -
  from assms obtain conn raddr where
    "session_reach (srvEnv c) H
       (newSession conn (procID (procs v ! i)) raddr (cfgTLS (srvCfg c)) (srvACL c) (cfgContextHandler (srvCfg c))
          (cfgIdleTimeout (srvCfg c))) (srvShared v, procSession (procs v ! i))"
    by (auto simp: liveInv_def list_all_length sessionOf_def)
  from session.reach_holds [OF this] show "phaseInv (procSession (procs v ! i))" "txInv (procSession (procs v ! i))"
    by (simp_all add: sessionInv_def checkInv_def)
qed

lemma issued_lclosed [simp]: "issued k x (s\<lparr>lclosed := b\<rparr>) = issued k x s"
  by (simp add: issued_def)

lemma registryInv_session:
  assumes "registryInv c H v" and "i < length (procs v)"
    and step: "session_step (srvEnv c) (srvShared v, procSession (procs v ! i)) (sh, s)"
    and "cancelRegistry sh k = Some x"
  shows "\<exists>p \<in> set ((procs v)[i := (procs v ! i)\<lparr>procSession := s\<rparr>]). issued k x (procSession p)"
proof -
  let ?ps = "(procs v)[i := (procs v ! i)\<lparr>procSession := s\<rparr>]"
  have inv: "phaseInv (procSession (procs v ! i))" "txInv (procSession (procs v ! i))"
    using liveInv_session assms(1,2) by (auto simp: registryInv_def)
  have at_i: "\<exists>p \<in> set ?ps. issued k x (procSession p)" if "issued k x s"
    using that assms(2) by (intro bexI [of _ "(procs v ! i)\<lparr>procSession := s\<rparr>"]) (auto simp: set_update_memI)
  from registry_step [OF step inv(2) assms(4)] show ?thesis
  proof
    assume "cancelRegistry (srvShared v) k = Some x"
    then obtain q where "q \<in> set (procs v)" "issued k x (procSession q)"
      using assms(1) by (auto simp: registryInv_def)
    then obtain j where j: "j < length (procs v)" "issued k x (procSession (procs v ! j))"
      by (auto simp: in_set_conv_nth)
    show ?thesis
    proof (cases "j = i")
      case True
      then show ?thesis using at_i issued_step [OF step inv(1)] j(2) by simp
    next
      case False
      then have "?ps ! j = procs v ! j" by simp
      then show ?thesis using j by (metis length_list_update nth_mem)
    qed
  qed (rule at_i)
qed

lemma registryInv_procs:
  assumes "registryInv c H v" and "liveInv c H v'" and "cancelRegistry (srvShared v') = cancelRegistry (srvShared v)"
    and "\<And>p. p \<in> set (procs v) \<Longrightarrow> \<exists>p' \<in> set (procs v'). \<forall>k x. issued k x (procSession p) \<longrightarrow> issued k x (procSession p')"
  shows "registryInv c H v'"
  using assms unfolding registryInv_def by metis

lemma update_covers:
  assumes "i < length ps" and "p \<in> set ps" and "procSession q = procSession (ps ! i)"
  shows "\<exists>p' \<in> set (ps[i := q]). \<forall>k x. issued k x (procSession p) \<longrightarrow> issued k x (procSession p')"
proof -
  from assms(2) obtain j where "j < length ps" "p = ps ! j" by (auto simp: in_set_conv_nth)
  then have "procSession (ps[i := q] ! j) = procSession p" "j < length (ps[i := q])"
    using assms(1,3) by (simp_all add: nth_list_update)
  then show ?thesis by (metis nth_mem)
qed

lemma registryInv_step:
  assumes "server_step c H v v'" and "registryInv c H v"
  shows "registryInv c H v'"
proof -
  have live: "liveInv c H v'" using liveInv_step [OF assms(1)] assms(2) by (simp add: registryInv_def)
  note procs = registryInv_procs [OF assms(2) live]
  from assms(1) show ?thesis
  proof (cases rule: server_step_cases)
    case (session i sh s)
    then show ?thesis
      using live registryInv_session [OF assms(2) session(3,4)] by (auto simp: registryInv_def runSession_def)
  next
    case (proc_return i)
    then show ?thesis by (intro procs) (auto simp: procReturn_def intro: update_covers)
  next
    case (proc_delete i)
    then show ?thesis by (intro procs) (auto simp: procDelete_def intro: update_covers)
  next
    case (proc_active i)
    then show ?thesis by (intro procs) (auto simp: procActive_def updMetrics_def intro: update_covers)
  next
    case (proc_wg i)
    then show ?thesis by (intro procs) (auto simp: procWg_def intro: update_covers)
  next
    case stop_force
    show ?thesis
    proof (rule procs)
      fix p assume p: "p \<in> set (procs v)"
      let ?g = "\<lambda>p. if procID p \<in> sessions v then p\<lparr>procSession := (procSession p)\<lparr>lclosed := True\<rparr>\<rparr> else p"
      have "?g p \<in> set (procs v')" using stop_force p by (auto simp: stopForce_def)
      moreover have "\<forall>k x. issued k x (procSession p) \<longrightarrow> issued k x (procSession (?g p))" by simp
      ultimately show "\<exists>p' \<in> set (procs v'). \<forall>k x. issued k x (procSession p) \<longrightarrow> issued k x (procSession p')"
        by blast
    qed (simp add: stop_force stopForce_def)
  qed (intro procs; force simp: acceptConn_def checkACL_def checkMax_def storeSession_def activate_def spawn_def
      stopCall_def stopListener_def stopReturn_def updMetrics_def Let_def
      split: option.splits sum.splits prod.splits if_splits)+
qed

interpretation cancels: server_invariant c H "registryInv c H" for c H
  by unfold_locales (rule registryInv_step)

section \<open>Addresses\<close>

definition admittedPeer :: "'f server_conf \<Rightarrow> accept_pc \<Rightarrow> bool" where
  "admittedPeer c pc =
     (case pc of
        AMax conn raddr cid \<Rightarrow> checkAddr (srvACL c) raddr = None
      | AStore conn raddr cid \<Rightarrow> checkAddr (srvACL c) raddr = None
      | AActivate conn raddr cid \<Rightarrow> checkAddr (srvACL c) raddr = None
      | ASpawn conn raddr cid \<Rightarrow> checkAddr (srvACL c) raddr = None
      | _ \<Rightarrow> True)"

text \<open>A session is started only for a client whose address passed the check.\<close>

definition addrInv :: "'f server_conf \<Rightarrow> 'f server \<Rightarrow> bool" where
  "addrInv c v =
     (list_all (\<lambda>p. checkAddr (srvACL c) (remoteAddr (procSession p)) = None) (procs v) \<and> admittedPeer c (acceptPc v))"

lemma op_remoteAddr:
  "remoteAddr (incDrain s) = remoteAddr s" "remoteAddr (incRecv env fr s) = remoteAddr s"
  "remoteAddr (incBlocked env d m he s) = remoteAddr s" "remoteAddr (incLoadTx s) = remoteAddr s"
  "remoteAddr (incReady env d c s) = remoteAddr s" "remoteAddr (incWrite w m b s) = remoteAddr s"
  "remoteAddr (rspRecv env fr s) = remoteAddr s" "remoteAddr (rspKey k bm s) = remoteAddr s"
  "remoteAddr (rspWrite env w bm s) = remoteAddr s" "remoteAddr (snd (incApply env m (sh, s))) = remoteAddr s"
  by (auto simp: incDrain_def incRecv_def incBlocked_def incLoadTx_def incReady_def incWrite_def rspRecv_def
      rspKey_def rspWrite_def incApply_def Let_def split: list.split sum.split option.split)

lemma session_step_remoteAddr:
  assumes "session_step env (sh, s) (sh', s')"
  shows "remoteAddr s' = remoteAddr s"
  using assms
proof (cases rule: session_step.cases)
  case (svc_startup version ps delivered io)
  then have "serviceStartup env io delivered version ps (sh, s) = (sh', s')" by simp
  then show ?thesis by (cases rule: serviceStartup_cases) simp_all
next
  case svc_wake
  then have "s' = snd (serviceCleanup (sh, s))" by (metis snd_conv)
  then show ?thesis by simp
next
  case (inc_apply m)
  then have "s' = snd (incApply env m (sh, s))" by (metis snd_conv)
  then show ?thesis by (simp add: op_remoteAddr)
next
  case (rsp_switch m)
  then show ?thesis by (auto simp: rspSwitch_def Let_def split: option.splits backend_msg.splits if_splits)
qed (auto simp: op_remoteAddr serviceRead_frames)

lemma addrInv_proc:
  assumes "addrInv c v" and "i < length (procs v)" and "procs v' = (procs v)[i := p]"
    and "remoteAddr (procSession p) = remoteAddr (procSession (procs v ! i))" and "acceptPc v' = acceptPc v"
  shows "addrInv c v'"
  using assms by (simp add: addrInv_def list_all_length nth_list_update)

lemma addrInv_step:
  assumes "server_step c H v v'" and "addrInv c v"
  shows "addrInv c v'"
  using assms(1)
proof (cases rule: server_step_cases)
  case (session i sh s)
  then show ?thesis
    using addrInv_proc [OF assms(2) session(3), of v'] session_step_remoteAddr [OF session(4)]
    by (simp add: runSession_def)
next
  case (proc_return i)
  then show ?thesis using addrInv_proc [OF assms(2), of i v'] by (simp add: procReturn_def)
next
  case (proc_delete i)
  then show ?thesis using addrInv_proc [OF assms(2), of i v'] by (simp add: procDelete_def)
next
  case (proc_active i)
  then show ?thesis using addrInv_proc [OF assms(2), of i v'] by (simp add: procActive_def updMetrics_def)
next
  case (proc_wg i)
  then show ?thesis using addrInv_proc [OF assms(2), of i v'] by (simp add: procWg_def)
next
  case stop_force
  then show ?thesis using assms(2) by (auto simp: addrInv_def stopForce_def list_all_iff)
qed (use assms(2) in \<open>auto simp: acceptConn_def checkACL_def checkMax_def storeSession_def activate_def spawn_def
    stopCall_def stopListener_def stopReturn_def addrInv_def admittedPeer_def updMetrics_def newSession_def Let_def
    split: option.splits sum.splits prod.splits if_splits\<close>)

interpretation addresses: server_invariant c H "addrInv c" for c H
  by unfold_locales (rule addrInv_step)

section \<open>A server that was started\<close>

text \<open>
  The metrics \<open>Start\<close> is given are fresh: none, or all zero. The interface every property below
  starts from: what \<open>Start\<close> returns satisfies the invariants.
\<close>

definition freshMetrics :: "'f Option list \<Rightarrow> bool" where
  "freshMetrics opts = (cfgMetrics (applyOptions opts) = None \<or> cfgMetrics (applyOptions opts) = Some zeroMetrics)"

lemma Start_inits:
  assumes "Start io env reg cid f host opts = (acts, Inr (c, v0))"
  shows "freshMetrics opts \<Longrightarrow> capInv c v0" and "wgInv v0"
    and "f \<in> H \<Longrightarrow> liveInv c H v0" and "f \<in> H \<Longrightarrow> reg = Map.empty \<Longrightarrow> registryInv c H v0"
    and "srvEnv c = env" and "srvCfg c = applyOptions opts" and "addrInv c v0" and "compileACL (cfgACL (applyOptions opts)) = Inr (srvACL c)"
  using assms
  by (auto simp: Start_def Let_def freshMetrics_def capInv_def wgInv_def liveInv_def registryInv_def zeroMetrics_def
      addrInv_def admittedPeer_def activeSessions_def starting_def inAdmission_def pastLimit_def split: sum.splits prod.splits option.splits)

text \<open>Allowing the handler more states allows the server more, and its own steps keep the state.\<close>

lemma server_reach_mono:
  "server_reach c H v0 v \<Longrightarrow> H \<subseteq> H' \<Longrightarrow> server_reach c H' v0 v"
proof (induction rule: server_reach.induct)
  case (step v v')
  from step.hyps(2) step.prems have "server_step c H' v v'"
    by (cases rule: server_step.cases) (auto intro: server_step.intros)
  with step show ?case by (blast intro: server_reach.step)
qed (rule server_reach.start)

lemma internal_reach:
  "(server_internal c)\<^sup>*\<^sup>* v v' \<Longrightarrow> server_reach c H v0 v \<Longrightarrow> server_reach c H v0 v'"
  by (induction rule: rtranclp_induct) (auto intro: server_reach.step server_step.internal)

lemma server_internal_keeps:
  assumes "server_internal c v v'"
  shows "handlerState (srvShared v') = handlerState (srvShared v) \<and> stopping v' = stopping v"
  using assms
proof (cases rule: server_internal.cases)
  case (i_session i sh s)
  then show ?thesis using session_step_handlerState [OF i_session(4)] by (simp add: runSession_def)
qed (auto simp: acceptConn_def checkACL_def checkMax_def storeSession_def activate_def spawn_def procReturn_def
    procDelete_def procActive_def procWg_def stopListener_def stopForce_def stopReturn_def updMetrics_def Let_def
    split: option.splits sum.splits prod.splits if_splits)

text \<open>
  C8. When \<open>Start\<close> is given no metrics or fresh ones, then under every interleaving the
  active-connections counter is the number of sessions admitted
  and not yet finished, which never exceeds a positive connection limit, and every connection
  accepted was refused by the ACL, refused by the limit, started, or is being looked at.
\<close>

theorem connection_limit_holds:
  assumes "Start io env reg cid f host opts = (acts, Inr (c, v0))" and "freshMetrics opts"
    and "server_reach c H v0 v"
  shows "\<exists>m. metrics (srvShared v) = Some m \<and> ActiveConnections m = of_nat (activeSessions v) \<and>
    length (filter (\<lambda>p. procPc p = PRun) (procs v)) \<le> activeSessions v \<and>
    (sint (cfgMaxConnections (applyOptions opts)) \<le> 0 \<or>
     int (activeSessions v) \<le> sint (cfgMaxConnections (applyOptions opts))) \<and>
    TotalConnections m = RejectedByACL m + RejectedByMaxConnections m + of_nat (length (procs v)) +
      (if inAdmission (acceptPc v) then 1 else 0)"
proof -
  have "capInv c v" using counters.reach_holds [OF assms(3)] Start_inits(1) [OF assms(1,2)] by blast
  moreover have "length (filter (\<lambda>p. procPc p = PRun) ps) \<le> length (filter counted ps)" for ps :: "'a proc list"
    by (induction ps) (auto simp: counted_def)
  then have "length (filter (\<lambda>p. procPc p = PRun) (procs v)) \<le> activeSessions v"
    by (simp add: activeSessions_def trans_le_add1)
  ultimately show ?thesis
    using Start_inits(6) [OF assms(1)] by (auto simp: capInv_def cap_def)
qed

text \<open>A server on a TCP port that accepts one client.\<close>

definition demoListen :: listen_env where
  "demoListen = \<lparr>activationListeners = Inr [], stat = (\<lambda>p. StatNotExist), dialAnswers = (\<lambda>p. False),
     removeFile = (\<lambda>p. Removed), listenOn = (\<lambda>n h. Inr h)\<rparr>"

definition demoConf :: "'f stateful_handler \<Rightarrow> 'f Option list \<Rightarrow> 'f server_conf" where
  "demoConf h opts = \<lparr>srvEnv = demoEnv h, srvCfg = applyOptions opts, srvACL = None\<rparr>"

definition demoServer :: "'f \<Rightarrow> 'f server" where
  "demoServer f = \<lparr>srvShared = demoShared f, connid = 0, sessions = {}, procs = [], wg = 1, stopping = False,
     listening = True, acceptPc = AAccept, stopPc = StIdle, forceClosed = {}, rejections = []\<rparr>"

text \<open>Options that leave the rest at its default: a limit of at most one connection, fresh metrics.\<close>

definition plainOptions :: "'f Option list \<Rightarrow> bool" where
  "plainOptions opts =
     (freshMetrics opts \<and> cfgACL (applyOptions opts) = None \<and> cfgTLS (applyOptions opts) = None \<and>
      cfgContextHandler (applyOptions opts) = None \<and> cfgIdleTimeout (applyOptions opts) = 0 \<and>
      (cfgMaxConnections (applyOptions opts) = 0 \<or> cfgMaxConnections (applyOptions opts) = 1))"

lemma plainOptions_examples: "plainOptions [WithMaxConnections 1]" "plainOptions [WithMetrics (Some zeroMetrics)]"
  by (simp_all add: plainOptions_def freshMetrics_def applyOptions_def option_defs zeroStartConfig_def)

lemma plain_fresh: "plainOptions opts \<Longrightarrow> freshMetrics opts"
  by (simp add: plainOptions_def)

lemma demo_start:
  assumes "plainOptions opts"
  shows "Start demoListen (demoEnv h) Map.empty 0 f '':6432'' opts =
     ([Listen ''tcp'' '':6432''], Inr (demoConf h opts, demoServer f))"
  using assms
  by (auto simp: Start_def getListener_def demoListen_def demoConf_def demoServer_def demoShared_def
      plainOptions_def freshMetrics_def compileACL_def Let_def)

text \<open>A client that is admitted: the steps of the accept loop up to its session.\<close>

definition admit :: "'f server_conf \<Rightarrow> net_conn \<Rightarrow> string \<Rightarrow> 'f server \<Rightarrow> 'f server" where
  "admit c conn raddr v =
     (let cid = connid v + 1 in
      spawn c conn raddr cid (activate conn raddr cid (storeSession conn raddr cid
        (checkMax c conn raddr cid (checkACL c conn raddr cid (acceptConn (Inr (conn, raddr)) v))))))"

lemma admit_steps:
  assumes "\<not> panicked (srvShared v)" and "acceptPc v = AAccept" and "listening v"
    and acl: "checkAddr (srvACL c) raddr = None"
    and lim: "\<not> atLimit c (checkACL c conn raddr (connid v + 1) (acceptConn (Inr (conn, raddr)) v))"
    and open_: "forceClosed v = {}"
  shows "(server_internal c)\<^sup>*\<^sup>* v (admit c conn raddr v)"
    and "procs (admit c conn raddr v) = procs v @
      [\<lparr>procID = connid v + 1, procSession = newSession conn (connid v + 1) raddr (cfgTLS (srvCfg c)) (srvACL c)
          (cfgContextHandler (srvCfg c)) (cfgIdleTimeout (srvCfg c)), procPc = PRun\<rparr>]"
    and "panicked (srvShared (admit c conn raddr v)) = panicked (srvShared v)"
    and "handlerState (srvShared (admit c conn raddr v)) = handlerState (srvShared v)"
proof -
  let ?n = "connid v + 1"
  let ?v1 = "acceptConn (Inr (conn, raddr)) v"
  let ?v2 = "checkACL c conn raddr ?n ?v1"
  let ?v3 = "checkMax c conn raddr ?n ?v2"
  let ?v4 = "storeSession conn raddr ?n ?v3"
  let ?v5 = "activate conn raddr ?n ?v4"
  note defs = acceptConn_def checkACL_def checkMax_def storeSession_def activate_def updMetrics_def Let_def
  have np: "\<not> panicked (srvShared ?v1)" "\<not> panicked (srvShared ?v2)" "\<not> panicked (srvShared ?v3)"
      "\<not> panicked (srvShared ?v4)" "\<not> panicked (srvShared ?v5)"
    using assms by (simp_all add: defs)
  have pc: "acceptPc ?v1 = ACheck conn raddr ?n" "acceptPc ?v2 = AMax conn raddr ?n"
      "acceptPc ?v4 = AActivate conn raddr ?n" "acceptPc ?v5 = ASpawn conn raddr ?n"
    using acl by (simp_all add: defs)
  have pc3: "acceptPc ?v3 = AStore conn raddr ?n" using lim by (simp add: checkMax_def)
  have "server_internal c v ?v1" by (rule i_accept_ok [OF assms(1,2,3)])
  moreover have "server_internal c ?v1 ?v2" by (rule i_check_acl [OF np(1) pc(1)])
  moreover have "server_internal c ?v2 ?v3" by (rule i_check_max [OF np(2) pc(2)])
  moreover have "server_internal c ?v3 ?v4" by (rule i_store [OF np(3) pc3])
  moreover have "server_internal c ?v4 ?v5" by (rule i_activated [OF np(4) pc(3)])
  moreover have "server_internal c ?v5 (admit c conn raddr v)"
    unfolding admit_def Let_def by (rule i_spawned [OF np(5) pc(4)])
  ultimately show "(server_internal c)\<^sup>*\<^sup>* v (admit c conn raddr v)"
    by (meson converse_rtranclp_into_rtranclp rtranclp.rtrancl_refl)
  show "procs (admit c conn raddr v) = procs v @
      [\<lparr>procID = connid v + 1, procSession = newSession conn (connid v + 1) raddr (cfgTLS (srvCfg c)) (srvACL c)
          (cfgContextHandler (srvCfg c)) (cfgIdleTimeout (srvCfg c)), procPc = PRun\<rparr>]"
    "panicked (srvShared (admit c conn raddr v)) = panicked (srvShared v)"
    "handlerState (srvShared (admit c conn raddr v)) = handlerState (srvShared v)"
    using acl open_ by (simp_all add: admit_def spawn_def defs)
qed

definition demoAccepted :: "'f server_conf \<Rightarrow> 'f \<Rightarrow> 'f server" where
  "demoAccepted c f = admit c (NetConn 7) ''10.1.2.3:4711'' (demoServer f)"

lemma demo_not_at_limit:
  assumes "cfgMaxConnections (srvCfg c) = 0 \<or> cfgMaxConnections (srvCfg c) = 1"
  shows "\<not> atLimit c (checkACL c conn raddr n (acceptConn (Inr (conn', raddr')) (demoServer f)))"
  using assms
  by (auto simp: atLimit_def checkACL_def acceptConn_def demoServer_def updMetrics_def Let_def demoShared_def
      zeroMetrics_def addTotalConnections_def addRejectedByACL_def loadActiveConnections_def split: option.split)

lemma demo_accepted:
  assumes plain: "plainOptions opts" and c: "c = demoConf h opts"
  shows "(server_internal c)\<^sup>*\<^sup>* (demoServer f) (demoAccepted c f)"
    and "procs (demoAccepted c f) = [\<lparr>procID = 1, procSession = demoStart, procPc = PRun\<rparr>]"
    and "\<not> panicked (srvShared (demoAccepted c f))" and "handlerState (srvShared (demoAccepted c f)) = f"
proof -
  have fc: "forceClosed (demoServer f) = {}" by (simp add: demoServer_def)
  have v: "\<not> panicked (srvShared (demoServer f))" "acceptPc (demoServer f) = AAccept" "listening (demoServer f)"
      "checkAddr (srvACL c) ''10.1.2.3:4711'' = None" "connid (demoServer f) = 0" "procs (demoServer f) = []"
      "handlerState (srvShared (demoServer f)) = f"
    by (simp_all add: demoServer_def c demoConf_def checkAddr_def)
  have "cfgMaxConnections (srvCfg c) = 0 \<or> cfgMaxConnections (srvCfg c) = 1"
    using plain by (simp add: c demoConf_def plainOptions_def)
  note adm = admit_steps [OF v(1-4) demo_not_at_limit [OF this] fc, where conn = "NetConn 7", folded demoAccepted_def]
  show "(server_internal c)\<^sup>*\<^sup>* (demoServer f) (demoAccepted c f)" by (rule adm(1))
  show "procs (demoAccepted c f) = [\<lparr>procID = 1, procSession = demoStart, procPc = PRun\<rparr>]"
    using adm(2) plain v by (simp add: c demoConf_def plainOptions_def demoStart_def)
  show "\<not> panicked (srvShared (demoAccepted c f))" "handlerState (srvShared (demoAccepted c f)) = f"
    using adm(3,4) v by simp_all
qed

definition limitedServer :: "unit server" where
  "limitedServer = demoAccepted (demoConf passHandler [WithMaxConnections 1]) ()"

theorem connection_limit_holds_witness:
  "\<exists>m. metrics (srvShared limitedServer) = Some m \<and> ActiveConnections m = of_nat (activeSessions limitedServer) \<and>
    length (filter (\<lambda>p. procPc p = PRun) (procs limitedServer)) \<le> activeSessions limitedServer \<and>
    (sint (cfgMaxConnections (applyOptions [WithMaxConnections 1 :: unit Option])) \<le> 0 \<or>
     int (activeSessions limitedServer) \<le> sint (cfgMaxConnections (applyOptions [WithMaxConnections 1 :: unit Option]))) \<and>
    TotalConnections m = RejectedByACL m + RejectedByMaxConnections m + of_nat (length (procs limitedServer)) +
      (if inAdmission (acceptPc limitedServer) then 1 else 0)"
  unfolding limitedServer_def
  by (rule connection_limit_holds [OF demo_start [OF plainOptions_examples(1)] _
        internal_reach [OF demo_accepted(1) [OF plainOptions_examples(1) refl] server_reach.start, where H = "{()}"]])
     (rule plain_fresh [OF plainOptions_examples(1)])

lemma drained:
  assumes "Start io env reg cid f host opts = (acts, Inr (c, v0))" and "server_reach c H v0 v"
    and "stopPc v = StReturned"
  shows "acceptPc v = ADone \<and> wg v = 0 \<and>
    list_all (\<lambda>p. procPc p = PGone \<and> svc (procSession p) = SvcDone) (procs v)"
proof -
  have inv: "wgInv v" using waitgroup.reach_holds [OF assms(2)] Start_inits(2) [OF assms(1)] by blast
  then have "wg v = 0" "acceptPc v = ADone" "filter (\<lambda>p. procPc p \<noteq> PGone) (procs v) = []"
    using assms(3) by (auto simp: wgInv_def split: if_splits)
  with inv show ?thesis by (auto simp: wgInv_def list_all_iff filter_empty_conv)
qed

text \<open>
  C9. When \<open>stop\<close> returns, the accept loop has ended, and every goroutine that runs a session's
  \<open>service\<close> has returned from it and run its deferred calls. (The two relays a session starts are
  not in the wait group; they may still be on their way out.)
\<close>

theorem stop_returns_after_drain:
  assumes "Start io env reg cid f host opts = (acts, Inr (c, v0))" and "server_reach c H v0 v"
    and "stopPc v = StReturned"
  shows "acceptPc v = ADone \<and> wg v = 0 \<and>
    list_all (\<lambda>p. procPc p = PGone \<and> svc (procSession p) = SvcDone) (procs v)"
  using assms by (rule drained)

definition demoStopped :: "unit server" where
  "demoStopped = stopReturn (acceptConn (Inl EOF) (stopListener (stopCall (demoServer ()))))"

lemma demo_stopped: "server_reach (demoConf passHandler [WithMaxConnections 1]) {()} (demoServer ()) demoStopped" "stopPc demoStopped = StReturned"
proof -
  let ?v1 = "stopCall (demoServer ())"
  let ?v2 = "stopListener ?v1"
  let ?v3 = "acceptConn (Inl EOF) ?v2"
  note defs = stopCall_def stopListener_def acceptConn_def demoServer_def demoShared_def
  have "server_step (demoConf passHandler [WithMaxConnections 1]) {()} (demoServer ()) ?v1" by (rule stop_call) (simp add: defs)
  moreover have "server_step (demoConf passHandler [WithMaxConnections 1]) {()} ?v1 ?v2" by (rule stop_listener) (simp_all add: defs)
  moreover have "server_step (demoConf passHandler [WithMaxConnections 1]) {()} ?v2 ?v3" by (rule accept_fail) (simp_all add: defs)
  moreover have "server_step (demoConf passHandler [WithMaxConnections 1]) {()} ?v3 demoStopped"
    unfolding demoStopped_def by (rule stop_return) (simp_all add: defs)
  ultimately show "server_reach (demoConf passHandler [WithMaxConnections 1]) {()} (demoServer ()) demoStopped"
    by (meson server_reach.start server_reach.step)
  show "stopPc demoStopped = StReturned" by (simp add: demoStopped_def stopReturn_def)
qed

theorem stop_returns_after_drain_witness:
  "acceptPc demoStopped = ADone \<and> wg demoStopped = 0 \<and>
    list_all (\<lambda>p. procPc p = PGone \<and> svc (procSession p) = SvcDone) (procs demoStopped)"
  by (rule stop_returns_after_drain [OF demo_start [OF plainOptions_examples(1)] demo_stopped])

text \<open>
  C10. With a registry that is empty at \<open>Start\<close>: a CancelRequest makes the proxy dial only the backend
  of a session whose backend issued a key with the same process id and the same first four secret
  bytes. When the registry holds the key the proxy does dial that backend (the branch for a secret
  that differs from the stored one is never taken), and once connected it writes the request
  unchanged and closes the connection.
\<close>

theorem cancel_reaches_issuer:
  assumes "Start io env Map.empty cid f host opts = (acts, Inr (c, v0))" and "f \<in> H" and "server_reach c H v0 v"
    and "4 \<le> length sec"
  shows "\<exists>acts'. forwardCancelRequest cd (cancelRegistry (srvShared v)) dial werr processID sec = Some acts' \<and>
    (case cancelRegistry (srvShared v) \<lparr>pid = processID, secret = take 4 sec\<rparr> of
       None \<Rightarrow> acts' = []
     | Some sess \<Rightarrow>
         acts' = (case dial of
                    Inl e \<Rightarrow> [Dial (sessTarget sess)]
                  | Inr conn \<Rightarrow> [Dial (sessTarget sess),
                      WriteTo conn (encodeMsg cd (StartupM (CancelRequest processID sec))), CloseConn conn]) \<and>
         (\<exists>p \<in> set (procs v). \<exists>sec'. BackendKeyData processID sec' \<in> set (gotBackend (procSession p)) \<and>
            take 4 sec' = take 4 sec \<and> sessTarget sess = backendTgt (procSession p)))"
proof -
  have inv: "registryInv c H v"
    using cancels.reach_holds [OF assms(3)] Start_inits(4) [OF assms(1,2)] by blast
  have a4: "array4 sec = Some (take 4 sec)" using assms(4) by (simp add: array4_def)
  show ?thesis
  proof (cases "cancelRegistry (srvShared v) \<lparr>pid = processID, secret = take 4 sec\<rparr>")
    case None
    then show ?thesis using a4 by (simp add: forwardCancelRequest_def)
  next
    case (Some sess)
    then obtain p where "p \<in> set (procs v)" "issued \<lparr>pid = processID, secret = take 4 sec\<rparr> sess (procSession p)"
      using inv by (auto simp: registryInv_def)
    with Some a4 show ?thesis
      by (cases dial) (auto simp: forwardCancelRequest_def issued_def, metis+)
  qed
qed

lemma session_steps:
  assumes "(session_step (srvEnv c))\<^sup>*\<^sup>* st st'" and "i < length (procs v)"
    and "st = (srvShared v, procSession (procs v ! i))"
  shows "(server_internal c)\<^sup>*\<^sup>* v (runSession i (fst st') (snd st') v)"
  using assms(1)
proof (induction rule: rtranclp_induct)
  case base
  then show ?case using assms by (simp add: runSession_def)
next
  case (step y z)
  let ?v = "runSession i (fst y) (snd y) v"
  have "\<not> panicked (fst y)" using step(2) by (cases rule: session_step.cases) auto
  then have "server_internal c ?v (runSession i (fst z) (snd z) ?v)"
    using step(2) assms(2) by (intro i_session) (simp_all add: runSession_def)
  moreover have "runSession i (fst z) (snd z) ?v = runSession i (fst z) (snd z) v"
    using assms(2) by (simp add: runSession_def)
  ultimately show ?case using step.IH by (metis rtranclp.rtrancl_into_rtrancl)
qed

lemmas reach_session_steps = internal_reach [OF session_steps]

definition demoCancellable :: "unit server" where
  "demoCancellable =
     (case demoKeyed (srvShared limitedServer) passHandler of (sh, s) \<Rightarrow> runSession 0 sh s limitedServer)"

lemma demo_cancellable:
  "server_reach (demoConf passHandler [WithMaxConnections 1]) {()} (demoServer ()) demoCancellable"
  "cancelRegistry (srvShared demoCancellable) \<lparr>pid = 1, secret = ''abcd''\<rparr> \<noteq> None"
proof -
  let ?c = "demoConf passHandler [WithMaxConnections 1]"
  note acc = demo_accepted [OF plainOptions_examples(1) refl, where h = passHandler and f = "()", folded limitedServer_def]
  have "(session_step (srvEnv ?c))\<^sup>*\<^sup>* (srvShared limitedServer, demoStart)
      (demoKeyed (srvShared limitedServer) passHandler)"
    using demo_keyed_steps [OF acc(3), of passHandler] by (simp add: demoConf_def)
  then show "server_reach ?c {()} (demoServer ()) demoCancellable"
    unfolding demoCancellable_def case_prod_unfold
    by (rule reach_session_steps [where i = 0]) (simp_all add: acc internal_reach [OF acc(1) server_reach.start])
  show "cancelRegistry (srvShared demoCancellable) \<lparr>pid = 1, secret = ''abcd''\<rparr> \<noteq> None"
    by (simp add: demoCancellable_def runSession_def demoKeyed_def demoKeyData_def rspSwitch_def authTypeOf_def
        array4_def Let_def)
qed

theorem cancel_reaches_issuer_witness:
  "cancelRegistry (srvShared demoCancellable) \<lparr>pid = 1, secret = ''abcd''\<rparr> \<noteq> None \<and>
   (\<exists>acts'. forwardCancelRequest demoCodec (cancelRegistry (srvShared demoCancellable)) (Inr (NetConn 3)) None 1 ''abcd'' =
      Some acts' \<and>
    (case cancelRegistry (srvShared demoCancellable) \<lparr>pid = 1, secret = take 4 ''abcd''\<rparr> of
       None \<Rightarrow> acts' = []
     | Some sess \<Rightarrow>
         acts' = (case (Inr (NetConn 3) :: net_conn result) of
                    Inl e \<Rightarrow> [Dial (sessTarget sess)]
                  | Inr conn \<Rightarrow> [Dial (sessTarget sess),
                      WriteTo conn (encodeMsg demoCodec (StartupM (CancelRequest 1 ''abcd''))), CloseConn conn]) \<and>
         (\<exists>p \<in> set (procs demoCancellable). \<exists>sec'. BackendKeyData 1 sec' \<in> set (gotBackend (procSession p)) \<and>
            take 4 sec' = take 4 ''abcd'' \<and> sessTarget sess = backendTgt (procSession p))))"
  by (intro conjI demo_cancellable(2) cancel_reaches_issuer [OF demo_start [OF plainOptions_examples(1)] _ demo_cancellable(1)]) simp_all

section \<open>A client that says goodbye keeps stop waiting\<close>











section \<open>Sockets\<close>

text \<open>
  C32. \<open>getListener\<close> removes a file only when no socket was passed by systemd, the address names a
  unix socket, and the file is a socket nobody answers on; then it removes that file.
\<close>

theorem only_dead_sockets_removed:
  "RemoveFile path \<in> set (fst (getListener io host)) \<longleftrightarrow>
     (case activationListeners io of Inr (l # ls) \<Rightarrow> False | _ \<Rightarrow> True) \<and>
     (HasPrefix host ''/'' \<or> HasPrefix host ''unix:'') \<and> path = TrimPrefix host ''unix:'' \<and>
     stat io path = StatSocket \<and> dialAnswers io path = False"
proof -
  have "RemoveFile path \<in> set (fst (removeStaleUnixSocket io q)) \<longleftrightarrow>
      path = q \<and> stat io q = StatSocket \<and> \<not> dialAnswers io q" for q
    by (auto simp: removeStaleUnixSocket_def split: file_stat.split remove_result.split)
  moreover have "RemoveFile path \<in> set (fst (getListener io host)) \<longleftrightarrow>
      (case activationListeners io of Inr (l # ls) \<Rightarrow> False | _ \<Rightarrow> True) \<and>
      (HasPrefix host ''/'' \<or> HasPrefix host ''unix:'') \<and>
      RemoveFile path \<in> set (fst (removeStaleUnixSocket io (TrimPrefix host ''unix:'')))"
    by (cases "removeStaleUnixSocket io (TrimPrefix host ''unix:'')")
       (auto simp: getListener_def Let_def split: sum.split list.split option.split)
  ultimately show ?thesis by auto
qed

end
