(* ===== verification/Ast_Walk.thy ===== *)
theory Ast_Walk
  imports Pg_Prelude
begin

text \<open>
  The reflection walk of \<^verbatim>\<open>parser/filter.go\<close> (\<open>extractStatements\<close>, \<open>isFilteredStmtType\<close>,
  \<open>walkNodeTree\<close>).

  The walk runs over Go values through \<open>reflect.Value\<close>. A value is a \<open>goval\<close>: one constructor
  per kind the walk distinguishes, the zero \<open>reflect.Value\<close> (\<open>Invalid\<close>), and two for the kinds
  it ignores. A pointer is an address into a heap of typed objects, so that shared nodes, and even
  cycles, are representable: a syntax tree is the special case in which no address occurs twice.
  An address holds one object, as for the messages of a parse tree, each allocated on its own; a
  pointer into the middle of another object is not representable.
  Struct fields carry their name and whether they are exported (an empty \<open>PkgPath\<close>). A Go map
  is the list of its entries in whatever order \<open>MapKeys\<close> returned them.

  Shown: the walk terminates on every heap; it returns exactly the filtered statement nodes
  reachable from the root through pointers, interfaces, exported fields, slices, arrays and map
  values, each of them once.
\<close>

section \<open>Go values under reflection\<close>

type_synonym addr = nat

datatype goval =
    Invalid
  | Iface "goval option"
  | Ptr "addr option"
  | Struct "(string \<times> bool \<times> goval) list"
  | Slice "goval list"
  | Arr "goval list"
  | GoMap "(goval \<times> goval) list"
  | Str string
  | Scalar int

datatype nodeType =
    SelectStmt | InsertStmt | UpdateStmt | DeleteStmt
  | TruncateStmt | AlterRoleStmt | VariableSetStmt | ExecuteStmt
  | OtherNode string

record gobj =
  otype :: nodeType
  oval :: goval

type_synonym heap = "(addr \<times> gobj) list"

section \<open>The walk\<close>

fun isFilteredStmtType :: "nodeType \<Rightarrow> bool" where
  "isFilteredStmtType (OtherNode _) = False"
| "isFilteredStmtType _ = True"

text \<open>
  Termination of the walk. A dereference of an address not seen before shrinks the number of unseen
  heap addresses; every other call goes to a smaller value with at least as many addresses seen.
  The second part is about the result of a call inside the definition, so it is proved on the
  domain of the function.
\<close>

definition unseen :: "heap \<Rightarrow> addr set \<Rightarrow> nat" where
  "unseen h seen = card (set (map fst h) - seen)"

lemma unseen_mono: "seen \<subseteq> seen' \<Longrightarrow> unseen h seen' \<le> unseen h seen"
  by (auto simp: unseen_def intro: card_mono)

lemma unseen_insert:
  assumes "p \<notin> seen" and "map_of h p = Some obj"
  shows "unseen h (insert p seen) < unseen h seen"
proof -
  have "p \<in> set (map fst h) - seen"
    using assms by (force dest: map_of_SomeD)
  then have "set (map fst h) - insert p seen \<subset> set (map fst h) - seen" by auto
  then show ?thesis unfolding unseen_def by (intro psubset_card_mono) auto
qed

lemma size_fields_less:
  "size_list (\<lambda>f. size (snd (snd f))) fs \<le> size_list (size_prod (\<lambda>x. 0) (size_prod (\<lambda>x. 0) size)) fs"
  by (induction fs) auto

lemma size_entries_less:
  "size_list (\<lambda>kv. size (snd kv)) kvs \<le> size_list (size_prod size size) kvs"
  by (induction kvs) auto

function walkNodeTree :: "heap \<Rightarrow> goval \<Rightarrow> addr set \<Rightarrow> addr list \<Rightarrow> addr set \<times> addr list"
  and walkFields :: "heap \<Rightarrow> (string \<times> bool \<times> goval) list \<Rightarrow> addr set \<Rightarrow> addr list \<Rightarrow> addr set \<times> addr list"
  and walkElems :: "heap \<Rightarrow> goval list \<Rightarrow> addr set \<Rightarrow> addr list \<Rightarrow> addr set \<times> addr list"
  and walkEntries :: "heap \<Rightarrow> (goval \<times> goval) list \<Rightarrow> addr set \<Rightarrow> addr list \<Rightarrow> addr set \<times> addr list"
where
  "walkNodeTree h Invalid seen out = (seen, out)"
| "walkNodeTree h (Iface None) seen out = (seen, out)"
| "walkNodeTree h (Iface (Some e)) seen out = walkNodeTree h e seen out"
| "walkNodeTree h (Ptr None) seen out = (seen, out)"
| "walkNodeTree h (Ptr (Some p)) seen out =
     (if p \<in> seen then (seen, out)
      else case map_of h p of
             None \<Rightarrow> (insert p seen, out)
           | Some obj \<Rightarrow>
               walkNodeTree h (oval obj) (insert p seen)
                 (if isFilteredStmtType (otype obj) then out @ [p] else out))"
| "walkNodeTree h (Struct fs) seen out = walkFields h fs seen out"
| "walkNodeTree h (Slice vs) seen out = walkElems h vs seen out"
| "walkNodeTree h (Arr vs) seen out = walkElems h vs seen out"
| "walkNodeTree h (GoMap kvs) seen out = walkEntries h kvs seen out"
| "walkNodeTree h (Str s) seen out = (seen, out)"
| "walkNodeTree h (Scalar i) seen out = (seen, out)"
| "walkFields h [] seen out = (seen, out)"
| "walkFields h ((name, exported, v) # fs) seen out =
     (if \<not> exported then walkFields h fs seen out
      else let (seen', out') = walkNodeTree h v seen out in walkFields h fs seen' out')"
| "walkElems h [] seen out = (seen, out)"
| "walkElems h (v # vs) seen out =
     (let (seen', out') = walkNodeTree h v seen out in walkElems h vs seen' out')"
| "walkEntries h [] seen out = (seen, out)"
| "walkEntries h ((k, v) # kvs) seen out =
     (let (seen', out') = walkNodeTree h v seen out in walkEntries h kvs seen' out')"
  by pat_completeness auto

termination
proof -
  have grows: "walkNodeTree_walkFields_walkElems_walkEntries_dom (Inl (Inl (h, v, seen, out))) \<Longrightarrow> seen \<subseteq> fst (walkNodeTree h v seen out)"
    and "walkNodeTree_walkFields_walkElems_walkEntries_dom (Inl (Inr (h, fs, seen, out))) \<Longrightarrow> seen \<subseteq> fst (walkFields h fs seen out)"
    and "walkNodeTree_walkFields_walkElems_walkEntries_dom (Inr (Inl (h, vs, seen, out))) \<Longrightarrow> seen \<subseteq> fst (walkElems h vs seen out)"
    and "walkNodeTree_walkFields_walkElems_walkEntries_dom (Inr (Inr (h, kvs, seen, out))) \<Longrightarrow> seen \<subseteq> fst (walkEntries h kvs seen out)"
    for h v fs vs kvs seen out
    by (induction rule: walkNodeTree_walkFields_walkElems_walkEntries.pinduct)
       (auto simp: walkNodeTree.psimps walkFields.psimps walkElems.psimps walkEntries.psimps
             split: prod.splits option.splits, (fastforce+)?)
  have unseen_le: "unseen h seen' \<le> unseen h seen"
    if "walkNodeTree_walkFields_walkElems_walkEntries_dom (Inl (Inl (h, v, seen, out)))" "walkNodeTree h v seen out = (seen', out')"
    for h v seen out seen' out'
    using grows [OF that(1)] that(2) by (auto intro: unseen_mono)
  show ?thesis
    by (relation "measures [
    \<lambda>x. case x of
        Inl (Inl (h, v, seen, out)) \<Rightarrow> unseen h seen
      | Inl (Inr (h, fs, seen, out)) \<Rightarrow> unseen h seen
      | Inr (Inl (h, vs, seen, out)) \<Rightarrow> unseen h seen
      | Inr (Inr (h, kvs, seen, out)) \<Rightarrow> unseen h seen,
    \<lambda>x. case x of
        Inl (Inl (h, v, seen, out)) \<Rightarrow> size v
      | Inl (Inr (h, fs, seen, out)) \<Rightarrow> size_list (\<lambda>f. size (snd (snd f))) fs
      | Inr (Inl (h, vs, seen, out)) \<Rightarrow> size_list size vs
      | Inr (Inr (h, kvs, seen, out)) \<Rightarrow> size_list (\<lambda>kv. size (snd kv)) kvs]")
       (auto simp: le_less [symmetric] less_Suc_eq_le unseen_insert size_fields_less size_entries_less
          dest: unseen_le split: prod.splits)
qed

definition extractStatements :: "heap \<Rightarrow> goval \<Rightarrow> addr list" where
  "extractStatements h root = snd (walkNodeTree h root {} [])"

section \<open>What the walk has to find\<close>

text \<open>
  The pointers a value holds without following any of them, and the nodes reachable from a set of
  pointers through the heap.
\<close>

fun ptrs :: "goval \<Rightarrow> addr set"
  and ptrsFields :: "(string \<times> bool \<times> goval) list \<Rightarrow> addr set"
  and ptrsElems :: "goval list \<Rightarrow> addr set"
  and ptrsEntries :: "(goval \<times> goval) list \<Rightarrow> addr set" where
  "ptrs (Iface (Some e)) = ptrs e"
| "ptrs (Ptr (Some p)) = {p}"
| "ptrs (Struct fs) = ptrsFields fs"
| "ptrs (Slice vs) = ptrsElems vs"
| "ptrs (Arr vs) = ptrsElems vs"
| "ptrs (GoMap kvs) = ptrsEntries kvs"
| "ptrs _ = {}"
| "ptrsFields [] = {}"
| "ptrsFields ((name, exported, v) # fs) = (if exported then ptrs v else {}) \<union> ptrsFields fs"
| "ptrsElems [] = {}"
| "ptrsElems (v # vs) = ptrs v \<union> ptrsElems vs"
| "ptrsEntries [] = {}"
| "ptrsEntries ((k, v) # kvs) = ptrs v \<union> ptrsEntries kvs"

definition nodeSucc :: "heap \<Rightarrow> addr \<Rightarrow> addr set" where
  "nodeSucc h p = (case map_of h p of None \<Rightarrow> {} | Some obj \<Rightarrow> ptrs (oval obj))"

definition filteredAt :: "heap \<Rightarrow> addr \<Rightarrow> bool" where
  "filteredAt h p = (case map_of h p of None \<Rightarrow> False | Some obj \<Rightarrow> isFilteredStmtType (otype obj))"

inductive reachFrom :: "('a \<Rightarrow> 'a set) \<Rightarrow> 'a set \<Rightarrow> 'a \<Rightarrow> bool" for succ S where
  seed: "p \<in> S \<Longrightarrow> reachFrom succ S p"
| follow: "reachFrom succ S p \<Longrightarrow> q \<in> succ p \<Longrightarrow> reachFrom succ S q"

lemma reachFrom_mono: "reachFrom succ S p \<Longrightarrow> S \<subseteq> T \<Longrightarrow> reachFrom succ T p"
  by (induction rule: reachFrom.induct) (auto intro: reachFrom.intros)

lemma reachFrom_trans: "reachFrom succ T q \<Longrightarrow> \<forall>p\<in>T. reachFrom succ S p \<Longrightarrow> reachFrom succ S q"
  by (induction rule: reachFrom.induct) (auto intro: reachFrom.intros)

text \<open>
  The contract of a graph search: the visited set contains the seeds, is closed under successors
  and holds nothing unreachable. A client of the search only needs that the visited set is the
  set of reachable nodes.
\<close>

locale graph_search =
  fixes succ :: "'a \<Rightarrow> 'a set"
    and seeds :: "'a set"
    and visited :: "'a set"
  assumes seeds_visited: "seeds \<subseteq> visited"
    and visited_closed: "p \<in> visited \<Longrightarrow> succ p \<subseteq> visited"
    and visited_reachable: "p \<in> visited \<Longrightarrow> reachFrom succ seeds p"
begin

lemma reachable_visited: "reachFrom succ seeds p \<Longrightarrow> p \<in> visited"
  by (induction rule: reachFrom.induct) (use seeds_visited visited_closed in auto)

lemma visited_iff: "p \<in> visited \<longleftrightarrow> reachFrom succ seeds p"
  using reachable_visited visited_reachable by blast

end

section \<open>Correctness of the walk\<close>

text \<open>
  What one call of the walk leaves behind, from seeds \<open>S\<close>: the seen set grows and contains the
  seeds, what it gained is closed under successors and reachable from the seeds, and the output
  gained exactly the filtered nodes among it, without repetition.
\<close>

definition walk_post :: "heap \<Rightarrow> addr set \<Rightarrow> addr set \<Rightarrow> addr list \<Rightarrow> addr set \<times> addr list \<Rightarrow> bool" where
  "walk_post h S seen out r \<longleftrightarrow>
     seen \<subseteq> fst r \<and> S \<subseteq> fst r \<and>
     (\<forall>p \<in> fst r - seen. nodeSucc h p \<subseteq> fst r \<and> reachFrom (nodeSucc h) S p) \<and>
     (\<exists>new. snd r = out @ new \<and> distinct new \<and> set new = {p \<in> fst r - seen. filteredAt h p})"

lemma walk_post_refl: "S \<subseteq> seen \<Longrightarrow> walk_post h S seen out (seen, out)"
  by (auto simp: walk_post_def)

lemma walk_post_seq:
  assumes 1: "walk_post h S seen out (seen1, out1)" and 2: "walk_post h T seen1 out1 r"
  shows "walk_post h (S \<union> T) seen out r"
proof -
  obtain n1 where n1: "out1 = out @ n1" "distinct n1" "set n1 = {p \<in> seen1 - seen. filteredAt h p}"
    using 1 by (auto simp: walk_post_def)
  obtain n2 where n2: "snd r = out1 @ n2" "distinct n2" "set n2 = {p \<in> fst r - seen1. filteredAt h p}"
    using 2 by (auto simp: walk_post_def)
  have sub: "seen \<subseteq> seen1" "seen1 \<subseteq> fst r"
    using 1 2 by (auto simp: walk_post_def)
  have "snd r = out @ (n1 @ n2) \<and> distinct (n1 @ n2) \<and>
      set (n1 @ n2) = {p \<in> fst r - seen. filteredAt h p}"
    using n1 n2 sub by auto
  moreover have "nodeSucc h p \<subseteq> fst r \<and> reachFrom (nodeSucc h) (S \<union> T) p"
    if "p \<in> fst r - seen" for p
  proof (cases "p \<in> seen1")
    case True
    with 1 that have "nodeSucc h p \<subseteq> seen1" and "reachFrom (nodeSucc h) S p"
      by (auto simp: walk_post_def)
    with sub show ?thesis by (auto intro: reachFrom_mono)
  next
    case False
    with 2 that show ?thesis by (auto simp: walk_post_def intro: reachFrom_mono)
  qed
  moreover have "S \<union> T \<subseteq> fst r"
    using 1 2 sub by (auto simp: walk_post_def)
  ultimately show ?thesis
    using sub unfolding walk_post_def by blast
qed

lemma walk_post_deref:
  assumes "p \<notin> seen" and obj: "map_of h p = Some obj"
    and r: "walk_post h (ptrs (oval obj)) (insert p seen)
           (if isFilteredStmtType (otype obj) then out @ [p] else out) r"
  shows "walk_post h {p} seen out r"
proof -
  have succ: "nodeSucc h p = ptrs (oval obj)" and filt: "filteredAt h p = isFilteredStmtType (otype obj)"
    using obj by (simp_all add: nodeSucc_def filteredAt_def)
  obtain new where new: "distinct new" "set new = {q \<in> fst r - insert p seen. filteredAt h q}"
      "snd r = (if filteredAt h p then out @ [p] else out) @ new"
    using r filt by (auto simp: walk_post_def)
  let ?new = "(if filteredAt h p then [p] else []) @ new"
  have "p \<in> fst r" using r by (auto simp: walk_post_def)
  with new \<open>p \<notin> seen\<close> have "snd r = out @ ?new \<and> distinct ?new \<and>
      set ?new = {q \<in> fst r - seen. filteredAt h q}"
    by auto
  moreover have "reachFrom (nodeSucc h) {p} q" if "q \<in> fst r - insert p seen" for q
  proof -
    have "reachFrom (nodeSucc h) (ptrs (oval obj)) q"
      using r that by (auto simp: walk_post_def)
    then show ?thesis
      by (rule reachFrom_trans) (auto simp: succ [symmetric] intro: reachFrom.intros)
  qed
  moreover have "nodeSucc h q \<subseteq> fst r" if "q \<in> fst r - seen" for q
    using r succ that by (cases "q = p") (auto simp: walk_post_def)
  moreover have "reachFrom (nodeSucc h) {p} p" by (auto intro: reachFrom.seed)
  moreover have "seen \<subseteq> fst r" using r by (auto simp: walk_post_def)
  ultimately show ?thesis
    using \<open>p \<in> fst r\<close> unfolding walk_post_def by blast
qed

lemma walk_post_dangling:
  assumes "p \<notin> seen" and "map_of h p = None"
  shows "walk_post h {p} seen out (insert p seen, out)"
  using assms by (auto simp: walk_post_def nodeSucc_def filteredAt_def intro: reachFrom.seed)

lemmas walk_post_intros = walk_post_refl walk_post_seq walk_post_deref walk_post_dangling

lemma walk_post_walk:
  "walk_post h (ptrs v) seen out (walkNodeTree h v seen out)"
  "walk_post h (ptrsFields fs) seen out (walkFields h fs seen out)"
  "walk_post h (ptrsElems vs) seen out (walkElems h vs seen out)"
  "walk_post h (ptrsEntries kvs) seen out (walkEntries h kvs seen out)"
  by (induction h v seen out and h fs seen out and h vs seen out and h kvs seen out
      rule: walkNodeTree_walkFields_walkElems_walkEntries.induct)
     (auto intro: walk_post_intros split: prod.splits option.splits)

interpretation ast: graph_search "nodeSucc h" "ptrs root" "fst (walkNodeTree h root {} [])" for h root
  using walk_post_walk(1) [of h root "{}" "[]"] by unfold_locales (auto simp: walk_post_def)

lemma extractStatements_distinct: "distinct (extractStatements h root)"
  using walk_post_walk(1) [of h root "{}" "[]"] by (auto simp: walk_post_def extractStatements_def)

lemma extractStatements_iff:
  "p \<in> set (extractStatements h root) \<longleftrightarrow>
     reachFrom (nodeSucc h) (ptrs root) p \<and> filteredAt h p"
  using walk_post_walk(1) [of h root "{}" "[]"]
  by (auto simp: walk_post_def extractStatements_def ast.visited_iff)

text \<open>
  C4. \<open>extractStatements\<close> finds every statement node the filter has a rule for, wherever it is
  nested, and nothing else, each node once: a node is in its result exactly when it is reachable
  from the statement's root through pointers, interfaces, exported fields, slices, arrays and map
  values, and has a filtered type. This holds on every heap, with sharing and with cycles.
\<close>

theorem extractStatements_exact:
  "distinct (extractStatements h root) \<and>
   set (extractStatements h root) =
     {p. reachFrom (nodeSucc h) (ptrs root) p \<and> filteredAt h p}"
  using extractStatements_distinct extractStatements_iff by auto

end
