(* ===== verification/Redact.thy ===== *)
theory Redact
  imports Pg_Prelude
begin

text \<open>
  Secret redaction of \<^verbatim>\<open>parser/filter.go\<close> (\<open>passwordLiteralRe\<close>, \<open>redactSecrets\<close>).

  The regular expression is \<^verbatim>\<open>(?is)(PASSWORD\s+|IDENTIFIED\s+BY\s+)'(?:[^'\\]|\\.)*'\<close>. It is
  given twice: as a language (\<open>prefixLang\<close>, \<open>litBody\<close>, \<open>literalLang\<close>), the meaning of
  the expression, and as the deterministic matcher \<open>matchSecret\<close> that the replacement loop
  \<open>redactSecrets\<close> runs at every position. Matching is on bytes. That is exact although Go
  matches runes: the quote and the backslash are ASCII, an escaped multi-byte rune is one escaped
  byte followed by plain bytes, and no match starts at a continuation byte. Under the \<open>i\<close> flag
  the letter S also stands for U+017F (bytes C5 BF), the one non-ASCII rune in the case folding
  orbit of a letter of the two keywords; \<open>\s\<close> is tab, newline, form feed, carriage return and
  space.

  Shown: the matcher decides the language and finds the unique split; the loop computes
  leftmost replacement of all non-overlapping matches; every query is a sequence of pieces, cut at
  its quotes, and the logged text depends on none of the secrets among them. The last statement
  records where the expression and SQL literals differ.
\<close>

section \<open>The expression as a language\<close>

definition quote :: char where "quote = CHR 0x27"

definition backslash :: char where "backslash = CHR 0x5C"

definition reSpace :: "char \<Rightarrow> bool" where
  "reSpace c = (c \<in> set [CHR 0x09, CHR 0x0A, CHR 0x0C, CHR 0x0D, CHR 0x20])"

definition longS :: string where "longS = [CHR 0xC5, CHR 0xBF]"

definition lowerLetter :: "char \<Rightarrow> char" where
  "lowerLetter c = char_of ((of_char c :: nat) + 32)"

lemma lowerLetter_letters [simp]:
  "lowerLetter (CHR ''P'') = CHR ''p''"
  "lowerLetter (CHR ''A'') = CHR ''a''"
  "lowerLetter (CHR ''S'') = CHR ''s''"
  "lowerLetter (CHR ''W'') = CHR ''w''"
  "lowerLetter (CHR ''O'') = CHR ''o''"
  "lowerLetter (CHR ''R'') = CHR ''r''"
  "lowerLetter (CHR ''D'') = CHR ''d''"
  "lowerLetter (CHR ''I'') = CHR ''i''"
  "lowerLetter (CHR ''E'') = CHR ''e''"
  "lowerLetter (CHR ''N'') = CHR ''n''"
  "lowerLetter (CHR ''T'') = CHR ''t''"
  "lowerLetter (CHR ''F'') = CHR ''f''"
  "lowerLetter (CHR ''B'') = CHR ''b''"
  "lowerLetter (CHR ''Y'') = CHR ''y''"
  by (simp_all add: lowerLetter_def char_of_eq_iff)

text \<open>The byte strings an upper case letter of a keyword stands for.\<close>

definition letterRunes :: "char \<Rightarrow> string set" where
  "letterRunes c = {[c], [lowerLetter c]} \<union> (if c = CHR ''S'' then {longS} else {})"

fun keywordLang :: "string \<Rightarrow> string set" where
  "keywordLang [] = {[]}"
| "keywordLang (c # cs) = {x @ y | x y. x \<in> letterRunes c \<and> y \<in> keywordLang cs}"

definition spacesLang :: "string set" where
  "spacesLang = {w. w \<noteq> [] \<and> (\<forall>c \<in> set w. reSpace c)}"

definition prefixLang :: "string set" where
  "prefixLang =
     {k @ w | k w. k \<in> keywordLang ''PASSWORD'' \<and> w \<in> spacesLang} \<union>
     {k @ w @ k' @ w' | k w k' w'. k \<in> keywordLang ''IDENTIFIED'' \<and> w \<in> spacesLang \<and>
        k' \<in> keywordLang ''BY'' \<and> w' \<in> spacesLang}"

inductive litBody :: "string \<Rightarrow> bool" where
  litNil: "litBody []"
| litChar: "litBody b \<Longrightarrow> c \<noteq> quote \<Longrightarrow> c \<noteq> backslash \<Longrightarrow> litBody (c # b)"
| litEsc: "litBody b \<Longrightarrow> litBody (backslash # c # b)"

definition literalLang :: "string set" where
  "literalLang = {quote # b @ [quote] | b. litBody b}"

section \<open>The matcher and the replacement loop\<close>

fun matchLetter :: "char \<Rightarrow> string \<Rightarrow> string option" where
  "matchLetter c [] = None"
| "matchLetter c (x # xs) =
     (if x = c \<or> x = lowerLetter c then Some xs
      else if c = CHR ''S'' \<and> HasPrefix (x # xs) longS then Some (drop 2 (x # xs))
      else None)"

fun matchKeyword :: "string \<Rightarrow> string \<Rightarrow> string option" where
  "matchKeyword [] s = Some s"
| "matchKeyword (c # cs) s =
     (case matchLetter c s of None \<Rightarrow> None | Some r \<Rightarrow> matchKeyword cs r)"

fun matchSpaces :: "string \<Rightarrow> string option" where
  "matchSpaces [] = None"
| "matchSpaces (c # cs) = (if reSpace c then Some (dropWhile reSpace cs) else None)"

definition matchPrefix :: "string \<Rightarrow> string option" where
  "matchPrefix s =
     (case Option.bind (matchKeyword ''PASSWORD'' s) matchSpaces of
        Some r \<Rightarrow> Some r
      | None \<Rightarrow>
          Option.bind (Option.bind (Option.bind (matchKeyword ''IDENTIFIED'' s) matchSpaces)
            (matchKeyword ''BY'')) matchSpaces)"

fun matchBody :: "string \<Rightarrow> string option" where
  "matchBody [] = None"
| "matchBody (c # cs) =
     (if c = quote then Some cs
      else if c = backslash then (case cs of [] \<Rightarrow> None | _ # cs' \<Rightarrow> matchBody cs')
      else matchBody cs)"

definition matchLiteral :: "string \<Rightarrow> string option" where
  "matchLiteral s =
     (case s of [] \<Rightarrow> None | c # cs \<Rightarrow> if c = quote then matchBody cs else None)"

text \<open>A match at the front of \<open>s\<close>: the text of group 1 and what follows the match.\<close>

definition matchSecret :: "string \<Rightarrow> (string \<times> string) option" where
  "matchSecret s =
     (case matchPrefix s of
        None \<Rightarrow> None
      | Some r \<Rightarrow>
          (case matchLiteral r of
             None \<Rightarrow> None
           | Some rest \<Rightarrow> Some (take (length s - length r) s, rest)))"

definition placeholder :: string where
  "placeholder = quote # ''***REDACTED***'' @ [quote]"

text \<open>Each consuming step of the matcher splits its input.\<close>

lemma matchLetter_split: "matchLetter c s = Some r \<Longrightarrow> \<exists>x \<in> letterRunes c. s = x @ r"
  by (cases s) (auto simp: letterRunes_def longS_def HasPrefix_iff split: if_splits)

lemma matchKeyword_split: "matchKeyword k s = Some r \<Longrightarrow> \<exists>x \<in> keywordLang k. s = x @ r"
proof (induction k s rule: matchKeyword.induct)
  case (2 c cs s)
  then obtain t where t: "matchLetter c s = Some t" "matchKeyword cs t = Some r"
    by (auto split: option.splits)
  with 2 obtain y where y: "y \<in> keywordLang cs" "t = y @ r" by blast
  obtain x where x: "x \<in> letterRunes c" "s = x @ t" using matchLetter_split t(1) by blast
  have "x @ y \<in> keywordLang (c # cs)" using x(1) y(1) by auto
  moreover have "s = (x @ y) @ r" using x(2) y(2) by simp
  ultimately show ?case by blast
qed simp

lemma matchSpaces_split: "matchSpaces s = Some r \<Longrightarrow> \<exists>w \<in> spacesLang. s = w @ r"
proof (cases s)
  case (Cons c cs)
  assume "matchSpaces s = Some r"
  with Cons have "reSpace c" "r = dropWhile reSpace cs" by (auto split: if_splits)
  then have "c # takeWhile reSpace cs \<in> spacesLang" "s = (c # takeWhile reSpace cs) @ r"
    using Cons by (auto simp: spacesLang_def dest: set_takeWhileD)
  then show ?thesis by blast
qed simp

declare keywordLang.simps [simp del] matchKeyword.simps [simp del]

lemma prefixLangI:
  "k \<in> keywordLang ''PASSWORD'' \<Longrightarrow> w \<in> spacesLang \<Longrightarrow> k @ w \<in> prefixLang"
  "k \<in> keywordLang ''IDENTIFIED'' \<Longrightarrow> w \<in> spacesLang \<Longrightarrow> k' \<in> keywordLang ''BY'' \<Longrightarrow>
     w' \<in> spacesLang \<Longrightarrow> k @ w @ k' @ w' \<in> prefixLang"
  by (auto simp: prefixLang_def)

lemma matchPrefix_split:
  assumes "matchPrefix s = Some r"
  shows "\<exists>g \<in> prefixLang. s = g @ r"
proof -
  consider t where "matchKeyword ''PASSWORD'' s = Some t" "matchSpaces t = Some r"
    | t u v where "matchKeyword ''IDENTIFIED'' s = Some t" "matchSpaces t = Some u"
        "matchKeyword ''BY'' u = Some v" "matchSpaces v = Some r"
    using assms by (auto simp: matchPrefix_def Option.bind_eq_Some_conv split: option.splits)
  then show ?thesis
  proof cases
    case 1
    then obtain k w where "k \<in> keywordLang ''PASSWORD''" "w \<in> spacesLang" "s = (k @ w) @ r"
      using matchKeyword_split matchSpaces_split by fastforce
    then show ?thesis using prefixLangI(1) by blast
  next
    case 2
    obtain k w where 3: "k \<in> keywordLang ''IDENTIFIED''" "w \<in> spacesLang" "s = k @ w @ u"
      using 2(1,2) matchKeyword_split matchSpaces_split by fastforce
    obtain k' w' where 4: "k' \<in> keywordLang ''BY''" "w' \<in> spacesLang" "u = k' @ w' @ r"
      using 2(3,4) matchKeyword_split matchSpaces_split by fastforce
    have "s = (k @ w @ k' @ w') @ r" using 3(3) 4(3) by simp
    with 3 4 show ?thesis using prefixLangI(2) by blast
  qed
qed

lemma matchBody_split: "matchBody s = Some r \<Longrightarrow> \<exists>b. litBody b \<and> s = b @ quote # r"
proof (induction s rule: matchBody.induct)
  case (2 c cs)
  consider "c = quote" | "c \<noteq> quote" "c = backslash" | "c \<noteq> quote" "c \<noteq> backslash" by blast
  then show ?case
  proof cases
    case 1
    with 2 show ?thesis by (auto intro: litBody.litNil)
  next
    case 2
    with "2.prems" obtain d ds where d: "cs = d # ds" "matchBody ds = Some r"
      by (auto split: list.splits)
    with "2.IH"(1) 2 obtain b where "litBody b" "ds = b @ quote # r" by blast
    with 2 d show ?thesis by (auto intro!: exI [of _ "backslash # d # b"] litBody.litEsc)
  next
    case 3
    with "2.prems" "2.IH"(2) obtain b where "litBody b" "cs = b @ quote # r" by auto
    with 3 show ?thesis by (auto intro!: exI [of _ "c # b"] litBody.litChar)
  qed
qed simp

lemma matchLiteral_split: "matchLiteral s = Some r \<Longrightarrow> \<exists>l \<in> literalLang. s = l @ r"
  unfolding matchLiteral_def literalLang_def
  by (fastforce dest!: matchBody_split split: list.splits if_splits)

lemma matchSecret_split:
  assumes "matchSecret s = Some (g, r)"
  shows "g \<in> prefixLang \<and> (\<exists>l \<in> literalLang. s = g @ l @ r)"
proof -
  obtain t where t: "matchPrefix s = Some t" "matchLiteral t = Some r" "g = take (length s - length t) s"
    using assms by (auto simp: matchSecret_def split: option.splits)
  obtain g' where g': "g' \<in> prefixLang" "s = g' @ t" using matchPrefix_split t(1) by blast
  moreover obtain l where "l \<in> literalLang" "t = l @ r" using matchLiteral_split t(2) by blast
  ultimately show ?thesis using t(3) by auto
qed

lemma literalLang_nonempty: "l \<in> literalLang \<Longrightarrow> l \<noteq> []"
  by (auto simp: literalLang_def)

function redactSecrets :: "string \<Rightarrow> string" where
  "redactSecrets s =
     (case matchSecret s of
        Some (g, rest) \<Rightarrow> g @ placeholder @ redactSecrets rest
      | None \<Rightarrow> (case s of [] \<Rightarrow> [] | c # cs \<Rightarrow> c # redactSecrets cs))"
  by pat_completeness auto
termination
  by (relation "measure length")
     (auto dest!: matchSecret_split dest: literalLang_nonempty)

declare redactSecrets.simps [simp del]

section \<open>The matcher decides the language\<close>

lemma matchLetter_complete: "x \<in> letterRunes c \<Longrightarrow> matchLetter c (x @ s) = Some s"
  by (auto simp: letterRunes_def longS_def split: if_splits)

lemma matchKeyword_complete: "x \<in> keywordLang k \<Longrightarrow> matchKeyword k (x @ s) = Some s"
proof (induction k arbitrary: x)
  case (Cons c cs)
  then obtain y z where "x = y @ z" "y \<in> letterRunes c" "z \<in> keywordLang cs"
    by (auto simp: keywordLang.simps)
  with Cons.IH show ?case by (simp add: matchKeyword.simps matchLetter_complete)
qed (simp add: keywordLang.simps matchKeyword.simps)

definition startsNonSpace :: "string \<Rightarrow> bool" where
  "startsNonSpace s = (case s of [] \<Rightarrow> True | c # _ \<Rightarrow> \<not> reSpace c)"

lemma matchSpaces_complete:
  "w \<in> spacesLang \<Longrightarrow> startsNonSpace s \<Longrightarrow> matchSpaces (w @ s) = Some s"
  by (cases w; cases s) (auto simp: spacesLang_def startsNonSpace_def)

lemma startsNonSpace_BY: "k \<in> keywordLang ''BY'' \<Longrightarrow> startsNonSpace (k @ s)"
  by (auto simp: keywordLang.simps letterRunes_def startsNonSpace_def reSpace_def)

lemma matchKeyword_PASSWORD_IDENTIFIED:
  "k \<in> keywordLang ''IDENTIFIED'' \<Longrightarrow> matchKeyword ''PASSWORD'' (k @ s) = None"
  by (auto simp: keywordLang.simps(2) [where c = "CHR ''I''"] letterRunes_def matchKeyword.simps)

lemma matchPrefix_complete:
  assumes "g \<in> prefixLang" and "startsNonSpace r"
  shows "matchPrefix (g @ r) = Some r"
proof -
  consider k w where "g = k @ w" "k \<in> keywordLang ''PASSWORD''" "w \<in> spacesLang"
    | k w k' w' where "g = k @ w @ k' @ w'" "k \<in> keywordLang ''IDENTIFIED''" "w \<in> spacesLang"
        "k' \<in> keywordLang ''BY''" "w' \<in> spacesLang"
    using assms(1) by (auto simp: prefixLang_def)
  then show ?thesis
  proof cases
    case 1
    with assms(2) show ?thesis
      by (simp add: matchPrefix_def matchKeyword_complete matchSpaces_complete)
  next
    case 2
    with assms(2) show ?thesis
      by (simp add: matchPrefix_def matchKeyword_PASSWORD_IDENTIFIED matchKeyword_complete
          matchSpaces_complete startsNonSpace_BY)
  qed
qed

lemma matchBody_complete: "litBody b \<Longrightarrow> matchBody (b @ quote # r) = Some r"
  by (induction rule: litBody.induct) (auto simp: quote_def backslash_def)

lemma matchSecret_complete:
  assumes "g \<in> prefixLang" and "l \<in> literalLang"
  shows "matchSecret (g @ l @ r) = Some (g, r)"
proof -
  obtain b where b: "l = quote # b @ [quote]" "litBody b" using assms(2) by (auto simp: literalLang_def)
  then have "startsNonSpace (l @ r)" by (simp add: startsNonSpace_def reSpace_def quote_def)
  with assms(1) have "matchPrefix (g @ l @ r) = Some (l @ r)" by (rule matchPrefix_complete)
  moreover have "matchLiteral (l @ r) = Some r"
    using b by (simp add: matchLiteral_def matchBody_complete)
  ultimately show ?thesis by (simp add: matchSecret_def)
qed

lemma matchSecret_iff:
  "matchSecret s = Some (g, r) \<longleftrightarrow> g \<in> prefixLang \<and> (\<exists>l \<in> literalLang. s = g @ l @ r)"
  using matchSecret_split matchSecret_complete by blast

lemma matchSecret_None_iff:
  "matchSecret s = None \<longleftrightarrow> (\<nexists>g l r. g \<in> prefixLang \<and> l \<in> literalLang \<and> s = g @ l @ r)"
  using matchSecret_iff by (metis not_None_eq surj_pair)

section \<open>What the replacement loop computes\<close>

text \<open>
  Leftmost replacement of all non-overlapping matches, stated over the language: at a position
  where a match starts it is replaced as a whole, elsewhere one byte is copied.
\<close>

inductive replaceAll :: "string \<Rightarrow> string \<Rightarrow> bool" where
  finish: "replaceAll [] []"
| hit: "g \<in> prefixLang \<Longrightarrow> l \<in> literalLang \<Longrightarrow> replaceAll r t \<Longrightarrow>
     replaceAll (g @ l @ r) (g @ placeholder @ t)"
| skip: "\<nexists>g l r. g \<in> prefixLang \<and> l \<in> literalLang \<and> c # s = g @ l @ r \<Longrightarrow> replaceAll s t \<Longrightarrow>
     replaceAll (c # s) (c # t)"

lemma redactSecrets_hit:
  "g \<in> prefixLang \<Longrightarrow> l \<in> literalLang \<Longrightarrow>
     redactSecrets (g @ l @ r) = g @ placeholder @ redactSecrets r"
  by (subst redactSecrets.simps) (simp add: matchSecret_complete)

lemma redactSecrets_skip:
  "matchSecret (c # s) = None \<Longrightarrow> redactSecrets (c # s) = c # redactSecrets s"
  by (subst redactSecrets.simps) simp

lemma redactSecrets_Nil: "redactSecrets [] = []"
  by (subst redactSecrets.simps) (auto split: option.splits dest!: matchSecret_split dest: literalLang_nonempty)

lemma replaceAll_redactSecrets: "replaceAll s (redactSecrets s)"
proof (induction s rule: redactSecrets.induct)
  case (1 s)
  show ?case
  proof (cases "matchSecret s")
    case (Some gr)
    obtain g r where gr: "gr = (g, r)" by (cases gr)
    with Some obtain l where l: "g \<in> prefixLang" "l \<in> literalLang" "s = g @ l @ r"
      using matchSecret_split by blast
    with 1(2) [OF Some gr [symmetric]] show ?thesis by (simp add: redactSecrets_hit replaceAll.hit)
  next
    case None
    show ?thesis
    proof (cases s)
      case Nil
      then show ?thesis by (simp add: redactSecrets_Nil replaceAll.finish)
    next
      case (Cons c cs)
      with None 1(1) have "replaceAll cs (redactSecrets cs)" by blast
      with None Cons show ?thesis
        using matchSecret_None_iff [of "c # cs"] redactSecrets_skip [of c cs]
        by (simp add: replaceAll.skip)
    qed
  qed
qed

lemma replaceAll_unique: "replaceAll s t \<Longrightarrow> t = redactSecrets s"
proof (induction rule: replaceAll.induct)
  case (skip c s t)
  then have "matchSecret (c # s) = None" using matchSecret_None_iff by blast
  with skip show ?case by (simp add: redactSecrets_skip)
qed (simp_all add: redactSecrets_Nil redactSecrets_hit)

text \<open>
  C25. \<open>redactSecrets\<close> computes \<open>passwordLiteralRe.ReplaceAllString\<close>: its result is the one
  text obtained by replacing, from left to right, every non-overlapping match of the expression
  by group 1 and the placeholder, and copying every byte at which no match starts.
\<close>

theorem redactSecrets_replaces_all: "replaceAll s t \<longleftrightarrow> t = redactSecrets s"
  using replaceAll_unique replaceAll_redactSecrets by blast

text \<open>
  Two matches never overlap with one starting inside the prefix of the other: counting the
  letters P and I tells a prefix from anything longer that ends with one.
\<close>

definition letterCount :: "char \<Rightarrow> string \<Rightarrow> nat" where
  "letterCount L w = length (filter (\<lambda>x. x = L \<or> x = lowerLetter L) w)"

lemma letterCount_append [simp]: "letterCount L (u @ v) = letterCount L u + letterCount L v"
  by (simp add: letterCount_def)

lemma keyword_letterCount:
  "w \<in> keywordLang k \<Longrightarrow>
   \<forall>c \<in> set k. \<forall>x \<in> letterRunes c. letterCount L x = (if c = L then 1 else 0) \<Longrightarrow>
   letterCount L w = length (filter (\<lambda>c. c = L) k)"
  by (induction k arbitrary: w) (auto simp: keywordLang.simps letterCount_def)

lemma spaces_letterCount:
  "w \<in> spacesLang \<Longrightarrow> \<not> reSpace L \<Longrightarrow> \<not> reSpace (lowerLetter L) \<Longrightarrow> letterCount L w = 0"
  by (auto simp: spacesLang_def letterCount_def filter_empty_conv)

definition keywordLetters :: string where
  "keywordLetters = ''PASWORDIENTFBY''"

lemma runes_facts:
  assumes "x \<in> letterRunes c" and "c \<in> set keywordLetters"
  shows "letterCount (CHR ''P'') x = (if c = CHR ''P'' then 1 else 0)"
    and "letterCount (CHR ''I'') x = (if c = CHR ''I'' then 1 else 0)"
    and "quote \<notin> set x \<and> backslash \<notin> set x"
  using assms
  by (auto simp: letterRunes_def letterCount_def longS_def keywordLetters_def quote_def backslash_def split: if_splits)

lemma keyword_counts:
  "k \<in> keywordLang ''PASSWORD'' \<Longrightarrow> letterCount (CHR ''P'') k = 1 \<and> letterCount (CHR ''I'') k = 0"
  "k \<in> keywordLang ''IDENTIFIED'' \<Longrightarrow> letterCount (CHR ''P'') k = 0 \<and> letterCount (CHR ''I'') k = 3"
  "k \<in> keywordLang ''BY'' \<Longrightarrow> letterCount (CHR ''P'') k = 0 \<and> letterCount (CHR ''I'') k = 0"
  by (simp_all add: keyword_letterCount runes_facts keywordLetters_def)

lemma spaces_counts:
  "w \<in> spacesLang \<Longrightarrow> letterCount (CHR ''P'') w = 0 \<and> letterCount (CHR ''I'') w = 0"
  by (simp add: spaces_letterCount reSpace_def)

lemma prefixLang_counts:
  assumes "g \<in> prefixLang"
  shows "(letterCount (CHR ''P'') g = 1 \<and> letterCount (CHR ''I'') g = 0 \<and>
            letterCount (CHR ''P'') [hd g] = 1) \<or>
         (letterCount (CHR ''P'') g = 0 \<and> letterCount (CHR ''I'') g = 3 \<and>
            letterCount (CHR ''I'') [hd g] = 1)"
proof -
  have hd: "hd (k @ w) = hd k" if "k \<in> keywordLang (c # cs)" for k w c cs
    using that by (auto simp: keywordLang.simps letterRunes_def longS_def split: if_splits)
  have P: "letterCount (CHR ''P'') [hd k] = 1" if "k \<in> keywordLang ''PASSWORD''" for k
    using that by (auto simp: keywordLang.simps(2) [where c = "CHR ''P''"] letterRunes_def letterCount_def)
  have I: "letterCount (CHR ''I'') [hd k] = 1" if "k \<in> keywordLang ''IDENTIFIED''" for k
    using that by (auto simp: keywordLang.simps(2) [where c = "CHR ''I''"] letterRunes_def letterCount_def)
  show ?thesis
    using assms unfolding prefixLang_def
    by (auto simp: keyword_counts spaces_counts hd P I)
qed

lemma prefixLang_no_proper_suffix:
  assumes "g \<in> prefixLang" and "p @ g \<in> prefixLang"
  shows "p = []"
proof (rule ccontr)
  assume "p \<noteq> []"
  then obtain c q where p: "p = c # q" by (cases p) auto
  have "letterCount L (p @ g) = letterCount L [c] + letterCount L q + letterCount L g" for L
    by (simp add: p letterCount_def)
  note sum = this
  have hd: "hd (p @ g) = c" using p by simp
  show False
    using prefixLang_counts [OF assms(1)] prefixLang_counts [OF assms(2)]
      sum [of "CHR ''P''"] sum [of "CHR ''I''"] unfolding hd by linarith
qed

lemma keyword_plain:
  "k \<in> keywordLang kw \<Longrightarrow> set kw \<subseteq> set keywordLetters \<Longrightarrow> quote \<notin> set k \<and> backslash \<notin> set k"
proof (induction kw arbitrary: k)
  case (Cons c cs)
  then obtain x y where xy: "k = x @ y" "x \<in> letterRunes c" "y \<in> keywordLang cs"
    by (auto simp: keywordLang.simps)
  then show ?case using Cons runes_facts(3) [of x c] by auto
qed (simp add: keywordLang.simps)

lemma prefixLang_plain:
  assumes "g \<in> prefixLang"
  shows "quote \<notin> set g \<and> backslash \<notin> set g"
proof -
  have "\<not> reSpace quote" "\<not> reSpace backslash" by (simp_all add: reSpace_def quote_def backslash_def)
  then have "quote \<notin> set w \<and> backslash \<notin> set w" if "w \<in> spacesLang" for w
    using that by (auto simp: spacesLang_def)
  moreover have "quote \<notin> set k \<and> backslash \<notin> set k"
    if "k \<in> keywordLang kw" "kw \<in> {''PASSWORD'', ''IDENTIFIED'', ''BY''}" for k kw
    using that by (intro keyword_plain [of k kw]) (auto simp: keywordLetters_def)
  ultimately show ?thesis using assms by (auto simp: prefixLang_def)
qed

lemmas prefixLang_no_quote = prefixLang_plain [THEN conjunct1]

lemma prefixLang_nonempty: "[] \<notin> prefixLang"
  by (auto simp: prefixLang_def spacesLang_def)

lemma redactSecrets_at:
  assumes "quote \<notin> set pre" and g: "g \<in> prefixLang" and "l \<in> literalLang"
  shows "redactSecrets (pre @ g @ l @ r) = pre @ g @ placeholder @ redactSecrets r"
  using assms(1)
proof (induction pre)
  case Nil
  show ?case using redactSecrets_hit [OF assms(2,3)] by simp
next
  case (Cons c pre)
  obtain b where l: "l = quote # b @ [quote]" using assms(3) by (auto simp: literalLang_def)
  have "matchSecret (c # pre @ g @ l @ r) = None"
  proof (rule ccontr)
    assume "matchSecret (c # pre @ g @ l @ r) \<noteq> None"
    then obtain g' l' r' where g': "g' \<in> prefixLang" "l' \<in> literalLang"
        "(c # pre @ g) @ l @ r = g' @ l' @ r'"
      using matchSecret_None_iff [of "c # pre @ g @ l @ r"] by auto
    obtain b' where "l' = quote # b' @ [quote]" using g'(2) by (auto simp: literalLang_def)
    with g'(3) l obtain x y where "(c # pre @ g) @ quote # x = g' @ quote # y" by auto
    moreover have "quote \<notin> set (c # pre @ g)"
      using Cons.prems prefixLang_no_quote [OF g] by auto
    ultimately have "c # pre @ g = g'"
      using prefixLang_no_quote [OF g'(1)] by (rule first_occurrence_unique)
    with g'(1) prefixLang_no_proper_suffix [OF g, of "c # pre"] show False by simp
  qed
  with Cons show ?case by (simp add: redactSecrets_skip)
qed

lemma literalLangI: "litBody b \<Longrightarrow> quote # b @ [quote] \<in> literalLang"
  by (auto simp: literalLang_def)

text \<open>
  A query cut at its quotes. \<open>Plain u\<close> is text up to and with a quote that opens no secret (the
  start or the end of another literal, say); \<open>Secret p g b\<close> is text with a keyword \<open>g\<close> in front of
  a literal with the body \<open>b\<close>. \<open>skeleton\<close> is what is logged of a piece; it does not look at \<open>b\<close>.
\<close>

datatype piece =
    Plain string
  | Secret string string string

fun pieceText :: "piece \<Rightarrow> string" where
  "pieceText (Plain u) = u @ [quote]"
| "pieceText (Secret p g b) = p @ g @ quote # b @ [quote]"

definition endsInKeyword :: "string \<Rightarrow> bool" where
  "endsInKeyword u = (\<exists>p. \<exists>g \<in> prefixLang. u = p @ g)"

fun wfPiece :: "piece \<Rightarrow> bool" where
  "wfPiece (Plain u) = (quote \<notin> set u \<and> \<not> endsInKeyword u)"
| "wfPiece (Secret p g b) = (quote \<notin> set p \<and> g \<in> prefixLang \<and> litBody b)"

fun skeleton :: "piece \<Rightarrow> string" where
  "skeleton (Plain u) = u @ [quote]"
| "skeleton (Secret p g b) = p @ g @ placeholder"

abbreviation piecesText :: "piece list \<Rightarrow> string" where
  "piecesText ps \<equiv> concat (map pieceText ps)"

lemma matchSecret_quote: "matchSecret (quote # s) = None"
proof (rule ccontr)
  assume "matchSecret (quote # s) \<noteq> None"
  then obtain g l r where g: "g \<in> prefixLang" "quote # s = g @ l @ r"
    using matchSecret_None_iff [of "quote # s"] by auto
  then show False using prefixLang_no_quote [of g] prefixLang_nonempty by (cases g) auto
qed

text \<open>A quote starts a secret only after a keyword and in front of a complete literal body.\<close>

lemma redactSecrets_upto_quote:
  assumes "quote \<notin> set u" and "endsInKeyword u \<Longrightarrow> matchBody s = None"
  shows "redactSecrets (u @ quote # s) = u @ quote # redactSecrets s"
  using assms
proof (induction u)
  case Nil
  show ?case by (simp add: redactSecrets_skip matchSecret_quote)
next
  case (Cons c u)
  have "matchSecret (c # u @ quote # s) = None"
  proof (rule ccontr)
    assume "matchSecret (c # u @ quote # s) \<noteq> None"
    then obtain g b r where g: "g \<in> prefixLang" "litBody b" "(c # u) @ quote # s = g @ quote # b @ quote # r"
      using matchSecret_None_iff [of "c # u @ quote # s"] by (auto simp: literalLang_def)
    have cu: "c # u = g"
      using g(3) Cons.prems(1) prefixLang_no_quote [OF g(1)] by (rule first_occurrence_unique)
    with g have "endsInKeyword (c # u)" "matchBody s = Some r"
      by (auto simp: endsInKeyword_def matchBody_complete)
    with Cons.prems(2) show False by simp
  qed
  moreover have "endsInKeyword (c # u)" if "endsInKeyword u"
    using that unfolding endsInKeyword_def by (metis append_Cons)
  ultimately show ?case using Cons by (simp add: redactSecrets_skip)
qed

lemma redactSecrets_piece:
  assumes "wfPiece p"
  shows "redactSecrets (pieceText p @ s) = skeleton p @ redactSecrets s"
proof (cases p)
  case (Plain u)
  with assms show ?thesis using redactSecrets_upto_quote [of u s] by simp
next
  case (Secret q g b)
  with assms show ?thesis using redactSecrets_at [OF _ _ literalLangI [of b], of q g s] by simp
qed

lemma redactSecrets_pieces:
  "list_all wfPiece ps \<Longrightarrow> redactSecrets (piecesText ps @ s) = concat (map skeleton ps) @ redactSecrets s"
  by (induction ps) (simp_all add: redactSecrets_piece)

text \<open>
  C26. The logged text does not depend on the secrets. Take two queries with the same pieces but
  for the bodies of the literals that follow a \<open>PASSWORD\<close> or \<open>IDENTIFIED BY\<close>, any number of
  them, with any other literals in between: both are logged as the same text, the pieces with
  every such literal replaced by the placeholder.
\<close>

theorem redactSecrets_hides_secret:
  assumes "list_all wfPiece ps" and "list_all wfPiece ps'" and "map skeleton ps = map skeleton ps'"
  shows "redactSecrets (piecesText ps @ s) = redactSecrets (piecesText ps' @ s) \<and>
         redactSecrets (piecesText ps @ s) = concat (map skeleton ps) @ redactSecrets s"
  using assms(3) redactSecrets_pieces [OF assms(1), of s] redactSecrets_pieces [OF assms(2), of s] by simp

text \<open>What follows a keyword in front of a literal that is never closed is copied.\<close>

lemma no_secret_without_quote:
  assumes "quote \<notin> set s" shows "redactSecrets s = s"
  using assms
proof (induction s)
  case (Cons c s)
  have "matchSecret (c # s) = None"
    using Cons.prems matchSecret_None_iff [of "c # s"] by (auto simp: literalLang_def) (metis in_set_conv_decomp set_ConsD append_Cons)+
  with Cons show ?case by (simp add: redactSecrets_skip)
qed (simp add: redactSecrets_Nil)

lemma litBody_plain: "quote \<notin> set u \<Longrightarrow> backslash \<notin> set u \<Longrightarrow> litBody u"
  by (induction u) (auto intro: litBody.litNil litBody.litChar)

lemma matchSecret_open:
  assumes "matchBody s = None" shows "matchSecret s = None" and "matchSecret (c # s) = None"
proof -
  have *: False if gs: "g \<in> prefixLang" and u: "s = u @ quote # x" "set u \<subseteq> set g" for g u x
  proof -
    have "litBody u" using prefixLang_plain [OF gs] u(2) by (intro litBody_plain) auto
    with u(1) assms show False by (simp add: matchBody_complete)
  qed
  show "matchSecret s = None"
  proof (rule ccontr)
    assume "matchSecret s \<noteq> None"
    then obtain g b r where g: "g \<in> prefixLang" "s = g @ quote # b @ quote # r"
      using matchSecret_None_iff [of s] by (auto simp: literalLang_def)
    from * [OF g order_refl] show False .
  qed
  show "matchSecret (c # s) = None"
  proof (rule ccontr)
    assume "matchSecret (c # s) \<noteq> None"
    then obtain g b r where g: "g \<in> prefixLang" "c # s = g @ quote # b @ quote # r"
      using matchSecret_None_iff [of "c # s"] by (auto simp: literalLang_def)
    then obtain h where "g = c # h" using prefixLang_nonempty by (cases g) auto
    with g * [OF g(1), of h] show False by auto
  qed
qed

lemma no_secret_open: "matchBody s = None \<Longrightarrow> redactSecrets s = s"
proof (induction s rule: matchBody.induct)
  case (2 c cs)
  show ?case
  proof (cases "c = backslash")
    case True
    show ?thesis
    proof (cases cs)
      case Nil
      with 2(3) show ?thesis by (simp add: redactSecrets_skip matchSecret_open redactSecrets_Nil)
    next
      case (Cons d ds)
      then have ds: "matchBody ds = None" "c \<noteq> quote" using 2(3) True by (auto split: if_splits)
      then have "redactSecrets ds = ds" using 2(1) True Cons by blast
      then show ?thesis
        using Cons redactSecrets_skip [OF matchSecret_open(2) [OF ds(1)], of d]
          redactSecrets_skip [OF matchSecret_open(1) [OF 2(3)]] by simp
    qed
  next
    case False
    then have "c \<noteq> quote" "matchBody cs = None" using 2(3) by (auto split: if_splits)
    with 2(2) False show ?thesis using redactSecrets_skip [OF matchSecret_open(1) [OF 2(3)]] by simp
  qed
qed (simp add: redactSecrets_Nil)

text \<open>
  C27. Every query is such a sequence of pieces, followed by a rest that is logged as it is: a rest
  without a quote, or one whose last literal is not closed. So the secrets of its pieces are all
  the secrets the query has, and the logged text is determined by the skeletons.
\<close>

theorem redactSecrets_pieces_exist:
  "\<exists>ps rest. list_all wfPiece ps \<and> q = piecesText ps @ rest \<and> redactSecrets rest = rest \<and>
     (if quote \<in> set rest
      then \<exists>p g s. rest = p @ g @ quote # s \<and> quote \<notin> set p \<and> g \<in> prefixLang \<and> matchBody s = None
      else True)"
proof (induction q rule: length_induct)
  case (1 q)
  show ?case
  proof (cases "quote \<in> set q")
    case False
    then show ?thesis by (intro exI [of _ "[]"] exI [of _ q]) (simp add: no_secret_without_quote)
  next
    case True
    then obtain u s where q: "q = u @ quote # s" "quote \<notin> set u" using split_list_first by metis
    show ?thesis
    proof (cases "endsInKeyword u \<and> matchBody s = None")
      case True
      then obtain p g where pg: "u = p @ g" "g \<in> prefixLang" by (auto simp: endsInKeyword_def)
      have "redactSecrets q = q" using q True by (simp add: redactSecrets_upto_quote no_secret_open)
      moreover have "q = p @ g @ quote # s" "quote \<notin> set p" using q pg by simp_all
      ultimately show ?thesis using True pg(2) by (intro exI [of _ "[]"] exI [of _ q]) auto
    next
      case False
      obtain x s' where x: "wfPiece x" "q = pieceText x @ s'" "length s' < length q"
      proof (cases "endsInKeyword u")
        case True
        with False obtain r where r: "matchBody s = Some r" by auto
        then obtain b where b: "litBody b" "s = b @ quote # r" using matchBody_split by blast
        obtain p g where pg: "u = p @ g" "g \<in> prefixLang" using True by (auto simp: endsInKeyword_def)
        then show ?thesis using q b by (intro that [of "Secret p g b" r]) auto
      next
        case False
        then show ?thesis using q by (intro that [of "Plain u" s]) auto
      qed
      with 1 obtain ps rest where ps: "list_all wfPiece ps" "s' = piecesText ps @ rest" "redactSecrets rest = rest"
        "if quote \<in> set rest
         then \<exists>p g s. rest = p @ g @ quote # s \<and> quote \<notin> set p \<and> g \<in> prefixLang \<and> matchBody s = None else True"
        by blast
      then have "list_all wfPiece (x # ps) \<and> q = piecesText (x # ps) @ rest" using x by simp
      with ps(3,4) show ?thesis by blast
    qed
  qed
qed

lemma keywordLang_self: "k \<in> keywordLang k"
proof (induction k)
  case (Cons c cs)
  moreover have "[c] \<in> letterRunes c" by (simp add: letterRunes_def)
  ultimately have "[c] @ cs \<in> keywordLang (c # cs)" unfolding keywordLang.simps by blast
  then show ?case by simp
qed (simp add: keywordLang.simps)

lemma password_prefixLang: "''PASSWORD '' \<in> prefixLang"
  using prefixLangI(1) [OF keywordLang_self, of "'' ''"] by (simp add: spacesLang_def reSpace_def)

lemma litBody_examples: "litBody ''hunter2'' \<and> litBody ''x''"
  by (simp add: litBody.litNil litBody.litChar quote_def backslash_def)

lemma not_endsInKeyword:
  assumes "u \<noteq> []" "\<not> reSpace (last u)" shows "\<not> endsInKeyword u"
proof
  assume "endsInKeyword u"
  then obtain p g where u: "u = p @ g" "g \<in> prefixLang" by (auto simp: endsInKeyword_def)
  have "g \<in> prefixLang \<Longrightarrow> \<exists>h w. w \<in> spacesLang \<and> g = h @ w"
    unfolding prefixLang_def
  proof (elim UnE CollectE exE conjE)
    fix k w k' w' assume "g = k @ w @ k' @ w'" "w' \<in> spacesLang"
    then have "w' \<in> spacesLang \<and> g = (k @ w @ k') @ w'" by simp
    then show ?thesis by blast
  qed blast
  then obtain h w where "g = h @ w" "w \<in> spacesLang" using u(2) by blast
  then have "reSpace (last u)" using u(1) by (auto simp: spacesLang_def)
  with assms(2) show False by simp
qed

theorem redactSecrets_hides_secret_witness:
  "redactSecrets (''ALTER ROLE bob PASSWORD '' @ quote # ''hunter2'' @ quote #
     ''; SELECT('' @ quote # ''a'' @ quote # ''); ALTER ROLE al PASSWORD '' @ quote # ''x'' @ [quote]) =
   redactSecrets (''ALTER ROLE bob PASSWORD '' @ quote # ''x'' @ quote #
     ''; SELECT('' @ quote # ''a'' @ quote # ''); ALTER ROLE al PASSWORD '' @ quote # ''hunter2'' @ [quote])"
proof -
  let ?ps = "\<lambda>b b'. [Secret ''ALTER ROLE bob '' ''PASSWORD '' b, Plain ''; SELECT('', Plain ''a'',
    Secret ''); ALTER ROLE al '' ''PASSWORD '' b']"
  have wf: "list_all wfPiece (?ps b b')" if "litBody b" "litBody b'" for b b'
    using that password_prefixLang
    by (simp add: not_endsInKeyword reSpace_def quote_def)
  have "map skeleton (?ps b b') = map skeleton (?ps c c')" for b b' c c'
    by simp
  note redactSecrets_hides_secret [OF wf [of "''hunter2''" "''x''"] wf [of "''x''" "''hunter2''"] this,
    of "[]", THEN conjunct1]
  then show ?thesis using litBody_examples by simp
qed

text \<open>
  C40. A doubled quote, which SQL reads as one quote character inside the literal, ends the match:
  of every password with a doubled quote the part \<open>v\<close> after it stays in the logged text (unless
  the part itself ends in a keyword), wherever in the query the password stands.
\<close>

theorem redactSecrets_doubled_quote_leak:
  assumes "list_all wfPiece ps" and "wfPiece (Secret p g u)" and "wfPiece (Plain v)"
  shows "redactSecrets (piecesText ps @ p @ g @ quote # u @ quote # quote # v @ quote # s) =
         concat (map skeleton ps) @ p @ g @ placeholder @ quote # v @ quote # redactSecrets s"
proof -
  have "\<not> endsInKeyword []" by (simp add: endsInKeyword_def prefixLang_nonempty)
  then have "list_all wfPiece (ps @ [Secret p g u, Plain [], Plain v])" using assms by simp
  from redactSecrets_pieces [OF this, of s] show ?thesis by simp
qed

theorem redactSecrets_doubled_quote_leak_witness:
  "redactSecrets (''PASSWORD '' @ quote # ''hunter2'' @ quote # quote # ''ter2'' @ [quote]) =
     ''PASSWORD '' @ placeholder @ quote # ''ter2'' @ [quote]"
  using redactSecrets_doubled_quote_leak [of "[]" "[]" "''PASSWORD ''" "''hunter2''" "''ter2''" "[]"]
  by (simp add: password_prefixLang litBody_examples not_endsInKeyword reSpace_def redactSecrets_Nil)
     (simp add: quote_def)

end
