(* ===== verification/Query_Filter.thy ===== *)
theory Query_Filter
  imports Ast_Walk Redact
begin

text \<open>
  The SQL filter of \<^verbatim>\<open>parser/filter.go\<close>: \<open>FilterConfig\<close>, \<open>DefaultFilterConfig\<close>,
  \<open>QueryFilter\<close> with \<open>NewQueryFilter\<close>, \<open>UpdateConfig\<close>, \<open>Filter\<close> and \<open>Handler\<close>,
  \<open>WarnIfFilterConfigIsUnsafe\<close> and \<open>stmtText\<close>.

  The PostgreSQL parser (\<open>pgquery.Parse\<close>, \<open>pgquery.Normalize\<close>) and the Unicode part of
  \<open>strings.EqualFold\<close> are fields of \<open>parser_env\<close>, an argument of every definition that
  uses them; nothing is assumed about them. A parsed query is a list of raw statements over one
  heap of nodes. \<open>Filter\<close> returns the decision together with the log lines it writes; a run-time
  panic (a slice out of range) is \<open>None\<close>, and \<open>Filter_total\<close> shows that there is none.

  Shown: the decision is exactly the conjunction of the signature rule and the per-type rules over
  every nested statement; every rejected construct is found at any depth; the decision is monotone
  in the configuration; the shipped default configuration blocks what it promises to block.
\<close>

section \<open>Configuration\<close>

record FilterConfig =
  AllowSelect :: bool
  AllowInsert :: bool
  AllowUpdate :: bool
  AllowDelete :: bool
  AllowTruncate :: bool
  AllowAlterRole :: bool
  AllowSetVar :: bool
  AllowExecute :: bool
  RequireWhereForUpdate :: bool
  RequireWhereForDelete :: bool
  BlockSetVars :: "string list"
  SignatureFilterEnabled :: bool
  SignatureAllowByDefault :: bool
  SignatureAuditMode :: bool
  OnParseError :: string
  BlockSignatures :: "string list"
  AllowSignatures :: "string list"

definition DefaultFilterConfig :: FilterConfig where
  "DefaultFilterConfig =
     \<lparr>AllowSelect = True, AllowInsert = True, AllowUpdate = True, AllowDelete = True,
      AllowTruncate = False, AllowAlterRole = False, AllowSetVar = True, AllowExecute = False,
      RequireWhereForUpdate = True, RequireWhereForDelete = True,
      BlockSetVars = [''session_authorization'', ''role''],
      SignatureFilterEnabled = False, SignatureAllowByDefault = False, SignatureAuditMode = False,
      OnParseError = [], BlockSignatures = [], AllowSignatures = []\<rparr>"

record QueryFilter =
  config :: FilterConfig

text \<open>The warning is logged (\<open>True\<close>) or not.\<close>

definition WarnIfFilterConfigIsUnsafe :: "FilterConfig \<Rightarrow> bool" where
  "WarnIfFilterConfigIsUnsafe c =
     (SignatureFilterEnabled c \<and> \<not> SignatureAllowByDefault c \<and> length (AllowSignatures c) = 0)"

definition NewQueryFilter :: "FilterConfig \<Rightarrow> QueryFilter \<times> bool" where
  "NewQueryFilter c = (\<lparr>config = c\<rparr>, WarnIfFilterConfigIsUnsafe c)"

definition UpdateConfig :: "QueryFilter \<Rightarrow> FilterConfig \<Rightarrow> QueryFilter \<times> bool" where
  "UpdateConfig f c = (f\<lparr>config := c\<rparr>, WarnIfFilterConfigIsUnsafe c)"

section \<open>The parser's interface\<close>

record RawStmt =
  Stmt :: goval
  StmtLocation :: "32 word"
  StmtLen :: "32 word"

record ParseResult =
  Stmts :: "RawStmt list"
  nodes :: heap

record parser_env =
  pgParse :: "string \<Rightarrow> ParseResult result"
  pgNormalize :: "string \<Rightarrow> string result"
  foldTail :: "string \<Rightarrow> string \<Rightarrow> bool"

text \<open>Go's slice expression \<open>s[i:j]\<close>, which panics out of range.\<close>

definition sliceStr :: "string \<Rightarrow> int \<Rightarrow> int \<Rightarrow> string option" where
  "sliceStr s i j =
     (if 0 \<le> i \<and> i \<le> j \<and> j \<le> int (length s)
      then Some (take (nat (j - i)) (drop (nat i) s)) else None)"

definition stmtText :: "string \<Rightarrow> RawStmt \<Rightarrow> string option" where
  "stmtText query raw =
     (let loc = sint (StmtLocation raw) in
      if loc < 0 \<or> loc > int (length query) then Some query
      else
        let len = sint (StmtLen raw) in
        if len \<le> 0 \<or> loc + len > int (length query)
        then map_option TrimSpace (sliceStr query loc (int (length query)))
        else map_option TrimSpace (sliceStr query loc (loc + len)))"

section \<open>The filter\<close>

datatype log_entry =
    LogParseError go_error
  | LogParseAudit string
  | LogNormalizeError go_error
  | LogSignatureAudit string

definition signatureBlocked :: "FilterConfig \<Rightarrow> string \<Rightarrow> bool" where
  "signatureBlocked cfg sig =
     (if sig \<in> set (BlockSignatures cfg) then True
      else \<not> sig \<in> set (AllowSignatures cfg) \<and> \<not> SignatureAllowByDefault cfg)"

definition checkSignature ::
  "parser_env \<Rightarrow> FilterConfig \<Rightarrow> string \<Rightarrow> RawStmt \<Rightarrow> (bool \<times> log_entry list) option" where
  "checkSignature env cfg query raw =
     (if \<not> SignatureFilterEnabled cfg then Some (True, [])
      else
        case stmtText query raw of
          None \<Rightarrow> None
        | Some text \<Rightarrow>
            (case pgNormalize env text of
               Inl sigErr \<Rightarrow> Some (False, [LogNormalizeError sigErr])
             | Inr norm \<Rightarrow>
                 let sig = TrimSpace norm in
                 if signatureBlocked cfg sig
                 then (if SignatureAuditMode cfg then Some (True, [LogSignatureAudit sig])
                       else Some (False, []))
                 else Some (True, [])))"

definition structField :: "goval \<Rightarrow> string \<Rightarrow> goval option" where
  "structField v name =
     (case v of Struct fs \<Rightarrow> map_of (map (\<lambda>(n, e, x). (n, x)) fs) name | _ \<Rightarrow> None)"

definition whereClauseNil :: "gobj \<Rightarrow> bool" where
  "whereClauseNil n = (structField (oval n) ''WhereClause'' = Some (Ptr None))"

definition varName :: "gobj \<Rightarrow> string" where
  "varName n = (case structField (oval n) ''Name'' of Some (Str s) \<Rightarrow> s | _ \<Rightarrow> [])"

definition checkNode :: "parser_env \<Rightarrow> FilterConfig \<Rightarrow> gobj \<Rightarrow> bool" where
  "checkNode env cfg n =
     (case otype n of
        SelectStmt \<Rightarrow> AllowSelect cfg
      | DeleteStmt \<Rightarrow>
          if \<not> AllowDelete cfg then False
          else \<not> (RequireWhereForDelete cfg \<and> whereClauseNil n)
      | UpdateStmt \<Rightarrow>
          if \<not> AllowUpdate cfg then False
          else \<not> (RequireWhereForUpdate cfg \<and> whereClauseNil n)
      | InsertStmt \<Rightarrow> AllowInsert cfg
      | TruncateStmt \<Rightarrow> AllowTruncate cfg
      | AlterRoleStmt \<Rightarrow> AllowAlterRole cfg
      | VariableSetStmt \<Rightarrow>
          if \<not> AllowSetVar cfg then False
          else list_all (\<lambda>blocked. \<not> EqualFold (foldTail env) (varName n) blocked) (BlockSetVars cfg)
      | ExecuteStmt \<Rightarrow> AllowExecute cfg
      | OtherNode _ \<Rightarrow> True)"

fun checkNodes :: "parser_env \<Rightarrow> FilterConfig \<Rightarrow> heap \<Rightarrow> addr list \<Rightarrow> bool" where
  "checkNodes env cfg h [] = True"
| "checkNodes env cfg h (p # ps) =
     (case map_of h p of
        None \<Rightarrow> checkNodes env cfg h ps
      | Some n \<Rightarrow> if \<not> checkNode env cfg n then False else checkNodes env cfg h ps)"

fun filterStmts ::
  "parser_env \<Rightarrow> FilterConfig \<Rightarrow> string \<Rightarrow> heap \<Rightarrow> RawStmt list \<Rightarrow> (bool \<times> log_entry list) option" where
  "filterStmts env cfg query h [] = Some (True, [])"
| "filterStmts env cfg query h (raw # raws) =
     (case checkSignature env cfg query raw of
        None \<Rightarrow> None
      | Some (ok, log) \<Rightarrow>
          if \<not> ok then Some (False, log)
          else if \<not> checkNodes env cfg h (extractStatements h (Stmt raw)) then Some (False, log)
          else map_option (\<lambda>(ok', log'). (ok', log @ log')) (filterStmts env cfg query h raws))"

definition Filter :: "parser_env \<Rightarrow> QueryFilter \<Rightarrow> string \<Rightarrow> (bool \<times> log_entry list) option" where
  "Filter env f query =
     (let cfg = config f in
      case pgParse env query of
        Inl err \<Rightarrow>
          if OnParseError cfg = ''allow'' \<or> OnParseError cfg = ''audit''
          then Some (True, LogParseError err #
                 (if OnParseError cfg = ''audit'' then [LogParseAudit (redactSecrets query)] else []))
          else Some (False, [LogParseError err])
      | Inr res \<Rightarrow> filterStmts env cfg query (nodes res) (Stmts res))"

text \<open>
  The proxy's handler type returns bytes, where nil means no change, or an error. The filter's
  handler returns the query itself. A panic inside \<open>Filter\<close> is a panic of the handler.
\<close>

definition Handler :: "parser_env \<Rightarrow> QueryFilter \<Rightarrow> string \<Rightarrow> string option result option" where
  "Handler env f query =
     (case Filter env f query of
        None \<Rightarrow> None
      | Some (ok, log) \<Rightarrow>
          Some (if \<not> ok then Inl (ErrorString ''query blocked by filter'') else Inr (Some query)))"

definition accepts :: "parser_env \<Rightarrow> QueryFilter \<Rightarrow> string \<Rightarrow> bool" where
  "accepts env f query = (case Filter env f query of None \<Rightarrow> False | Some (ok, _) \<Rightarrow> ok)"

section \<open>Statement texts\<close>

lemma sliceStr_infix:
  assumes "sliceStr s i j = Some t"
  shows "\<exists>p q. s = p @ t @ q"
proof -
  have "t = take (nat (j - i)) (drop (nat i) s)"
    using assms by (simp add: sliceStr_def split: if_splits)
  then have "s = take (nat i) s @ t @ drop (nat (j - i)) (drop (nat i) s)"
    by (simp only: append_take_drop_id)
  then show ?thesis by blast
qed

lemma sliceStr_defined:
  "0 \<le> i \<Longrightarrow> i \<le> j \<Longrightarrow> j \<le> int (length s) \<Longrightarrow> \<exists>t. sliceStr s i j = Some t"
  by (simp add: sliceStr_def)

lemma TrimSpace_sliceStr_infix:
  assumes "sliceStr s i j = Some t"
  shows "\<exists>p q. s = p @ TrimSpace t @ q"
proof -
  obtain p q where 1: "s = p @ t @ q" using sliceStr_infix assms by blast
  obtain p' q' where 2: "t = p' @ TrimSpace t @ q'" using TrimSpace_infix by blast
  have "s = (p @ p') @ TrimSpace t @ (q' @ q)" using 1 2 by (metis append_assoc)
  then show ?thesis by blast
qed

lemma stmtText_cases:
  "stmtText query raw = Some query \<or>
   (\<exists>i j t. sliceStr query i j = Some t \<and> stmtText query raw = Some (TrimSpace t))"
proof -
  let ?l = "sint (StmtLocation raw)" and ?n = "sint (StmtLen raw)" and ?e = "int (length query)"
  consider "?l < 0 \<or> ?l > ?e"
    | "0 \<le> ?l" "?l \<le> ?e" "?n \<le> 0 \<or> ?l + ?n > ?e"
    | "0 \<le> ?l" "0 < ?n" "?l + ?n \<le> ?e"
    by linarith
  then show ?thesis
  proof cases
    case 1
    then show ?thesis by (auto simp: stmtText_def)
  next
    case 2
    then obtain t where "sliceStr query ?l ?e = Some t"
      using sliceStr_defined [of ?l ?e query] by auto
    with 2 show ?thesis by (auto simp: stmtText_def Let_def)
  next
    case 3
    then obtain t where "sliceStr query ?l (?l + ?n) = Some t"
      using sliceStr_defined [of ?l "?l + ?n" query] by auto
    with 3 show ?thesis by (auto simp: stmtText_def Let_def)
  qed
qed

text \<open>
  C28. The slice expressions of \<open>stmtText\<close> are never out of range, for any location and length
  the parser reports, negative or too large ones included, and the text it returns is a
  contiguous piece of the query.
\<close>

theorem stmtText_in_bounds: "\<exists>t p q. stmtText query raw = Some t \<and> query = p @ t @ q"
  using stmtText_cases [of query raw]
proof
  assume "stmtText query raw = Some query"
  then show ?thesis by (auto intro: exI [of _ "[]"])
next
  assume "\<exists>i j t. sliceStr query i j = Some t \<and> stmtText query raw = Some (TrimSpace t)"
  then show ?thesis using TrimSpace_sliceStr_infix by blast
qed

lemma stmtText_total: "stmtText query raw \<noteq> None"
  using stmtText_cases [of query raw] by auto

section \<open>The decision, exactly\<close>

text \<open>The signature rule of one statement, without the logging.\<close>

definition signatureOk :: "parser_env \<Rightarrow> FilterConfig \<Rightarrow> string \<Rightarrow> RawStmt \<Rightarrow> bool" where
  "signatureOk env cfg query raw =
     (SignatureFilterEnabled cfg \<longrightarrow>
       (case pgNormalize env (the (stmtText query raw)) of
          Inl _ \<Rightarrow> False
        | Inr norm \<Rightarrow> SignatureAuditMode cfg \<or> \<not> signatureBlocked cfg (TrimSpace norm)))"

lemma checkSignature_eq: "\<exists>log. checkSignature env cfg query raw = Some (signatureOk env cfg query raw, log)"
proof -
  obtain t where "stmtText query raw = Some t" using stmtText_total by fastforce
  then show ?thesis
    by (auto simp: checkSignature_def signatureOk_def Let_def split: sum.splits)
qed

lemma checkNodes_iff:
  "checkNodes env cfg h ps \<longleftrightarrow> (\<forall>p \<in> set ps. \<forall>n. map_of h p = Some n \<longrightarrow> checkNode env cfg n)"
  by (induction ps) (auto split: option.splits)

text \<open>A statement is permitted when every node reachable from its root is.\<close>

definition nestedOk :: "parser_env \<Rightarrow> FilterConfig \<Rightarrow> heap \<Rightarrow> goval \<Rightarrow> bool" where
  "nestedOk env cfg h root \<longleftrightarrow>
     (\<forall>p n. reachFrom (nodeSucc h) (ptrs root) p \<longrightarrow> map_of h p = Some n \<longrightarrow> checkNode env cfg n)"

lemma checkNode_other: "\<not> isFilteredStmtType (otype n) \<Longrightarrow> checkNode env cfg n"
  by (cases "otype n") (auto simp: checkNode_def)

lemma checkNodes_extractStatements:
  "checkNodes env cfg h (extractStatements h root) \<longleftrightarrow> nestedOk env cfg h root"
proof
  assume ok: "checkNodes env cfg h (extractStatements h root)"
  show "nestedOk env cfg h root"
    unfolding nestedOk_def
  proof (intro allI impI)
    fix p n
    assume "reachFrom (nodeSucc h) (ptrs root) p" and n: "map_of h p = Some n"
    with ok show "checkNode env cfg n"
      by (cases "isFilteredStmtType (otype n)")
         (auto simp: checkNodes_iff extractStatements_iff filteredAt_def intro: checkNode_other)
  qed
next
  assume "nestedOk env cfg h root"
  then show "checkNodes env cfg h (extractStatements h root)"
    by (auto simp: checkNodes_iff nestedOk_def extractStatements_iff)
qed

lemma filterStmts_eq:
  "\<exists>log. filterStmts env cfg query h raws =
     Some ((\<forall>raw \<in> set raws. signatureOk env cfg query raw \<and> nestedOk env cfg h (Stmt raw)), log)"
proof (induction raws)
  case (Cons raw raws)
  then obtain log log' where "checkSignature env cfg query raw = Some (signatureOk env cfg query raw, log)"
      "filterStmts env cfg query h raws =
         Some ((\<forall>raw \<in> set raws. signatureOk env cfg query raw \<and> nestedOk env cfg h (Stmt raw)), log')"
    using checkSignature_eq by blast
  then show ?case by (auto simp: checkNodes_extractStatements)
qed simp

definition decision :: "parser_env \<Rightarrow> FilterConfig \<Rightarrow> string \<Rightarrow> bool" where
  "decision env cfg query =
     (case pgParse env query of
        Inl _ \<Rightarrow> OnParseError cfg = ''allow'' \<or> OnParseError cfg = ''audit''
      | Inr res \<Rightarrow> \<forall>raw \<in> set (Stmts res).
          signatureOk env cfg query raw \<and> nestedOk env cfg (nodes res) (Stmt raw))"

lemma Filter_eq: "\<exists>log. Filter env f query = Some (decision env (config f) query, log)"
proof (cases "pgParse env query")
  case (Inl e)
  then show ?thesis by (simp add: Filter_def decision_def Let_def)
next
  case (Inr res)
  then show ?thesis
    using filterStmts_eq [of env "config f" query "nodes res" "Stmts res"]
    by (simp add: Filter_def decision_def Let_def)
qed

lemma accepts_decision [decision_simps]: "accepts env f query \<longleftrightarrow> decision env (config f) query"
  using Filter_eq [of env f query] by (auto simp: accepts_def)

lemma Filter_total: "Filter env f query \<noteq> None"
  using Filter_eq [of env f query] by auto

text \<open>
  C5. \<open>Filter\<close> always returns a decision, and the decision is exactly this: a query that does not
  parse is allowed when \<open>on_parse_error\<close> is \<open>allow\<close> or \<open>audit\<close>; a query that parses is
  allowed when every one of its statements passes the signature rule and every node reachable from
  the statement's root, at any depth, passes the rule for its type.
\<close>

theorem Filter_decision:
  "\<exists>log. Filter env f query =
     Some ((case pgParse env query of
              Inl _ \<Rightarrow> OnParseError (config f) = ''allow'' \<or> OnParseError (config f) = ''audit''
            | Inr res \<Rightarrow>
                list_all (\<lambda>raw. signatureOk env (config f) query raw \<and>
                                 nestedOk env (config f) (nodes res) (Stmt raw)) (Stmts res)), log)"
  using Filter_eq [of env f query]
  by (cases "pgParse env query") (auto simp: decision_def list_all_iff)

section \<open>No bypass by nesting\<close>

text \<open>What an accepted configuration rule says about one node, type by type.\<close>

definition nodePermitted :: "parser_env \<Rightarrow> FilterConfig \<Rightarrow> gobj \<Rightarrow> bool" where
  "nodePermitted env cfg n \<longleftrightarrow>
     (otype n = SelectStmt \<longrightarrow> AllowSelect cfg) \<and>
     (otype n = InsertStmt \<longrightarrow> AllowInsert cfg) \<and>
     (otype n = UpdateStmt \<longrightarrow> AllowUpdate cfg \<and> (RequireWhereForUpdate cfg \<longrightarrow> \<not> whereClauseNil n)) \<and>
     (otype n = DeleteStmt \<longrightarrow> AllowDelete cfg \<and> (RequireWhereForDelete cfg \<longrightarrow> \<not> whereClauseNil n)) \<and>
     (otype n = TruncateStmt \<longrightarrow> AllowTruncate cfg) \<and>
     (otype n = AlterRoleStmt \<longrightarrow> AllowAlterRole cfg) \<and>
     (otype n = VariableSetStmt \<longrightarrow> AllowSetVar cfg \<and>
        (\<forall>b \<in> set (BlockSetVars cfg). \<not> EqualFold (foldTail env) (varName n) b)) \<and>
     (otype n = ExecuteStmt \<longrightarrow> AllowExecute cfg)"

lemma checkNode_permitted [decision_simps]: "checkNode env cfg n \<longleftrightarrow> nodePermitted env cfg n"
  by (cases "otype n") (auto simp: checkNode_def nodePermitted_def list_all_iff)

lemma accepts_nested:
  assumes "accepts env f query" and "pgParse env query = Inr res" and "raw \<in> set (Stmts res)"
    and "reachFrom (nodeSucc (nodes res)) (ptrs (Stmt raw)) p" and "map_of (nodes res) p = Some n"
  shows "checkNode env (config f) n"
  using assms by (auto simp: accepts_decision decision_def nestedOk_def)

text \<open>
  C11. Nesting is no way around the rules: in an accepted query, every statement node reachable
  from the root of any of its statements, at any depth, satisfies the rule of its type; in
  particular no \<open>DELETE\<close> or \<open>UPDATE\<close> without a \<open>WHERE\<close> clause passes where one is required.
\<close>

theorem accepted_nested_permitted:
  assumes "accepts env f query" and "pgParse env query = Inr res" and "raw \<in> set (Stmts res)"
    and "reachFrom (nodeSucc (nodes res)) (ptrs (Stmt raw)) p" and "map_of (nodes res) p = Some n"
  shows "nodePermitted env (config f) n"
  using accepts_nested [OF assms] by (simp add: checkNode_permitted)

text \<open>
  A concrete query for the witnesses: a \<open>DELETE\<close> with a \<open>WHERE\<close> clause inside a common table
  expression of a \<open>SELECT\<close>, as the parser represents it.
\<close>

definition cteHeap :: heap where
  "cteHeap =
     [(0, \<lparr>otype = OtherNode ''Node'', oval = Struct
            [(''state'', False, Scalar 0), (''Node'', True, Iface (Some (Ptr (Some 1))))]\<rparr>),
      (1, \<lparr>otype = OtherNode ''Node_SelectStmt'', oval = Struct [(''SelectStmt'', True, Ptr (Some 2))]\<rparr>),
      (2, \<lparr>otype = SelectStmt, oval = Struct
            [(''WhereClause'', True, Ptr None), (''WithClause'', True, Ptr (Some 3))]\<rparr>),
      (3, \<lparr>otype = OtherNode ''WithClause'', oval = Struct [(''Ctes'', True, Slice [Ptr (Some 4)])]\<rparr>),
      (4, \<lparr>otype = OtherNode ''Node_DeleteStmt'', oval = Struct [(''DeleteStmt'', True, Ptr (Some 5))]\<rparr>),
      (5, \<lparr>otype = DeleteStmt, oval = Struct [(''WhereClause'', True, Ptr (Some 6))]\<rparr>),
      (6, \<lparr>otype = OtherNode ''Node'', oval = Struct [(''Node'', True, Iface None)]\<rparr>)]"

definition cteStmt :: RawStmt where
  "cteStmt = \<lparr>Stmt = Ptr (Some 0), StmtLocation = 0, StmtLen = 0\<rparr>"

definition cteEnv :: parser_env where
  "cteEnv =
     \<lparr>pgParse = (\<lambda>q. if q = ''bad'' then Inl (ErrorString ''syntax error'')
                     else Inr \<lparr>Stmts = [cteStmt], nodes = cteHeap\<rparr>),
      pgNormalize = Inr, foldTail = (\<lambda>_ _. False)\<rparr>"

definition defaultFilter :: QueryFilter where
  "defaultFilter = \<lparr>config = DefaultFilterConfig\<rparr>"

lemma cte_accepted: "accepts cteEnv defaultFilter ''WITH''"
  by code_simp

lemma cte_delete_reachable: "reachFrom (nodeSucc cteHeap) (ptrs (Stmt cteStmt)) 5"
proof -
  have "5 \<in> set (extractStatements cteHeap (Stmt cteStmt))" by code_simp
  then show ?thesis by (simp add: extractStatements_iff)
qed

theorem accepted_nested_permitted_witness:
  "nodePermitted cteEnv (config defaultFilter)
     \<lparr>otype = DeleteStmt, oval = Struct [(''WhereClause'', True, Ptr (Some 6))]\<rparr>"
  by (rule accepted_nested_permitted [OF cte_accepted, where raw = cteStmt and p = 5 and
        res = "\<lparr>Stmts = [cteStmt], nodes = cteHeap\<rparr>"])
     (use cte_delete_reachable in \<open>simp_all add: cteEnv_def cteHeap_def\<close>)

section \<open>The configuration order\<close>

text \<open>\<open>c'\<close> grants at least what \<open>c\<close> grants.\<close>

definition atLeastAsPermissive :: "FilterConfig \<Rightarrow> FilterConfig \<Rightarrow> bool" where
  "atLeastAsPermissive c c' \<longleftrightarrow>
     (AllowSelect c \<longrightarrow> AllowSelect c') \<and> (AllowInsert c \<longrightarrow> AllowInsert c') \<and>
     (AllowUpdate c \<longrightarrow> AllowUpdate c') \<and> (AllowDelete c \<longrightarrow> AllowDelete c') \<and>
     (AllowTruncate c \<longrightarrow> AllowTruncate c') \<and> (AllowAlterRole c \<longrightarrow> AllowAlterRole c') \<and>
     (AllowSetVar c \<longrightarrow> AllowSetVar c') \<and> (AllowExecute c \<longrightarrow> AllowExecute c') \<and>
     (RequireWhereForUpdate c' \<longrightarrow> RequireWhereForUpdate c) \<and>
     (RequireWhereForDelete c' \<longrightarrow> RequireWhereForDelete c) \<and>
     set (BlockSetVars c') \<subseteq> set (BlockSetVars c) \<and>
     (SignatureFilterEnabled c' \<longrightarrow> SignatureFilterEnabled c) \<and>
     (SignatureAllowByDefault c \<longrightarrow> SignatureAllowByDefault c') \<and>
     (SignatureAuditMode c \<longrightarrow> SignatureAuditMode c') \<and>
     set (BlockSignatures c') \<subseteq> set (BlockSignatures c) \<and>
     set (AllowSignatures c) \<subseteq> set (AllowSignatures c') \<and>
     (OnParseError c \<in> {''allow'', ''audit''} \<longrightarrow> OnParseError c' \<in> {''allow'', ''audit''})"

lemma permissiveD:
  assumes "atLeastAsPermissive c c'"
  shows "AllowSelect c \<longrightarrow> AllowSelect c'" "AllowInsert c \<longrightarrow> AllowInsert c'"
    "AllowUpdate c \<longrightarrow> AllowUpdate c'" "AllowDelete c \<longrightarrow> AllowDelete c'"
    "AllowTruncate c \<longrightarrow> AllowTruncate c'" "AllowAlterRole c \<longrightarrow> AllowAlterRole c'"
    "AllowSetVar c \<longrightarrow> AllowSetVar c'" "AllowExecute c \<longrightarrow> AllowExecute c'"
    "RequireWhereForUpdate c' \<longrightarrow> RequireWhereForUpdate c"
    "RequireWhereForDelete c' \<longrightarrow> RequireWhereForDelete c"
    "set (BlockSetVars c') \<subseteq> set (BlockSetVars c)"
    "OnParseError c \<in> {''allow'', ''audit''} \<longrightarrow> OnParseError c' \<in> {''allow'', ''audit''}"
  using assms unfolding atLeastAsPermissive_def by - (elim conjE, assumption)+

lemma nodePermitted_mono:
  assumes "atLeastAsPermissive c c'" and "nodePermitted env c n"
  shows "nodePermitted env c' n"
proof (cases "otype n")
  case SelectStmt
  with assms(2) permissiveD(1) [OF assms(1)] show ?thesis by (simp add: nodePermitted_def)
next
  case InsertStmt
  with assms(2) permissiveD(2) [OF assms(1)] show ?thesis by (simp add: nodePermitted_def)
next
  case UpdateStmt
  with assms(2) permissiveD(3,9) [OF assms(1)] show ?thesis by (auto simp: nodePermitted_def)
next
  case DeleteStmt
  with assms(2) permissiveD(4,10) [OF assms(1)] show ?thesis by (auto simp: nodePermitted_def)
next
  case TruncateStmt
  with assms(2) permissiveD(5) [OF assms(1)] show ?thesis by (simp add: nodePermitted_def)
next
  case AlterRoleStmt
  with assms(2) permissiveD(6) [OF assms(1)] show ?thesis by (simp add: nodePermitted_def)
next
  case VariableSetStmt
  with assms(2) permissiveD(7,11) [OF assms(1)] show ?thesis by (auto simp: nodePermitted_def)
next
  case ExecuteStmt
  with assms(2) permissiveD(8) [OF assms(1)] show ?thesis by (simp add: nodePermitted_def)
next
  case (OtherNode x)
  then show ?thesis by (simp add: nodePermitted_def)
qed

lemma signatureBlocked_mono:
  assumes "atLeastAsPermissive c c'" and "signatureBlocked c' sig"
  shows "signatureBlocked c sig"
proof -
  have "SignatureAllowByDefault c \<longrightarrow> SignatureAllowByDefault c'"
    and "set (BlockSignatures c') \<subseteq> set (BlockSignatures c)"
    and "set (AllowSignatures c) \<subseteq> set (AllowSignatures c')"
    using assms(1) by (simp_all add: atLeastAsPermissive_def)
  with assms(2) show ?thesis by (auto simp: signatureBlocked_def split: if_splits)
qed

lemma signatureOk_mono:
  assumes "atLeastAsPermissive c c'" and "signatureOk env c query raw"
  shows "signatureOk env c' query raw"
proof -
  have "SignatureFilterEnabled c' \<longrightarrow> SignatureFilterEnabled c"
    and "SignatureAuditMode c \<longrightarrow> SignatureAuditMode c'"
    using assms(1) by (simp_all add: atLeastAsPermissive_def)
  with assms show ?thesis
    using signatureBlocked_mono [OF assms(1)] by (auto simp: signatureOk_def split: sum.splits)
qed

lemma decision_mono:
  assumes "atLeastAsPermissive c c'" and "decision env c query"
  shows "decision env c' query"
proof (cases "pgParse env query")
  case (Inl e)
  with assms(2) permissiveD(12) [OF assms(1)] show ?thesis by (auto simp: decision_def)
next
  case (Inr res)
  with assms show ?thesis
    by (auto simp: decision_def nestedOk_def checkNode_permitted
        intro: signatureOk_mono nodePermitted_mono)
qed

text \<open>
  C13. The decision is monotone in the configuration: loosening any setting (allowing a statement
  type, dropping a \<open>WHERE\<close> requirement, shortening a block list, extending an allow list, turning
  the signature filter off or its audit mode on, allowing unparsable queries) never makes an
  accepted query rejected.
\<close>

theorem Filter_mono:
  assumes "atLeastAsPermissive (config f) (config f')" and "accepts env f query"
  shows "accepts env f' query"
  using assms decision_mono by (auto simp: accepts_decision)

theorem Filter_mono_witness:
  "accepts cteEnv \<lparr>config = DefaultFilterConfig\<lparr>RequireWhereForDelete := False\<rparr>\<rparr> ''WITH''"
  by (rule Filter_mono [OF _ cte_accepted])
     (simp add: defaultFilter_def atLeastAsPermissive_def DefaultFilterConfig_def)

section \<open>The unsafe signature configuration\<close>

lemma signatureOk_warned:
  assumes "WarnIfFilterConfigIsUnsafe cfg" and "\<not> SignatureAuditMode cfg"
  shows "\<not> signatureOk env cfg query raw"
  using assms by (auto simp: WarnIfFilterConfigIsUnsafe_def signatureOk_def signatureBlocked_def
      split: sum.splits)

text \<open>
  C29. The configuration \<open>NewQueryFilter\<close> and \<open>UpdateConfig\<close> warn about blocks every query
  that parses to at least one statement, as the warning says, unless audit mode is on.
\<close>

theorem warned_config_blocks_everything:
  assumes "snd (UpdateConfig f cfg)" and "\<not> SignatureAuditMode cfg"
    and "pgParse env query = Inr res" and "Stmts res \<noteq> []"
  shows "\<not> accepts env (fst (UpdateConfig f cfg)) query"
proof -
  obtain raw where "raw \<in> set (Stmts res)" using assms(4) by (cases "Stmts res") auto
  with assms show ?thesis
    by (auto simp: UpdateConfig_def accepts_decision decision_def signatureOk_warned)
qed

definition emptyAllowList :: FilterConfig where
  "emptyAllowList = DefaultFilterConfig\<lparr>SignatureFilterEnabled := True\<rparr>"

theorem warned_config_blocks_everything_witness:
  "\<not> accepts cteEnv (fst (UpdateConfig defaultFilter emptyAllowList)) ''WITH''"
  by (rule warned_config_blocks_everything [where res = "\<lparr>Stmts = [cteStmt], nodes = cteHeap\<rparr>"])
     (simp_all add: emptyAllowList_def DefaultFilterConfig_def UpdateConfig_def
        WarnIfFilterConfigIsUnsafe_def cteEnv_def)

text \<open>The rules for nodes do not depend on the signature settings.\<close>

lemma nestedOk_signature_settings:
  "nestedOk env (cfg\<lparr>SignatureAuditMode := b\<rparr>) h v = nestedOk env cfg h v"
  "nestedOk env (cfg\<lparr>SignatureFilterEnabled := b\<rparr>) h v = nestedOk env cfg h v"
proof -
  have "checkNode env (cfg\<lparr>SignatureAuditMode := b\<rparr>) n = checkNode env cfg n"
    "checkNode env (cfg\<lparr>SignatureFilterEnabled := b\<rparr>) n = checkNode env cfg n" for n
    by (cases "otype n"; simp add: checkNode_def)+
  then show "nestedOk env (cfg\<lparr>SignatureAuditMode := b\<rparr>) h v = nestedOk env cfg h v"
    "nestedOk env (cfg\<lparr>SignatureFilterEnabled := b\<rparr>) h v = nestedOk env cfg h v"
    by (simp_all add: nestedOk_def)
qed

text \<open>
  C38. The warning that every statement will be blocked does not look at audit mode: it is logged
  for a configuration with audit mode on whenever it is logged with audit mode off. Yet with audit
  mode on the signature rule blocks nothing. A query that parses and whose statements normalize is
  decided as if the signature filter were off.
\<close>

theorem warned_config_audit_allows:
  assumes "pgParse env query = Inr res"
    and "\<forall>raw \<in> set (Stmts res). \<not> isl (pgNormalize env (the (stmtText query raw)))"
  shows "snd (UpdateConfig f (cfg\<lparr>SignatureAuditMode := True\<rparr>)) = snd (UpdateConfig f (cfg\<lparr>SignatureAuditMode := False\<rparr>)) \<and>
    (accepts env (fst (UpdateConfig f (cfg\<lparr>SignatureAuditMode := True\<rparr>))) query \<longleftrightarrow>
     accepts env (fst (UpdateConfig f (cfg\<lparr>SignatureFilterEnabled := False\<rparr>))) query)"
proof -
  have "signatureOk env (cfg\<lparr>SignatureAuditMode := True\<rparr>) query raw" if "raw \<in> set (Stmts res)" for raw
    using assms(2) that by (auto simp: signatureOk_def split: sum.splits)
  moreover have "signatureOk env (cfg\<lparr>SignatureFilterEnabled := False\<rparr>) query raw" for raw
    by (simp add: signatureOk_def)
  ultimately show ?thesis using assms(1)
    by (auto simp: UpdateConfig_def WarnIfFilterConfigIsUnsafe_def accepts_decision decision_def nestedOk_signature_settings)
qed

theorem warned_config_audit_allows_witness:
  "snd (UpdateConfig defaultFilter (emptyAllowList\<lparr>SignatureAuditMode := True\<rparr>)) \<and>
   accepts cteEnv (fst (UpdateConfig defaultFilter (emptyAllowList\<lparr>SignatureAuditMode := True\<rparr>))) ''WITH''"
proof -
  have "checkNodes cteEnv emptyAllowList cteHeap (extractStatements cteHeap (Stmt cteStmt))" by code_simp
  then have ok: "nestedOk cteEnv emptyAllowList cteHeap (Stmt cteStmt)" by (simp add: checkNodes_extractStatements)
  have "pgParse cteEnv ''WITH'' = Inr \<lparr>Stmts = [cteStmt], nodes = cteHeap\<rparr>" by (simp add: cteEnv_def)
  with ok have "accepts cteEnv (fst (UpdateConfig defaultFilter (emptyAllowList\<lparr>SignatureFilterEnabled := False\<rparr>))) ''WITH''"
    by (simp add: UpdateConfig_def accepts_decision decision_def signatureOk_def nestedOk_signature_settings)
  moreover have "snd (UpdateConfig defaultFilter (emptyAllowList\<lparr>SignatureAuditMode := False\<rparr>))" by code_simp
  ultimately show ?thesis
    using warned_config_audit_allows [of cteEnv "''WITH''" "\<lparr>Stmts = [cteStmt], nodes = cteHeap\<rparr>" defaultFilter emptyAllowList]
    by (simp add: cteEnv_def)
qed

section \<open>The default configuration\<close>

definition refusedByDefault :: "gobj \<Rightarrow> bool" where
  "refusedByDefault n \<longleftrightarrow>
     otype n \<in> {TruncateStmt, AlterRoleStmt, ExecuteStmt} \<or>
     (otype n \<in> {UpdateStmt, DeleteStmt} \<and> whereClauseNil n) \<or>
     (otype n = VariableSetStmt \<and> lower (varName n) \<in> {lower ''session_authorization'', lower ''role''}
        \<and> ascii (varName n))"

lemma refusedByDefault_not_permitted:
  assumes "refusedByDefault n"
  shows "\<not> nodePermitted env DefaultFilterConfig n"
proof (cases "otype n = VariableSetStmt")
  case True
  have "ascii ''session_authorization''" "ascii ''role''" by code_simp+
  with True assms show ?thesis
    by (auto simp: refusedByDefault_def nodePermitted_def DefaultFilterConfig_def EqualFold_ascii)
next
  case False
  with assms show ?thesis
    by (auto simp: refusedByDefault_def nodePermitted_def DefaultFilterConfig_def)
qed

text \<open>
  C12. The shipped default configuration rejects every query that parses and contains, at any
  depth, a \<open>TRUNCATE\<close>, an \<open>ALTER ROLE\<close>, an \<open>EXECUTE\<close>, an \<open>UPDATE\<close> or \<open>DELETE\<close> without
  \<open>WHERE\<close>, or a \<open>SET\<close> or \<open>RESET\<close> of \<open>role\<close> or \<open>session_authorization\<close> in any
  capitalisation.
\<close>

theorem default_config_blocks:
  assumes "pgParse env query = Inr res" and "raw \<in> set (Stmts res)"
    and "reachFrom (nodeSucc (nodes res)) (ptrs (Stmt raw)) p" and "map_of (nodes res) p = Some n"
    and "refusedByDefault n"
  shows "\<not> accepts env (fst (NewQueryFilter DefaultFilterConfig)) query"
proof
  assume "accepts env (fst (NewQueryFilter DefaultFilterConfig)) query"
  then have "checkNode env DefaultFilterConfig n"
    using accepts_nested [OF _ assms(1-4)] by (fastforce simp: NewQueryFilter_def)
  with refusedByDefault_not_permitted [OF assms(5)] show False
    by (simp add: checkNode_permitted)
qed

definition setRoleHeap :: heap where
  "setRoleHeap =
     [(0, \<lparr>otype = OtherNode ''Node_VariableSetStmt'', oval = Struct [(''VariableSetStmt'', True, Ptr (Some 1))]\<rparr>),
      (1, \<lparr>otype = VariableSetStmt, oval = Struct [(''Name'', True, Str ''ROLE'')]\<rparr>)]"

theorem default_config_blocks_witness:
  "\<not> accepts \<lparr>pgParse = (\<lambda>q. Inr \<lparr>Stmts = [cteStmt], nodes = setRoleHeap\<rparr>), pgNormalize = Inr,
              foldTail = (\<lambda>_ _. False)\<rparr> (fst (NewQueryFilter DefaultFilterConfig)) ''SET ROLE admin''"
proof -
  have "1 \<in> set (extractStatements setRoleHeap (Stmt cteStmt))" by code_simp
  then have r: "reachFrom (nodeSucc setRoleHeap) (ptrs (Stmt cteStmt)) 1"
    by (simp add: extractStatements_iff)
  have n: "map_of setRoleHeap 1 = Some \<lparr>otype = VariableSetStmt, oval = Struct [(''Name'', True, Str ''ROLE'')]\<rparr>"
    by (simp add: setRoleHeap_def)
  have "refusedByDefault \<lparr>otype = VariableSetStmt, oval = Struct [(''Name'', True, Str ''ROLE'')]\<rparr>"
    unfolding refusedByDefault_def by code_simp
  with r n show ?thesis
    by (intro default_config_blocks [where raw = cteStmt and p = 1 and
          res = "\<lparr>Stmts = [cteStmt], nodes = setRoleHeap\<rparr>"]) simp_all
qed

section \<open>The handler\<close>

text \<open>The handler as the proxy calls it: a function that always returns.\<close>

definition filterHandler :: "parser_env \<Rightarrow> QueryFilter \<Rightarrow> handler" where
  "filterHandler env f query =
     (case Handler env f query of Some r \<Rightarrow> r | None \<Rightarrow> Inl (ErrorString ''panic''))"

lemma filterHandler_eq:
  "filterHandler env f query =
     (if accepts env f query then Inr (Some query) else Inl (ErrorString ''query blocked by filter''))"
  using Filter_eq [of env f query] by (auto simp: filterHandler_def Handler_def accepts_def)

interpretation filter_policy: query_policy "filterHandler env f" "accepts env f" for env f
  by unfold_locales (auto simp: filterHandler_eq split: if_splits)

end
