(* ===== verification/Go_Time.thy ===== *)
theory Go_Time
  imports Proxy_Options
begin

text \<open>
  \<open>time.ParseDuration\<close> of Go's standard library, which the program uses to read the timeouts of its
  configuration. Durations are counted in nanoseconds in 64-bit words. The one floating-point
  operation, the fractional part \<open>f / 10^k\<close> of a unit, is the argument \<open>frac\<close>; the rest is exact
  integer arithmetic with the overflow checks of the library.
\<close>

text \<open>\<open>leadingInt\<close>: the digits in front; \<open>None\<close> on overflow of 2 to the 63.\<close>

fun leadingInt :: "string \<Rightarrow> nat \<Rightarrow> (nat \<times> string) option" where
  "leadingInt [] x = Some (x, [])"
| "leadingInt (ch # s) x =
     (case digitVal ch of
        None \<Rightarrow> Some (x, ch # s)
      | Some d \<Rightarrow>
          if x > 2 ^ 63 div 10 then None
          else if x * 10 + d > 2 ^ 63 then None
          else leadingInt s (x * 10 + d))"

text \<open>\<open>leadingFraction\<close>: digits beyond the precision are read and ignored; \<open>k\<close> counts those used.\<close>

fun leadingFraction :: "string \<Rightarrow> nat \<Rightarrow> nat \<Rightarrow> bool \<Rightarrow> nat \<times> nat \<times> string" where
  "leadingFraction [] x k overflow = (x, k, [])"
| "leadingFraction (ch # s) x k overflow =
     (case digitVal ch of
        None \<Rightarrow> (x, k, ch # s)
      | Some d \<Rightarrow>
          if overflow then leadingFraction s x k True
          else if x > (2 ^ 63 - 1) div 10 then leadingFraction s x k True
          else if x * 10 + d > 2 ^ 63 then leadingFraction s x k True
          else leadingFraction s (x * 10 + d) (k + 1) False)"

definition unitMap :: "string \<Rightarrow> nat option" where
  "unitMap u =
     map_of [(''ns'', 1), (''us'', 1000), (bytes [194, 181, 115], 1000), (bytes [206, 188, 115], 1000),
             (''ms'', 1000000), (''s'', 1000000000), (''m'', 60000000000), (''h'', 3600000000000)] u"

definition isUnitChar :: "char \<Rightarrow> bool" where
  "isUnitChar ch = (ch \<noteq> CHR ''.'' \<and> digitVal ch = None)"

text \<open>The optional fraction: its digits, how many, the rest, and whether there were any.\<close>

definition fractionPart :: "string \<Rightarrow> nat \<times> nat \<times> string \<times> bool" where
  "fractionPart s =
     (case s of
        [] \<Rightarrow> (0, 0, s, False)
      | ch # t \<Rightarrow>
          if ch = CHR ''.''
          then (case leadingFraction t 0 0 False of (f, k, r) \<Rightarrow> (f, k, r, length r \<noteq> length t))
          else (0, 0, s, False))"

text \<open>One number with its unit: its nanoseconds and the rest of the text.\<close>

definition durationPart :: "(nat \<Rightarrow> nat \<Rightarrow> nat \<Rightarrow> nat) \<Rightarrow> string \<Rightarrow> (nat \<times> string) option" where
  "durationPart frac s =
     (if s = [] \<or> (hd s \<noteq> CHR ''.'' \<and> digitVal (hd s) = None) then None
      else
        (case leadingInt s 0 of
           None \<Rightarrow> None
         | Some (v, s1) \<Rightarrow>
             let pre = (length s1 \<noteq> length s);
                 (f, k, s2, post) = fractionPart s1 in
             if \<not> pre \<and> \<not> post then None
             else
               let u = takeWhile isUnitChar s2; s3 = dropWhile isUnitChar s2 in
               if u = [] then None
               else
                 (case unitMap u of
                    None \<Rightarrow> None
                  | Some unit \<Rightarrow>
                      if v > 2 ^ 63 div unit then None
                      else
                        let w = v * unit + (if f > 0 then frac f k unit else 0) in
                        if f > 0 \<and> w > 2 ^ 63 then None else Some (w, s3))))"

text \<open>
  The loop over the parts; each part consumes at least its unit, so as many turns as the text has
  characters are enough, and the fuel is the length of the text.
\<close>

fun durationLoop :: "(nat \<Rightarrow> nat \<Rightarrow> nat \<Rightarrow> nat) \<Rightarrow> nat \<Rightarrow> string \<Rightarrow> nat \<Rightarrow> nat option" where
  "durationLoop frac 0 s d = (if s = [] then Some d else None)"
| "durationLoop frac (Suc n) s d =
     (if s = [] then Some d
      else
        (case durationPart frac s of
           None \<Rightarrow> None
         | Some (v, r) \<Rightarrow> if d + v > 2 ^ 63 then None else durationLoop frac n r (d + v)))"

definition ParseDuration :: "(nat \<Rightarrow> nat \<Rightarrow> nat \<Rightarrow> nat) \<Rightarrow> string \<Rightarrow> Duration result" where
  "ParseDuration frac orig =
     (let neg = (orig \<noteq> [] \<and> hd orig = CHR ''-'');
          s = (if orig \<noteq> [] \<and> (hd orig = CHR ''-'' \<or> hd orig = CHR ''+'') then tl orig else orig);
          bad = Inl (Errorf [Lit ''time: invalid duration '', Quoted orig]) in
      if s = ''0'' then Inr 0
      else if s = [] then bad
      else
        (case durationLoop frac (length s) s 0 of
           None \<Rightarrow> bad
         | Some d \<Rightarrow>
             if neg then Inr (- of_nat d)
             else if d > 2 ^ 63 - 1 then bad
             else Inr (of_nat d)))"

section \<open>The fuel is enough\<close>

lemma leadingInt_rest: "leadingInt s x = Some (v, r) \<Longrightarrow> length r \<le> length s"
  by (induction s x rule: leadingInt.induct) (auto split: option.splits if_splits)

lemma leadingFraction_rest: "leadingFraction s x k b = (f, m, r) \<Longrightarrow> length r \<le> length s"
  by (induction s x k b rule: leadingFraction.induct) (auto split: option.splits if_splits)

lemma fractionPart_rest: "fractionPart s = (f, k, r, post) \<Longrightarrow> length r \<le> length s"
  by (auto simp: fractionPart_def split: list.splits if_splits prod.splits dest!: leadingFraction_rest)

lemma durationPart_consumes:
  assumes "durationPart frac s = Some (v, r)"
  shows "length r < length s"
proof -
  obtain w s1 where i: "leadingInt s 0 = Some (w, s1)"
    using assms by (auto simp: durationPart_def split: option.splits if_splits)
  obtain f k s2 post where q: "fractionPart s1 = (f, k, s2, post)" by (cases "fractionPart s1") auto
  have "r = dropWhile isUnitChar s2" "takeWhile isUnitChar s2 \<noteq> []"
    using assms i q by (auto simp: durationPart_def Let_def split: option.splits if_splits)
  moreover have "length (takeWhile isUnitChar s2) + length (dropWhile isUnitChar s2) = length s2"
    by (metis length_append takeWhile_dropWhile_id)
  ultimately show ?thesis
    using fractionPart_rest [OF q] leadingInt_rest [OF i] by (cases "takeWhile isUnitChar s2") auto
qed

lemma durationLoop_fuel:
  "length s \<le> n \<Longrightarrow> length s \<le> m \<Longrightarrow> durationLoop frac n s d = durationLoop frac m s d"
proof (induction n arbitrary: m s d)
  case 0
  then show ?case by (cases m) auto
next
  case (Suc n)
  show ?case
  proof (cases m)
    case 0
    with Suc.prems show ?thesis by simp
  next
    case (Suc m')
    show ?thesis
    proof (cases "durationPart frac s")
      case None
      with Suc show ?thesis by simp
    next
      case (Some p)
      obtain v r where p: "p = (v, r)" by (cases p)
      have "length r < length s" using durationPart_consumes Some p by blast
      then have "durationLoop frac n r (d + v) = durationLoop frac m' r (d + v)"
        using Suc.IH [of r m' "d + v"] Suc.prems Suc by simp
      with Suc Some p show ?thesis by simp
    qed
  qed
qed

end
