(* ===== verification/Cli.thy ===== *)
theory Cli
  imports Server_Properties Query_Filter Go_Time
begin

text \<open>
  The command line program, \<^verbatim>\<open>cli/cli.go\<close>, \<^verbatim>\<open>cli/utils.go\<close> and \<^verbatim>\<open>main.go\<close>:
  \<open>ProxyConfig\<close>, \<open>readConfig\<close>, \<open>buildStartOptions\<close>, \<open>reloadFilterConfig\<close>, \<open>run\<close>,
  \<open>logMetricsPeriodically\<close>, \<open>mainBody\<close>, \<open>main\<close>.

  The TOML decoder fills in the configuration it is given; it and the file system are the fields of
  a \<open>cli_env\<close>. Each reload signal comes with the environment at that time, since the file may have
  changed.

  \<open>run\<close> is given twice. The function \<open>run\<close> is what its own goroutine does with a list of signals, the
  others standing still. The relation \<open>program_step\<close> interleaves that goroutine with those of the
  server it has started: reloading replaces the state of the handler that the sessions use at that
  moment, the exit signal stops the periodic log and calls the server's \<open>stop\<close>, and the program ends
  when that returns. \<open>run_is_an_interleaving\<close> relates the two.
\<close>

section \<open>Configuration\<close>

record ServerConfig =
  ProxyAddr :: string
  TLSCert :: string
  TLSKey :: string
  TLSClientCA :: string
  MaxConnections :: int64
  IdleTimeout :: string
  MetricsLogInterval :: string

text \<open>The map of databases is kept as the list of its entries.\<close>

record ProxyConfig =
  pcServer :: ServerConfig
  pcDB :: "(string \<times> DBConfig) list"
  pcFilter :: FilterConfig
  pcACL :: ACL

definition zeroProxyConfig :: ProxyConfig where
  "zeroProxyConfig =
     \<lparr>pcServer = \<lparr>ProxyAddr = [], TLSCert = [], TLSKey = [], TLSClientCA = [], MaxConnections = 0,
                  IdleTimeout = [], MetricsLogInterval = []\<rparr>,
      pcDB = [], pcFilter = DefaultFilterConfig,
      pcACL = \<lparr>AllowedCIDRs = [], AllowedUsers = [], AllowedDatabases = []\<rparr>\<rparr>"

record cli_env =
  cliTLS :: tls_env
  fileMissing :: "string \<Rightarrow> go_error option"
  decodeFile :: "string \<Rightarrow> ProxyConfig \<Rightarrow> ProxyConfig \<times> go_error option"
  fracNanos :: "nat \<Rightarrow> nat \<Rightarrow> nat \<Rightarrow> nat"

definition readConfig :: "cli_env \<Rightarrow> string \<Rightarrow> ProxyConfig result" where
  "readConfig env file =
     (case fileMissing env file of
        Some e \<Rightarrow> Inl (Errorf [Lit ''configuration file not found: '', Wrap e])
      | None \<Rightarrow>
          (case decodeFile env file zeroProxyConfig of
             (pc, Some e) \<Rightarrow> Inl (Errorf [Lit ''failed to parse configuration file: '', Wrap e])
           | (pc, None) \<Rightarrow>
               if length (pcDB pc) = 0
               then Inl (Errorf [Lit ''configuration error: no databases configured under [DB.*] in configuration file''])
               else Inr pc))"

text \<open>The options, in the order the function appends them.\<close>

definition buildTLS :: "cli_env \<Rightarrow> ServerConfig \<Rightarrow> 'f Option list result" where
  "buildTLS env sc =
     (if TLSCert sc \<noteq> [] \<or> TLSKey sc \<noteq> [] then
        (case NewFrontendTLSConfig (cliTLS env) (TLSCert sc) (TLSKey sc) (TLSClientCA sc) of
           Inl e \<Rightarrow> Inl (Errorf [Lit ''configuring frontend TLS: '', Wrap e])
         | Inr cfg \<Rightarrow> Inr [WithTLS (Some cfg)])
      else Inr [])"

definition buildStartOptions :: "cli_env \<Rightarrow> ProxyConfig \<Rightarrow> 'f Option list result" where
  "buildStartOptions env pc =
     (case buildTLS env (pcServer pc) of
        Inl e \<Rightarrow> Inl e
      | Inr opts \<Rightarrow>
          let opts1 = opts @
                (if 0 < length (AllowedCIDRs (pcACL pc)) \<or> 0 < length (AllowedUsers (pcACL pc)) \<or>
                    0 < length (AllowedDatabases (pcACL pc))
                 then [WithACL (pcACL pc)] else []);
              opts2 = opts1 @
                (if 0 < sint (MaxConnections (pcServer pc))
                 then [WithMaxConnections (MaxConnections (pcServer pc))] else []) in
          if IdleTimeout (pcServer pc) \<noteq> [] then
            (case ParseDuration (fracNanos env) (IdleTimeout (pcServer pc)) of
               Inl e \<Rightarrow> Inl (Errorf [Lit ''parsing ServerConfig.IdleTimeout '', Quoted (IdleTimeout (pcServer pc)),
                                Lit '': '', Wrap e])
             | Inr d \<Rightarrow> Inr (opts2 @ [WithIdleTimeout d]))
          else Inr opts2)"

section \<open>Reloading\<close>

definition reloadFilterConfig :: "cli_env \<Rightarrow> string \<Rightarrow> QueryFilter \<Rightarrow> QueryFilter \<times> go_error option" where
  "reloadFilterConfig env file queryFilter =
     (case readConfig env file of
        Inl e \<Rightarrow> (queryFilter, Some e)
      | Inr pc \<Rightarrow> (fst (UpdateConfig queryFilter (pcFilter pc)), None))"

section \<open>run\<close>

datatype cli_signal =
    Exit
  | Reload cli_env

datatype run_end =
    Fatal string go_error
  | TickerPanic
  | Waiting
  | Stopped

text \<open>The wait loop: it ends at the first exit signal.\<close>

fun waitLoop :: "string \<Rightarrow> cli_signal list \<Rightarrow> QueryFilter \<Rightarrow> QueryFilter \<times> run_end" where
  "waitLoop file [] queryFilter = (queryFilter, Waiting)"
| "waitLoop file (Exit # sigs) queryFilter = (queryFilter, Stopped)"
| "waitLoop file (Reload env # sigs) queryFilter =
     waitLoop file sigs (fst (reloadFilterConfig env file queryFilter))"

text \<open>
  \<open>time.NewTicker\<close> panics on an interval that is not positive. The periodic log: one snapshot for
  every tick until the stop function closes \<open>done\<close>; \<open>g\<close> are the operations of other goroutines between
  the loads of a snapshot.
\<close>

definition newTickerOk :: "Duration \<Rightarrow> bool" where
  "newTickerOk interval = (0 < sint interval)"

datatype metrics_event =
    Tick "nat \<Rightarrow> metricOp list" "Metrics option"
  | DoneClosed

fun logMetricsPeriodically :: "metrics_event list \<Rightarrow> MetricsSnapshot list" where
  "logMetricsPeriodically [] = []"
| "logMetricsPeriodically (Tick g m # es) = Snapshot g m # logMetricsPeriodically es"
| "logMetricsPeriodically (DoneClosed # es) = []"

text \<open>
  Up to the start of the proxy: the process ends with an error, or the server is started. The
  environment of the proxy gets the configured databases and the filter's handler.
\<close>

definition runEnv :: "QueryFilter proxy_env \<Rightarrow> parser_env \<Rightarrow> ProxyConfig \<Rightarrow> QueryFilter proxy_env" where
  "runEnv base penv pc = base\<lparr>envDBs := map_of (pcDB pc), envHandler := Some (filterHandler penv)\<rparr>"

definition runStart ::
  "cli_env \<Rightarrow> listen_env \<Rightarrow> QueryFilter proxy_env \<Rightarrow> parser_env \<Rightarrow> registry \<Rightarrow> 64 word \<Rightarrow> string \<Rightarrow>
     run_end + (ProxyConfig \<times> QueryFilter server_conf \<times> QueryFilter server)" where
  "runStart env io base penv reg cid configPath =
     (case readConfig env configPath of
        Inl e \<Rightarrow> Inl (Fatal [] e)
      | Inr pc \<Rightarrow>
          (case buildStartOptions env pc of
             Inl e \<Rightarrow> Inl (Fatal ''Invalid configuration: '' e)
           | Inr opts \<Rightarrow>
               let opts' = opts @ [WithMetrics (Some zeroMetrics)];
                   queryFilter = fst (NewQueryFilter (pcFilter pc)) in
               (case snd (Start io (runEnv base penv pc) reg cid queryFilter (ProxyAddr (pcServer pc)) opts') of
                  Inl e \<Rightarrow> Inl (Fatal ''Failed to start proxy: '' e)
                | Inr (c, v) \<Rightarrow> Inr (pc, c, v))))"

text \<open>The periodic log is set up when an interval is configured; a bad interval ends the process.\<close>

definition startMetricsLog :: "cli_env \<Rightarrow> ProxyConfig \<Rightarrow> run_end option" where
  "startMetricsLog env pc =
     (let interval = MetricsLogInterval (pcServer pc) in
      if interval \<noteq> [] then
        (case ParseDuration (fracNanos env) interval of
           Inl e \<Rightarrow> Some (Fatal ''Invalid configuration: ''
                      (Errorf [Lit ''parsing ServerConfig.MetricsLogInterval '', Quoted interval, Lit '': '', Wrap e]))
         | Inr d \<Rightarrow> if newTickerOk d then None else Some TickerPanic)
      else None)"

text \<open>The filter is an object the handler shares with \<open>run\<close>: updating it is seen by every session.\<close>

definition installFilter :: "QueryFilter \<Rightarrow> QueryFilter server \<Rightarrow> QueryFilter server" where
  "installFilter f v = v\<lparr>srvShared := (srvShared v)\<lparr>handlerState := f\<rparr>\<rparr>"

definition filterOf :: "QueryFilter server \<Rightarrow> QueryFilter" where
  "filterOf v = handlerState (srvShared v)"

text \<open>
  What \<open>run\<close>, taken alone, leaves behind: the server it started, if any, with the filter it has
  installed last and with \<open>stop\<close> called after an exit signal, and how it ended.
\<close>

record cli_state =
  cliServer :: "(QueryFilter server_conf \<times> QueryFilter server) option"
  cliEnd :: run_end

definition run ::
  "cli_env \<Rightarrow> listen_env \<Rightarrow> QueryFilter proxy_env \<Rightarrow> parser_env \<Rightarrow> registry \<Rightarrow> 64 word \<Rightarrow> string \<Rightarrow>
     cli_signal list \<Rightarrow> cli_state" where
  "run env io base penv reg cid configPath sigs =
     (case runStart env io base penv reg cid configPath of
        Inl e \<Rightarrow> \<lparr>cliServer = None, cliEnd = e\<rparr>
      | Inr (pc, c, v) \<Rightarrow>
          (case startMetricsLog env pc of
             Some e \<Rightarrow> \<lparr>cliServer = Some (c, v), cliEnd = e\<rparr>
           | None \<Rightarrow>
               let (queryFilter, e) = waitLoop configPath sigs (filterOf v);
                   v' = installFilter queryFilter v in
               \<lparr>cliServer = Some (c, if e = Stopped then stopCall v' else v'), cliEnd = e\<rparr>))"

section \<open>The program\<close>

text \<open>Where \<open>run\<close> is after it has started the server.\<close>

datatype main_pc =
    MMetrics
  | MWait
  | MStopMetrics
  | MStop
  | MStopping
  | MEnded run_end

record program =
  progServer :: "QueryFilter server"
  progPc :: main_pc
  progLogging :: bool
  progSignals :: "cli_signal list"

definition startedProgram :: "QueryFilter server \<Rightarrow> program" where
  "startedProgram v = \<lparr>progServer = v, progPc = MMetrics, progLogging = False, progSignals = []\<rparr>"

definition mainMetrics :: "cli_env \<Rightarrow> ProxyConfig \<Rightarrow> program \<Rightarrow> program" where
  "mainMetrics env pc P =
     (case startMetricsLog env pc of
        Some e \<Rightarrow> P\<lparr>progPc := MEnded e\<rparr>
      | None \<Rightarrow> P\<lparr>progPc := MWait, progLogging := (MetricsLogInterval (pcServer pc) \<noteq> [])\<rparr>)"

definition mainReload :: "cli_env \<Rightarrow> string \<Rightarrow> program \<Rightarrow> program" where
  "mainReload renv configPath P =
     P\<lparr>progServer := installFilter (fst (reloadFilterConfig renv configPath (filterOf (progServer P)))) (progServer P),
       progSignals := progSignals P @ [Reload renv]\<rparr>"

definition mainExit :: "program \<Rightarrow> program" where
  "mainExit P = P\<lparr>progPc := MStopMetrics, progSignals := progSignals P @ [Exit]\<rparr>"

definition mainStopMetrics :: "program \<Rightarrow> program" where
  "mainStopMetrics P = P\<lparr>progLogging := False, progPc := MStop\<rparr>"

definition mainStop :: "program \<Rightarrow> program" where
  "mainStop P = P\<lparr>progServer := stopCall (progServer P), progPc := MStopping\<rparr>"

definition running :: "program \<Rightarrow> bool" where
  "running P = (\<not> panicked (srvShared (progServer P)) \<and> (case progPc P of MEnded e \<Rightarrow> False | _ \<Rightarrow> True))"

text \<open>
  One step of the program: of a goroutine of the server, or of \<open>run\<close>. Nothing runs after \<open>run\<close> has
  ended, since \<open>main\<close> then returns.
\<close>

inductive program_step ::
  "cli_env \<Rightarrow> string \<Rightarrow> ProxyConfig \<Rightarrow> QueryFilter server_conf \<Rightarrow> program \<Rightarrow> program \<Rightarrow> bool"
  for env path pc c where
  goroutine: "\<lbrakk>running P; server_internal c (progServer P) v\<rbrakk>
    \<Longrightarrow> program_step env path pc c P (P\<lparr>progServer := v\<rparr>)"
| main_metrics: "\<lbrakk>running P; progPc P = MMetrics\<rbrakk> \<Longrightarrow> program_step env path pc c P (mainMetrics env pc P)"
| main_reload: "\<lbrakk>running P; progPc P = MWait\<rbrakk> \<Longrightarrow> program_step env path pc c P (mainReload renv path P)"
| main_exit: "\<lbrakk>running P; progPc P = MWait\<rbrakk> \<Longrightarrow> program_step env path pc c P (mainExit P)"
| main_stop_metrics: "\<lbrakk>running P; progPc P = MStopMetrics\<rbrakk>
    \<Longrightarrow> program_step env path pc c P (mainStopMetrics P)"
| main_stop: "\<lbrakk>running P; progPc P = MStop\<rbrakk> \<Longrightarrow> program_step env path pc c P (mainStop P)"
| main_return: "\<lbrakk>running P; progPc P = MStopping; stopPc (progServer P) = StReturned\<rbrakk>
    \<Longrightarrow> program_step env path pc c P (P\<lparr>progPc := MEnded Stopped\<rparr>)"

abbreviation program_reach ::
  "cli_env \<Rightarrow> string \<Rightarrow> ProxyConfig \<Rightarrow> QueryFilter server_conf \<Rightarrow> program \<Rightarrow> program \<Rightarrow> bool" where
  "program_reach env path pc c \<equiv> (program_step env path pc c)\<^sup>*\<^sup>*"

section \<open>The command\<close>

definition VERSION :: string where
  "VERSION = ''0.1.0''"

definition mainBody ::
  "cli_env \<Rightarrow> listen_env \<Rightarrow> QueryFilter proxy_env \<Rightarrow> parser_env \<Rightarrow> registry \<Rightarrow> 64 word \<Rightarrow> string \<Rightarrow> string \<Rightarrow>
     bool \<Rightarrow> cli_signal list \<Rightarrow> string + cli_state" where
  "mainBody env io base penv reg cid configPath proxyconf showVersion sigs =
     (if showVersion then Inl VERSION
      else
        let path = (if configPath = [] then proxyconf else configPath) in
        Inr (run env io base penv reg cid path sigs))"

text \<open>
  \<open>Main\<close>: the flags \<open>-config\<close> (default \<open>pgproxy.conf\<close>) and \<open>-version\<close>, then \<open>mainBody\<close> with the
  signal channels. The registry is empty and the connection counter zero when the process starts.
\<close>

definition Main ::
  "cli_env \<Rightarrow> listen_env \<Rightarrow> QueryFilter proxy_env \<Rightarrow> parser_env \<Rightarrow> string option \<Rightarrow> bool \<Rightarrow> cli_signal list \<Rightarrow>
     string \<Rightarrow> string + cli_state" where
  "Main env io base penv configFlag versionFlag sigs configPath =
     (let proxyconf = (case configFlag of None \<Rightarrow> ''pgproxy.conf'' | Some p \<Rightarrow> p) in
      mainBody env io base penv Map.empty 0 configPath proxyconf versionFlag sigs)"

definition main ::
  "cli_env \<Rightarrow> listen_env \<Rightarrow> QueryFilter proxy_env \<Rightarrow> parser_env \<Rightarrow> string option \<Rightarrow> bool \<Rightarrow> cli_signal list \<Rightarrow>
     string + cli_state" where
  "main env io base penv configFlag versionFlag sigs = Main env io base penv configFlag versionFlag sigs []"

section \<open>What the configuration leads to\<close>

lemma applyOptions_append: "applyOptions (xs @ ys) = fold (\<lambda>opt cfg. opt cfg) ys (applyOptions xs)"
  by (simp add: applyOptions_def)

lemma buildTLS_cases:
  "buildTLS env sc = Inr opts \<Longrightarrow>
     (opts = [] \<and> TLSCert sc = [] \<and> TLSKey sc = []) \<or>
     (\<exists>t. opts = [WithTLS (Some t)] \<and> (TLSCert sc \<noteq> [] \<or> TLSKey sc \<noteq> []) \<and>
        NewFrontendTLSConfig (cliTLS env) (TLSCert sc) (TLSKey sc) (TLSClientCA sc) = Inr t)"
  by (auto simp: buildTLS_def split: sum.splits if_splits)

lemma buildStartOptions_context:
  "buildStartOptions env pc = Inr opts \<Longrightarrow> cfgContextHandler (applyOptions (opts @ [WithMetrics m])) = None"
  by (auto simp: buildStartOptions_def applyOptions_append applyOptions_def zeroStartConfig_def option_defs Let_def
      split: sum.splits if_splits dest!: buildTLS_cases)

lemma runStart_Start:
  assumes "runStart env io base penv reg cid path = Inr (pc, c, v)"
  obtains opts acts where "readConfig env path = Inr pc" "buildStartOptions env pc = Inr opts"
    "Start io (runEnv base penv pc) reg cid (fst (NewQueryFilter (pcFilter pc))) (ProxyAddr (pcServer pc))
       (opts @ [WithMetrics (Some zeroMetrics)]) = (acts, Inr (c, v))"
proof -
  from assms obtain opts where opts: "readConfig env path = Inr pc" "buildStartOptions env pc = Inr opts"
      "snd (Start io (runEnv base penv pc) reg cid (fst (NewQueryFilter (pcFilter pc))) (ProxyAddr (pcServer pc))
         (opts @ [WithMetrics (Some zeroMetrics)])) = Inr (c, v)"
    by (auto simp: runStart_def Let_def split: sum.splits prod.splits)
  then show thesis using that by (metis prod.collapse)
qed

lemma Start_state:
  "Start io env reg cid f host opts = (acts, Inr (c, v)) \<Longrightarrow>
     handlerState (srvShared v) = f \<and> \<not> panicked (srvShared v) \<and> \<not> stopping v"
  by (auto simp: Start_def Let_def split: sum.splits prod.splits option.splits)

lemma runStart_state:
  assumes "runStart env io base penv reg cid path = Inr (pc, c, v)"
  shows "filterOf v = \<lparr>config = pcFilter pc\<rparr>" and "\<not> panicked (srvShared v)" and "\<not> stopping v"
proof -
  obtain opts acts where "Start io (runEnv base penv pc) reg cid (fst (NewQueryFilter (pcFilter pc)))
      (ProxyAddr (pcServer pc)) (opts @ [WithMetrics (Some zeroMetrics)]) = (acts, Inr (c, v))"
    using assms by (rule runStart_Start)
  from Start_state [OF this]
  show "filterOf v = \<lparr>config = pcFilter pc\<rparr>" "\<not> panicked (srvShared v)" "\<not> stopping v"
    by (simp_all add: filterOf_def NewQueryFilter_def)
qed

text \<open>
  C23. The options built from a configuration file give \<open>Start\<close> exactly what the file says: the ACL
  when one of its lists is not empty, the connection limit when it is positive, the idle timeout and
  the TLS configuration when they are set, and nothing else; building them fails only on an
  unusable TLS setting or a malformed timeout.
\<close>

theorem buildStartOptions_faithful:
  "case (buildStartOptions env pc :: 'f Option list result) of
     Inl e \<Rightarrow>
       \<not> (TLSCert (pcServer pc) = [] \<and> TLSKey (pcServer pc) = []) \<and>
         isl (NewFrontendTLSConfig (cliTLS env) (TLSCert (pcServer pc)) (TLSKey (pcServer pc)) (TLSClientCA (pcServer pc))) \<or>
       IdleTimeout (pcServer pc) \<noteq> [] \<and> isl (ParseDuration (fracNanos env) (IdleTimeout (pcServer pc)))
   | Inr opts \<Rightarrow>
       (let cfg = applyOptions (opts @ [WithMetrics (Some zeroMetrics)]); acl = pcACL pc; sc = pcServer pc in
        cfgACL cfg = (if AllowedCIDRs acl = [] \<and> AllowedUsers acl = [] \<and> AllowedDatabases acl = []
                      then None else Some acl) \<and>
        cfgMaxConnections cfg = (if 0 < sint (MaxConnections sc) then MaxConnections sc else 0) \<and>
        (if IdleTimeout sc = [] then cfgIdleTimeout cfg = 0
         else ParseDuration (fracNanos env) (IdleTimeout sc) = Inr (cfgIdleTimeout cfg)) \<and>
        (if TLSCert sc = [] \<and> TLSKey sc = [] then cfgTLS cfg = None
         else \<exists>t. cfgTLS cfg = Some t \<and>
           NewFrontendTLSConfig (cliTLS env) (TLSCert sc) (TLSKey sc) (TLSClientCA sc) = Inr t) \<and>
        cfgContextHandler cfg = None \<and> cfgMetrics cfg = Some zeroMetrics)"
proof (cases "buildTLS env (pcServer pc) :: 'f Option list result")
  case (Inl e)
  then show ?thesis by (auto simp: buildStartOptions_def buildTLS_def split: sum.splits if_splits)
next
  case (Inr tls)
  note opts = buildTLS_cases [OF Inr]
  show ?thesis
  proof (cases "IdleTimeout (pcServer pc) = []")
    case True
    with opts Inr show ?thesis
      by (auto simp: buildStartOptions_def applyOptions_append applyOptions_def zeroStartConfig_def option_defs Let_def)
  next
    case False
    then show ?thesis using opts Inr
      by (cases "ParseDuration (fracNanos env) (IdleTimeout (pcServer pc))")
         (auto simp: buildStartOptions_def applyOptions_append applyOptions_def zeroStartConfig_def option_defs Let_def)
  qed
qed

section \<open>What a reload leads to\<close>

text \<open>The filter sections of the files that could be read, up to the exit signal.\<close>

fun loadedConfigs :: "string \<Rightarrow> cli_signal list \<Rightarrow> FilterConfig list" where
  "loadedConfigs file [] = []"
| "loadedConfigs file (Exit # sigs) = []"
| "loadedConfigs file (Reload env # sigs) =
     (case readConfig env file of Inl e \<Rightarrow> [] | Inr pc \<Rightarrow> [pcFilter pc]) @ loadedConfigs file sigs"

text \<open>
  C24. The wait loop ends at the first exit signal, and the filter then has the configuration of the
  last file that could be read; a reload that fails keeps the configuration in force.
\<close>

theorem waitLoop_last_good:
  "config (fst (waitLoop path sigs f)) = last (config f # loadedConfigs path sigs) \<and>
   snd (waitLoop path sigs f) = (if Exit \<in> set sigs then Stopped else Waiting)"
proof (induction path sigs f rule: waitLoop.induct)
  case (3 path env sigs f)
  then show ?case
    by (cases "readConfig env path") (auto simp: reloadFilterConfig_def UpdateConfig_def)
qed simp_all

text \<open>
  C37. \<open>run\<close> panics, after the proxy was started, exactly when the configuration is valid and its
  metrics interval is a well-formed duration that is zero or negative.
\<close>

theorem metrics_interval_panic:
  "cliEnd (run env io base penv reg cid path sigs) = TickerPanic \<longleftrightarrow>
     (\<exists>pc opts srv d. readConfig env path = Inr pc \<and> buildStartOptions env pc = Inr opts \<and>
        snd (Start io (runEnv base penv pc) reg cid (fst (NewQueryFilter (pcFilter pc))) (ProxyAddr (pcServer pc))
          (opts @ [WithMetrics (Some zeroMetrics)])) = Inr srv \<and>
        MetricsLogInterval (pcServer pc) \<noteq> [] \<and>
        ParseDuration (fracNanos env) (MetricsLogInterval (pcServer pc)) = Inr d \<and> sint d \<le> 0)"
proof -
  have "snd (waitLoop path sigs f) \<noteq> TickerPanic" for f
    by (induction path sigs f rule: waitLoop.induct) auto
  then show ?thesis
    by (auto simp: run_def runStart_def startMetricsLog_def newTickerOk_def Let_def case_prod_unfold
        split: sum.splits option.splits if_splits)
qed

section \<open>The program and its server\<close>

text \<open>The filter sections in force at some time during the run.\<close>

definition filtersSeen :: "string \<Rightarrow> ProxyConfig \<Rightarrow> program \<Rightarrow> FilterConfig list" where
  "filtersSeen path pc P = pcFilter pc # loadedConfigs path (progSignals P)"

lemma loadedConfigs_snoc:
  "Exit \<notin> set sigs \<Longrightarrow> loadedConfigs path (sigs @ [Reload env]) =
     loadedConfigs path sigs @ (case readConfig env path of Inl e \<Rightarrow> [] | Inr pc \<Rightarrow> [pcFilter pc])"
  "Exit \<notin> set sigs \<Longrightarrow> loadedConfigs path (sigs @ [Exit]) = loadedConfigs path sigs"
  by (induction path sigs rule: loadedConfigs.induct) auto

text \<open>
  The server of the program only takes steps a server can take, the filter it uses is the one of
  the last file that was read, and \<open>stop\<close> is called once, at the end.
\<close>

definition progInv :: "string \<Rightarrow> ProxyConfig \<Rightarrow> QueryFilter server_conf \<Rightarrow> QueryFilter server \<Rightarrow> program \<Rightarrow> bool" where
  "progInv path pc c v0 P =
     (server_reach c ((\<lambda>cfg. \<lparr>config = cfg\<rparr>) ` set (filtersSeen path pc P)) v0 (progServer P) \<and>
      filterOf (progServer P) = \<lparr>config = last (filtersSeen path pc P)\<rparr> \<and>
      (Exit \<in> set (progSignals P) \<longleftrightarrow> progPc P \<in> {MStopMetrics, MStop, MStopping, MEnded Stopped}) \<and>
      (progPc P = MEnded Stopped \<longrightarrow> stopPc (progServer P) = StReturned) \<and>
      (stopping (progServer P) \<longleftrightarrow> progPc P = MStopping \<or> progPc P = MEnded Stopped))"

lemma progInv_start:
  assumes "runStart env io base penv reg cid path = Inr (pc, c, v)"
  shows "progInv path pc c v (startedProgram v)"
  using runStart_state [OF assms]
  by (simp add: progInv_def startedProgram_def filtersSeen_def server_reach.start)

lemma startMetricsLog_not_stopped: "startMetricsLog env pc \<noteq> Some Stopped"
  by (simp add: startMetricsLog_def Let_def split: sum.split)

lemma progInv_reload:
  assumes "progInv path pc c v0 P" and "progPc P = MWait" and "running P"
  shows "progInv path pc c v0 (mainReload renv path P)"
proof -
  let ?P = "mainReload renv path P"
  let ?H = "\<lambda>P. (\<lambda>cfg. \<lparr>config = cfg\<rparr>) ` set (filtersSeen path pc P)"
  have seen: "filtersSeen path pc ?P =
      filtersSeen path pc P @ (case readConfig renv path of Inl e \<Rightarrow> [] | Inr pc' \<Rightarrow> [pcFilter pc'])"
    using assms(1,2) by (simp add: filtersSeen_def mainReload_def progInv_def loadedConfigs_snoc)
  have new: "fst (reloadFilterConfig renv path (filterOf (progServer P))) = \<lparr>config = last (filtersSeen path pc ?P)\<rparr>"
    using assms(1) seen by (auto simp: progInv_def reloadFilterConfig_def UpdateConfig_def split: sum.splits)
  have "last (filtersSeen path pc ?P) \<in> set (filtersSeen path pc ?P)" by (simp add: filtersSeen_def)
  then have "\<lparr>config = last (filtersSeen path pc ?P)\<rparr> \<in> ?H ?P" by (rule imageI)
  from server_step.handler_state [OF _ this, of "progServer P" c]
  have "server_step c (?H ?P) (progServer P) (installFilter \<lparr>config = last (filtersSeen path pc ?P)\<rparr> (progServer P))"
    using assms(3) by (simp add: installFilter_def running_def)
  then have "server_step c (?H ?P) (progServer P) (progServer ?P)"
    unfolding new [symmetric] by (simp add: mainReload_def)
  moreover have "server_reach c (?H ?P) v0 (progServer P)"
    by (rule server_reach_mono [of c "?H P"]) (use assms(1) seen in \<open>auto simp: progInv_def\<close>)
  ultimately have "server_reach c (?H ?P) v0 (progServer ?P)" by (blast intro: server_reach.step)
  moreover have "filterOf (progServer ?P) = \<lparr>config = last (filtersSeen path pc ?P)\<rparr>"
    using new by (simp add: mainReload_def installFilter_def filterOf_def)
  ultimately show ?thesis
    using assms(1,2) by (simp add: progInv_def) (simp add: mainReload_def installFilter_def)
qed

lemma progInv_step:
  assumes "program_step env path pc c P P'" and "progInv path pc c v0 P"
  shows "progInv path pc c v0 P'"
  using assms(1)
proof (cases rule: program_step.cases)
  case (goroutine v)
  let ?H = "(\<lambda>cfg. \<lparr>config = cfg\<rparr>) ` set (filtersSeen path pc P)"
  have "server_reach c ?H v0 v"
    using assms(2) server_step.internal [OF goroutine(3)] by (auto simp: progInv_def intro: server_reach.step)
  with goroutine server_internal_keeps [OF goroutine(3)] assms(2) show ?thesis
    by (auto simp: progInv_def filtersSeen_def filterOf_def running_def)
next
  case main_metrics
  then show ?thesis
    using assms(2) startMetricsLog_not_stopped [of env pc]
    by (auto simp: progInv_def filtersSeen_def mainMetrics_def split: option.splits)
next
  case (main_reload renv)
  then show ?thesis using progInv_reload [OF assms(2)] by simp
next
  case main_exit
  then show ?thesis using assms(2) by (auto simp: progInv_def filtersSeen_def mainExit_def loadedConfigs_snoc)
next
  case main_stop
  let ?H = "(\<lambda>cfg. \<lparr>config = cfg\<rparr>) ` set (filtersSeen path pc P)"
  have "server_step c ?H (progServer P) (stopCall (progServer P))"
    using main_stop by (intro server_step.stop_call) (simp add: running_def)
  then have "server_reach c ?H v0 (stopCall (progServer P))"
    using assms(2) by (auto simp: progInv_def intro: server_reach.step)
  moreover have "\<not> stopping (progServer P)" using assms(2) main_stop by (simp add: progInv_def)
  ultimately show ?thesis
    using assms(2) main_stop by (simp add: progInv_def filtersSeen_def mainStop_def stopCall_def filterOf_def)
qed (use assms(2) in \<open>auto simp: progInv_def filtersSeen_def mainStopMetrics_def\<close>)

lemma progInv_reach:
  assumes "runStart env io base penv reg cid path = Inr (pc, c, v)"
    and "program_reach env path pc c (startedProgram v) P"
  shows "progInv path pc c v P"
  using assms(2) by (induction rule: rtranclp_induct) (auto intro: progInv_start [OF assms(1)] progInv_step)

section \<open>run alone is one of the interleavings\<close>

text \<open>The server's goroutines may take any number of steps while \<open>run\<close> stands still.\<close>

lemma goroutine_steps:
  assumes "(server_internal c)\<^sup>*\<^sup>* (progServer P) v" and "\<And>e. progPc P \<noteq> MEnded e"
  shows "program_reach env path pc c P (P\<lparr>progServer := v\<rparr>)"
  using assms(1)
proof (induction rule: rtranclp_induct)
  case (step v v')
  have "\<not> panicked (srvShared v)" using step(2) by (cases rule: server_internal.cases) auto
  then have "program_step env path pc c (P\<lparr>progServer := v\<rparr>) (P\<lparr>progServer := v, progServer := v'\<rparr>)"
    using step(2) assms(2) by (intro goroutine) (auto simp: running_def split: main_pc.split)
  with step.IH show ?case by simp
qed simp

lemma wait_steps:
  assumes "progPc P = MWait" and "running P"
  shows "\<exists>P'. program_reach env path pc c P P' \<and>
    (let (f, e) = waitLoop path sigs (filterOf (progServer P)); v = installFilter f (progServer P) in
     progServer P' = (if e = Stopped then stopCall v else v) \<and> progPc P' = (if e = Stopped then MStopping else MWait))"
  using assms
proof (induction path sigs "filterOf (progServer P)" arbitrary: P rule: waitLoop.induct)
  case (1 path)
  then show ?case by (intro exI [of _ P]) (simp add: installFilter_def filterOf_def)
next
  case (2 path sigs)
  let ?P1 = "mainExit P" and ?P2 = "mainStopMetrics (mainExit P)"
  note defs = mainExit_def mainStopMetrics_def mainStop_def running_def
  have "program_step env path pc c P ?P1" using 2 by (intro main_exit)
  moreover have "program_step env path pc c ?P1 ?P2"
    using 2 by (intro main_stop_metrics) (simp_all add: defs)
  moreover have "program_step env path pc c ?P2 (mainStop ?P2)" using 2 by (intro main_stop) (simp_all add: defs)
  ultimately have "program_reach env path pc c P (mainStop ?P2)"
    by (meson converse_rtranclp_into_rtranclp rtranclp.rtrancl_refl)
  then show ?case by (intro exI [of _ "mainStop ?P2"]) (simp add: defs installFilter_def filterOf_def)
next
  case (3 path renv sigs)
  let ?P1 = "mainReload renv path P"
  have P1: "filterOf (progServer ?P1) = fst (reloadFilterConfig renv path (filterOf (progServer P)))"
    "progPc ?P1 = MWait" "running ?P1" "installFilter f (progServer ?P1) = installFilter f (progServer P)" for f
    using 3(2,3) by (simp_all add: mainReload_def installFilter_def filterOf_def running_def)
  have "program_step env path pc c P ?P1" using 3(2,3) by (intro main_reload)
  moreover from 3(1) [OF P1(1) [symmetric] P1(2,3)] obtain P' where "program_reach env path pc c ?P1 P'"
    "let (f, e) = waitLoop path sigs (filterOf (progServer ?P1)); v = installFilter f (progServer ?P1) in
     progServer P' = (if e = Stopped then stopCall v else v) \<and> progPc P' = (if e = Stopped then MStopping else MWait)"
    by blast
  ultimately show ?case by (intro exI [of _ P']) (simp add: P1)
qed

lemma run_is_an_interleaving:
  assumes "runStart env io base penv reg cid path = Inr (pc, c, v)"
  shows "\<exists>P. program_reach env path pc c (startedProgram v) P \<and>
    cliServer (run env io base penv reg cid path sigs) = Some (c, progServer P) \<and>
    progPc P = (case cliEnd (run env io base penv reg cid path sigs) of
        Stopped \<Rightarrow> MStopping | Waiting \<Rightarrow> MWait | e \<Rightarrow> MEnded e)"
proof -
  let ?P = "mainMetrics env pc (startedProgram v)"
  have st: "program_step env path pc c (startedProgram v) ?P"
    using runStart_state(2) [OF assms] by (intro main_metrics) (simp_all add: startedProgram_def running_def)
  show ?thesis
  proof (cases "startMetricsLog env pc")
    case (Some e)
    moreover have "e \<noteq> Stopped" "e \<noteq> Waiting"
      using Some by (auto simp: startMetricsLog_def Let_def split: sum.splits if_splits)
    ultimately show ?thesis using st assms
      by (intro exI [of _ ?P]) (auto simp: run_def mainMetrics_def startedProgram_def split: run_end.split)
  next
    case None
    then have P: "progPc ?P = MWait" "running ?P" "progServer ?P = v"
      using runStart_state(2) [OF assms] by (simp_all add: mainMetrics_def startedProgram_def running_def)
    obtain f e where w: "waitLoop path sigs (filterOf v) = (f, e)" by fastforce
    have "snd (waitLoop path sigs g) \<in> {Stopped, Waiting}" for g
      by (induction path sigs g rule: waitLoop.induct) auto
    then have e: "e = Stopped \<or> e = Waiting" using w by (metis empty_iff insertE snd_conv)
    from wait_steps [OF P(1,2), of env path pc c sigs] obtain P' where P':
      "program_reach env path pc c ?P P'"
      "progServer P' = (if e = Stopped then stopCall (installFilter f v) else installFilter f v)"
      "progPc P' = (if e = Stopped then MStopping else MWait)"
      using w P(3) by (auto simp: Let_def)
    have "program_reach env path pc c (startedProgram v) P'"
      using st P'(1) by (rule converse_rtranclp_into_rtranclp)
    then show ?thesis using assms None w P'(2,3) e
      by (intro exI [of _ P']) (auto simp: run_def Let_def)
  qed
qed

end
