(* ===== verification/Spec2Isabelle.thy ===== *)
theory Spec2Isabelle
  imports Cli Server_Properties
begin

text \<open>
  Verification of pgproxy, a PostgreSQL proxy that filters SQL.

  \<^bold>\<open>The program.\<close> \<^verbatim>\<open>main.go\<close> and the package \<^verbatim>\<open>cli\<close> read a TOML configuration and start the
  proxy. The package \<^verbatim>\<open>proxy\<close> accepts clients, checks them against an access control list and a
  connection limit, connects each to its backend, and relays messages in both directions, passing the
  SQL text of every Query and Parse message to a handler that may refuse or rewrite it. The package
  \<^verbatim>\<open>parser\<close> is that handler: it parses the SQL, walks the syntax tree and decides by the configured
  rules. A SIGHUP replaces the rules while the proxy runs.

  \<^bold>\<open>The theories.\<close>

  \<^item> \<open>Pg_Prelude\<close>: Go errors, results and strings; the contract \<open>query_policy\<close> of a handler.
  \<^item> \<open>Redact\<close>, \<open>Ast_Walk\<close>, \<open>Query_Filter\<close>: \<^verbatim>\<open>parser/filter.go\<close>, that is \<open>redactSecrets\<close>;
    \<open>extractStatements\<close> and \<open>walkNodeTree\<close> on a heap of objects; \<open>FilterConfig\<close>, \<open>Filter\<close> and
    \<open>Handler\<close>. Shown: what is redacted and that the log depends on no secret, that the walk
    finds every nested statement on every heap, what \<open>Filter\<close> decides, that it never panics, and that loosening the rules only admits more.
  \<^item> \<open>Go_Net\<close>, \<open>Access_Control\<close>: Go's address parsing and \<^verbatim>\<open>proxy/acl.go\<close>. Shown: the addresses,
    users and databases an ACL admits, bit by bit for the networks.
  \<^item> \<open>Proxy_Metrics\<close>: \<^verbatim>\<open>proxy/metrics.go\<close>. Shown: what a snapshot counts, which is six loads
    with operations of other goroutines in between.
  \<^item> \<open>Proxy_Options\<close>: \<^verbatim>\<open>proxy/options.go\<close>; each option sets its field and the last one wins.
  \<^item> \<open>Pg_Proto\<close>, \<open>Backend_Auth\<close>: the messages, and \<^verbatim>\<open>proxy/auth.go\<close>. Shown: the answers to
    encryption requests, which connections are encrypted and verified, that no connection leaks.
  \<^item> \<open>Session\<close>, \<open>Session_Safety\<close>, \<open>Session_Properties\<close>: \<^verbatim>\<open>proxy/proxy.go\<close> from the type
    \<open>Proxy\<close> on. A session is a record; \<open>service\<close> and the two relays are program counters in it; the
    operations \<open>svc\<close>, \<open>inc\<close> and \<open>rsp\<close> are functions on the state, one per operation on shared
    state or network call, and \<open>session_step\<close> interleaves them. Invariants and properties follow.
  \<^item> \<open>Server\<close>, \<open>Server_Properties\<close>: \<open>Start\<close>, the accept loop, \<open>stop\<close> and the listener. Every
    session goroutine of the server is a session in the sense above (\<open>sessionOf\<close>), so that the
    session properties hold inside the server.
  \<^item> \<open>Go_Time\<close>, \<open>Cli\<close>: \<open>time.ParseDuration\<close>, and \<^verbatim>\<open>cli/cli.go\<close>, \<^verbatim>\<open>cli/utils.go\<close>,
    \<^verbatim>\<open>main.go\<close>. \<open>program_step\<close> runs the goroutine of \<open>run\<close>, with its reloads and its shutdown,
    beside those of the server; \<open>progInv\<close> shows that the server then takes only the steps of
    \<open>server_step\<close>, with the filters of the files that were read.
  \<^item> This theory: the firewall, the shutdown and the access control of the whole program.

  \<^bold>\<open>Interfaces.\<close> What one part promises another is a locale: \<open>query_policy\<close> (a handler) interpreted
  by the filter, \<open>guarded_session\<close> (a session whose handler follows a policy) interpreted below,
  \<open>graph_search\<close> by the tree walk, \<open>allowlist\<close> by the parts of the ACL, \<open>counter\<close> by the metrics,
  \<open>config_field\<close> by the options, \<open>session_invariant\<close> and \<open>server_invariant\<close> by the invariants.

  \<^bold>\<open>Concurrency.\<close> Goroutines take turns in any order. Reachable states of a session
  (\<open>session_reach\<close>) allow arbitrary changes of the shared state by others between its steps;
  reachable states of a server (\<open>server_reach\<close>) allow the program to call \<open>stop\<close> and to replace the
  handler's state at any time; reachable states of the program (\<open>program_reach\<close>) do this only where
  \<open>run\<close> does. Writes take effect completely or fail, and fail on a closed connection; reads from a
  closed connection may still return what was buffered. Closing the connections of all stored
  sessions at a forced stop is one step. A reload is one step: the file is read before the filter is
  replaced, and the replacement is atomic in the code.

  \<^bold>\<open>Parameters.\<close> The PostgreSQL parser and normaliser and Unicode case folding (\<open>parser_env\<close>), the
  pgproto3 encoder and decoders (\<open>codec\<close>), files and certificates (\<open>tls_env\<close>), sockets
  (\<open>listen_env\<close>), the TOML decoder and one floating-point operation (\<open>cli_env\<close>), the outcomes of
  network calls (arguments of the steps). No property assumes anything about them.

  \<^bold>\<open>Bounds.\<close> The only fuel is in \<open>durationLoop\<close>: the length of the text, which is enough since every
  turn consumes a character (\<open>durationLoop_fuel\<close>). Counters and durations are 64-bit words; channel
  capacity is 4 as in the code.

  \<^bold>\<open>Not modelled.\<close> Log output, the banner of \<open>info\<close>, the systemd notification, the example
  programs, wall-clock time (a timeout is one of the outcomes of a read), and partial writes.
\<close>

section \<open>The firewall, end to end\<close>

text \<open>
  The filter's handler guards every session it is given to: in each state of the filter, what it
  lets through satisfies the policy that some configuration the filter has had accepts the statement.
\<close>

interpretation filter_guard: guarded_session "env\<lparr>envHandler := Some (filterHandler penv)\<rparr>" H None
    "\<lambda>q. \<exists>f \<in> H. accepts penv f q"
  for env penv and H :: "QueryFilter set"
  by unfold_locales
     (auto simp: chooseHandler_def query_policy_def filterHandler_eq split: if_splits)

lemma filter_guard_sessions:
  assumes "server_reach c H v0 v" and "liveInv c H v0"
    and "srvEnv c = env\<lparr>envHandler := Some (filterHandler penv)\<rparr>" and "cfgContextHandler (srvCfg c) = None"
  shows "list_all (\<lambda>p. list_all (permittedFrame (envCodec env) (\<lambda>q. \<exists>f \<in> H. accepts penv f q))
    (toBackend (procSession p))) (procs v)"
proof -
  have "liveInv c H v" using live.reach_holds [OF assms(1,2)] .
  then have "sessionOf c H (srvShared v) p" if "p \<in> set (procs v)" for p
    using that by (simp add: liveInv_def list_all_iff)
  then show ?thesis
    using filter_guard.reach_permitted [where env = env and penv = penv and H = H] assms(3,4)
    by (fastforce simp: list_all_iff sessionOf_def)
qed

text \<open>
  C1. The proxy as a firewall, under every interleaving of all its goroutines and every replacement
  of the filter's configuration: a frame written to any backend is a Query or Parse whose SQL text
  one of the configurations in force during the run accepts, or a message that carries no SQL text.
\<close>

theorem proxy_is_a_firewall:
  assumes "Start io (env\<lparr>envHandler := Some (filterHandler penv)\<rparr>) reg cid f host opts = (acts, Inr (c, v0))"
    and "cfgContextHandler (applyOptions opts) = None" and "f \<in> H" and "server_reach c H v0 v"
  shows "list_all (\<lambda>p. list_all (permittedFrame (envCodec env) (\<lambda>q. \<exists>f \<in> H. accepts penv f q))
    (toBackend (procSession p))) (procs v)"
  using filter_guard_sessions [OF assms(4) Start_inits(3) [OF assms(1,3)]] Start_inits(5,6) [OF assms(1)] assms(2)
  by simp

text \<open>A client of a proxy with the default rules sends the statement of the example in \<open>cteEnv\<close>.\<close>

definition demoFilter :: "QueryFilter stateful_handler" where
  "demoFilter = filterHandler cteEnv"

definition demoOptions :: "QueryFilter Option list" where
  "demoOptions = [WithMetrics (Some zeroMetrics)]"

definition busyServer :: "QueryFilter server" where
  "busyServer =
     (let v = demoAccepted (demoConf demoFilter demoOptions) defaultFilter in
      runSession 0 (srvShared v) (demoSent demoFilter (srvShared v) ''WITH'') v)"

lemma busy_steps:
  "(server_internal (demoConf demoFilter demoOptions))\<^sup>*\<^sup>* (demoServer defaultFilter) busyServer"
  and busy_frames: "map (\<lambda>p. toBackend (procSession p)) (procs busyServer) = [[''QWITH'']]"
  and busy_alive: "\<not> panicked (srvShared busyServer)"
proof -
  let ?v = "demoAccepted (demoConf demoFilter demoOptions) defaultFilter"
  have plain: "plainOptions demoOptions" unfolding demoOptions_def by (rule plainOptions_examples(2))
  note acc = demo_accepted [OF plain refl, where h = demoFilter and f = defaultFilter]
  have h: "demoFilter (handlerState (srvShared ?v)) ''WITH'' = Inr (Some ''WITH'')"
    using cte_accepted acc(4) by (simp add: demoFilter_def filterHandler_eq)
  have "(session_step (srvEnv (demoConf demoFilter demoOptions)))\<^sup>*\<^sup>* (srvShared ?v, demoStart)
      (srvShared ?v, demoSent demoFilter (srvShared ?v) ''WITH'')"
    using demo_sent_steps(1) [where h = demoFilter, OF acc(3) h] by (simp add: demoConf_def)
  from session_steps [OF this, of 0 ?v] acc(1)
  show "(server_internal (demoConf demoFilter demoOptions))\<^sup>*\<^sup>* (demoServer defaultFilter) busyServer"
    by (simp add: acc(2) busyServer_def Let_def)
  show "map (\<lambda>p. toBackend (procSession p)) (procs busyServer) = [[''QWITH'']]"
    using demo_sent_steps(2) [where h = demoFilter, OF acc(3) h]
    by (simp add: busyServer_def runSession_def acc(2) Let_def)
  show "\<not> panicked (srvShared busyServer)" using acc(3) by (simp add: busyServer_def runSession_def Let_def)
qed

lemma busy_server:
  "server_reach (demoConf demoFilter demoOptions) {defaultFilter} (demoServer defaultFilter) busyServer"
  by (rule internal_reach [OF busy_steps server_reach.start])

lemma demoEnv_filter: "demoEnv demoFilter = (demoEnv demoFilter)\<lparr>envHandler := Some (filterHandler cteEnv)\<rparr>"
  by (simp add: demoEnv_def demoFilter_def)

lemma busy_start:
  "Start demoListen ((demoEnv demoFilter)\<lparr>envHandler := Some (filterHandler cteEnv)\<rparr>) Map.empty 0 defaultFilter
     '':6432'' demoOptions = ([Listen ''tcp'' '':6432''], Inr (demoConf demoFilter demoOptions, demoServer defaultFilter))"
  using demo_start [OF plainOptions_examples(2), of demoFilter defaultFilter] demoEnv_filter
  by (simp add: demoOptions_def)

theorem proxy_is_a_firewall_witness:
  "map (\<lambda>p. toBackend (procSession p)) (procs busyServer) = [[''QWITH'']] \<and>
   list_all (\<lambda>p. list_all (permittedFrame (envCodec (demoEnv demoFilter)) (\<lambda>q. \<exists>f \<in> {defaultFilter}. accepts cteEnv f q))
    (toBackend (procSession p))) (procs busyServer)"
  by (intro conjI busy_frames proxy_is_a_firewall [OF busy_start _ _ busy_server])
     (use plainOptions_examples(2) in \<open>auto simp: demoOptions_def applyOptions_def option_defs zeroStartConfig_def\<close>)

text \<open>
  C2. The program as a firewall. Let \<open>run\<close> have started the proxy, and let its own goroutine, which
  reloads the configuration at every SIGHUP, and the goroutines of the proxy take any steps in any
  order. Then the filter the handler uses is always the filter section of the last file that could
  be read, at the start or at a reload, so a reload that fails changes nothing; and a frame the
  proxy has written to a backend is a Query or Parse whose SQL text is accepted by the filter
  section of one of these files, or carries no SQL text.
\<close>

theorem run_is_a_firewall:
  assumes "runStart env io base penv reg cid path = Inr (pc, c, v0)"
    and "program_reach env path pc c (startedProgram v0) P"
  shows "readConfig env path = Inr pc \<and>
    handlerState (srvShared (progServer P)) =
      \<lparr>config = last (pcFilter pc # loadedConfigs path (progSignals P))\<rparr> \<and>
    list_all (\<lambda>p. list_all
      (permittedFrame (envCodec base)
        (\<lambda>q. \<exists>cfg \<in> set (pcFilter pc # loadedConfigs path (progSignals P)). accepts penv \<lparr>config = cfg\<rparr> q))
      (toBackend (procSession p))) (procs (progServer P))"
proof -
  let ?H = "(\<lambda>cfg. \<lparr>config = cfg\<rparr>) ` set (pcFilter pc # loadedConfigs path (progSignals P))"
  from assms(1) obtain opts acts where rd: "readConfig env path = Inr pc"
      and opts: "buildStartOptions env pc = Inr opts"
      and st: "Start io (runEnv base penv pc) reg cid (fst (NewQueryFilter (pcFilter pc))) (ProxyAddr (pcServer pc))
         (opts @ [WithMetrics (Some zeroMetrics)]) = (acts, Inr (c, v0))"
    by (rule runStart_Start)
  have inv: "server_reach c ?H v0 (progServer P)"
      "filterOf (progServer P) = \<lparr>config = last (pcFilter pc # loadedConfigs path (progSignals P))\<rparr>"
    using progInv_reach [OF assms] unfolding progInv_def filtersSeen_def by blast+
  have f: "fst (NewQueryFilter (pcFilter pc)) \<in> ?H" by (simp add: NewQueryFilter_def)
  have env: "srvEnv c = (base\<lparr>envDBs := map_of (pcDB pc)\<rparr>)\<lparr>envHandler := Some (filterHandler penv)\<rparr>"
    using Start_inits(5) [OF st] by (simp add: runEnv_def)
  have ctx: "cfgContextHandler (srvCfg c) = None"
    using Start_inits(6) [OF st] buildStartOptions_context [OF opts] by simp
  show ?thesis
    using rd inv(2) filter_guard_sessions [OF inv(1) Start_inits(3) [OF st f] env ctx]
    by (simp add: filterOf_def)
qed

definition demoConfigFile :: ProxyConfig where
  "demoConfigFile = zeroProxyConfig
     \<lparr>pcServer := (pcServer zeroProxyConfig)\<lparr>ProxyAddr := '':6432''\<rparr>, pcDB := [(''db'', demoDB)]\<rparr>"

definition demoCli :: cli_env where
  "demoCli = \<lparr>cliTLS = noFiles, fileMissing = (\<lambda>p. None), decodeFile = (\<lambda>p pc. (demoConfigFile, None)),
     fracNanos = (\<lambda>f k u. f * u div 10 ^ k)\<rparr>"

lemma demo_read: "readConfig demoCli ''pgproxy.conf'' = Inr demoConfigFile"
  by (simp add: readConfig_def demoCli_def demoConfigFile_def)

lemma demo_run:
  "runStart demoCli demoListen (demoEnv demoFilter) cteEnv Map.empty 0 ''pgproxy.conf'' =
     Inr (demoConfigFile, demoConf demoFilter demoOptions, demoServer defaultFilter)"
proof -
  have opts: "buildStartOptions demoCli demoConfigFile = Inr ([] :: QueryFilter Option list)"
    by (simp add: buildStartOptions_def buildTLS_def demoConfigFile_def zeroProxyConfig_def)
  have env: "runEnv (demoEnv demoFilter) cteEnv demoConfigFile =
      (demoEnv demoFilter)\<lparr>envHandler := Some (filterHandler cteEnv)\<rparr>"
    by (simp add: runEnv_def demoConfigFile_def demoEnv_def)
  have sc: "ProxyAddr (pcServer demoConfigFile) = '':6432''"
      "fst (NewQueryFilter (pcFilter demoConfigFile)) = defaultFilter"
    by (simp_all add: demoConfigFile_def zeroProxyConfig_def NewQueryFilter_def defaultFilter_def)
  show ?thesis
    using busy_start by (simp add: runStart_def demo_read opts env sc demoOptions_def Let_def)
qed

text \<open>
  The file is reloaded, first unsuccessfully and then with \<open>DELETE\<close> turned off, while the client's
  statement is on its way.
\<close>

definition brokenCli :: cli_env where
  "brokenCli = demoCli\<lparr>fileMissing := (\<lambda>p. Some EOF)\<rparr>"

definition strictFile :: ProxyConfig where
  "strictFile = demoConfigFile\<lparr>pcFilter := DefaultFilterConfig\<lparr>AllowDelete := False\<rparr>\<rparr>"

definition strictCli :: cli_env where
  "strictCli = demoCli\<lparr>decodeFile := (\<lambda>p pc. (strictFile, None))\<rparr>"

abbreviation demoReach :: "program \<Rightarrow> program \<Rightarrow> bool" where
  "demoReach \<equiv> program_reach demoCli ''pgproxy.conf'' demoConfigFile (demoConf demoFilter demoOptions)"

definition busyProgram :: program where
  "busyProgram = mainReload strictCli ''pgproxy.conf'' (mainReload brokenCli ''pgproxy.conf''
     \<lparr>progServer = busyServer, progPc = MWait, progLogging = False, progSignals = []\<rparr>)"

lemma demo_wait:
  "demoReach (startedProgram (demoServer defaultFilter))
     \<lparr>progServer = demoServer defaultFilter, progPc = MWait, progLogging = False, progSignals = []\<rparr>"
proof -
  have "program_step demoCli ''pgproxy.conf'' demoConfigFile (demoConf demoFilter demoOptions)
      (startedProgram (demoServer defaultFilter)) (mainMetrics demoCli demoConfigFile (startedProgram (demoServer defaultFilter)))"
    by (intro main_metrics) (simp_all add: startedProgram_def running_def demoServer_def)
  then show ?thesis
    by (auto simp: mainMetrics_def startMetricsLog_def startedProgram_def demoConfigFile_def zeroProxyConfig_def)
qed

lemma busy_program:
  "demoReach (startedProgram (demoServer defaultFilter)) busyProgram"
  "map (\<lambda>p. toBackend (procSession p)) (procs (progServer busyProgram)) = [[''QWITH'']]"
proof -
  let ?P0 = "\<lparr>progServer = demoServer defaultFilter, progPc = MWait, progLogging = False, progSignals = []\<rparr> :: program"
  let ?P1 = "\<lparr>progServer = busyServer, progPc = MWait, progLogging = False, progSignals = []\<rparr> :: program"
  let ?P2 = "mainReload brokenCli ''pgproxy.conf'' ?P1"
  have "demoReach ?P0 ?P1"
    using goroutine_steps [where P = ?P0, OF _ _, of "demoConf demoFilter demoOptions" busyServer] busy_steps by simp
  moreover have np: "\<not> panicked (srvShared busyServer)" by (rule busy_alive)
  then have "demoReach ?P1 ?P2" by (intro r_into_rtranclp main_reload) (simp_all add: running_def)
  moreover have "demoReach ?P2 busyProgram"
    unfolding busyProgram_def using np
    by (intro r_into_rtranclp main_reload) (simp_all add: running_def mainReload_def installFilter_def)
  ultimately show "demoReach (startedProgram (demoServer defaultFilter)) busyProgram"
    using demo_wait by (meson rtranclp_trans)
  show "map (\<lambda>p. toBackend (procSession p)) (procs (progServer busyProgram)) = [[''QWITH'']]"
    using busy_frames by (simp add: busyProgram_def mainReload_def installFilter_def)
qed

lemma busy_loaded:
  "loadedConfigs ''pgproxy.conf'' (progSignals busyProgram) = [DefaultFilterConfig\<lparr>AllowDelete := False\<rparr>]"
  by (simp add: busyProgram_def mainReload_def readConfig_def brokenCli_def strictCli_def demoCli_def strictFile_def
      demoConfigFile_def)

theorem run_is_a_firewall_witness:
  "map (\<lambda>p. toBackend (procSession p)) (procs (progServer busyProgram)) = [[''QWITH'']] \<and>
   handlerState (srvShared (progServer busyProgram)) = \<lparr>config = DefaultFilterConfig\<lparr>AllowDelete := False\<rparr>\<rparr> \<and>
   list_all (\<lambda>p. list_all
      (permittedFrame (envCodec (demoEnv demoFilter))
        (\<lambda>q. \<exists>cfg \<in> set (pcFilter demoConfigFile # loadedConfigs ''pgproxy.conf'' (progSignals busyProgram)).
           accepts cteEnv \<lparr>config = cfg\<rparr> q))
      (toBackend (procSession p))) (procs (progServer busyProgram))"
  using busy_program(2) run_is_a_firewall [OF demo_run busy_program(1)] busy_loaded by simp





section \<open>Access control, end to end\<close>

text \<open>
  C3. With an ACL configured, every session of the server belongs to a client whose address the ACL
  admits (an address without an IP, or one that a configured network covers), and it has a backend
  connection only if it has read a startup message whose own user and database are in the lists of
  the ACL, where these are not empty, and whose database is configured; the backend is that one's.
\<close>

theorem acl_is_enforced:
  assumes "Start io env reg cid f host opts = (acts, Inr (c, v0))" and "cfgACL (applyOptions opts) = Some a"
    and "f \<in> H" and "server_reach c H v0 v"
  shows "list_all (\<lambda>p. let s = procSession p in
    (AllowedCIDRs a = [] \<or>
     (case ParseIP (addrHost (remoteAddr s)) of
        None \<Rightarrow> True | Some x \<Rightarrow> \<exists>net \<in> set (AllowedCIDRs a). entryCovers net x)) \<and>
    (rconn s = None \<or>
     (\<exists>version ps db. gotStartup s = Some (StartupMessage version ps) \<and>
        (AllowedUsers a = [] \<or> param ps ''user'' \<in> set (AllowedUsers a)) \<and>
        (AllowedDatabases a = [] \<or> param ps ''database'' \<in> set (AllowedDatabases a)) \<and>
        envDBs env (param ps ''database'') = Some db \<and> backendTgt s = targetFor (Addr db)))) (procs v)"
proof -
  obtain ca where ca: "srvACL c = Some ca" "compileACL (Some a) = Inr (Some ca)"
    using Start_inits(8) [OF assms(1)] assms(2)
    by (cases "srvACL c") (auto simp: compileACL_def split: sum.splits)
  have addr: "addrInv c v" using addresses.reach_holds [OF assms(4)] Start_inits(7) [OF assms(1)] by blast
  have live: "liveInv c H v" using live.reach_holds [OF assms(4) Start_inits(3) [OF assms(1,3)]] .
  have "rconn (procSession p) = None \<or> (\<exists>version ps.
      gotStartup (procSession p) = Some (StartupMessage version ps) \<and> admitted env (Some ca) (backendTgt (procSession p)) ps)"
    if "p \<in> set (procs v)" for p
  proof -
    from that live obtain conn raddr where
      "session_reach (srvEnv c) H (newSession conn (procID p) raddr (cfgTLS (srvCfg c)) (srvACL c)
         (cfgContextHandler (srvCfg c)) (cfgIdleTimeout (srvCfg c))) (srvShared v, procSession p)"
      by (auto simp: liveInv_def list_all_iff sessionOf_def)
    from session.reach_holds [OF this] have "authInv env (Some ca) (procSession p)"
      using Start_inits(5) [OF assms(1)] ca(1) by (simp add: sessionInv_def newSession_def)
    then show ?thesis by (auto simp: authInv_def)
  qed
  then show ?thesis
    using addr ca checkAddr_iff [OF ca(2)] checkNames_iff [OF ca(2)]
    by (fastforce simp: list_all_iff addrInv_def admitted_def Let_def)
qed

text \<open>A client on a unix socket, under the ACL of the office network.\<close>

definition officeOptions :: "unit Option list" where
  "officeOptions = [WithACL officeACL]"

definition officeConf :: "unit server_conf" where
  "officeConf = \<lparr>srvEnv = demoEnv passHandler, srvCfg = applyOptions officeOptions, srvACL = Some officeCompiled\<rparr>"

lemma office_start:
  "Start demoListen (demoEnv passHandler) Map.empty 0 () '':6432'' officeOptions =
     ([Listen ''tcp'' '':6432''], Inr (officeConf, demoServer ()))"
  using officeACL_compiles
  by (simp add: Start_def getListener_def demoListen_def officeConf_def demoServer_def demoShared_def officeOptions_def
      applyOptions_def option_defs zeroStartConfig_def)

lemma office_peer: "checkAddr (Some officeCompiled) ''@'' = None"
proof -
  have "ParseIP (addrHost ''@'') = None" by code_simp
  then show ?thesis by (simp add: checkAddr_def Let_def)
qed

definition officeAdmitted :: "unit server" where
  "officeAdmitted = admit officeConf (NetConn 5) ''@'' (demoServer ())"

definition officeGot :: "unit session" where
  "officeGot = (newSession (NetConn 5) 1 ''@'' None (Some officeCompiled) None 0)
     \<lparr>svc := SvcGot (StartupMessage 196608 demoParams), gotStartup := Some (StartupMessage 196608 demoParams)\<rparr>"

text \<open>It asks for the user \<open>app\<close> and gets its backend.\<close>

definition officeServer :: "unit server" where
  "officeServer =
     (case serviceStartup (demoEnv passHandler) refusingIO True 196608 demoParams (srvShared officeAdmitted, officeGot) of
        (sh, s) \<Rightarrow> runSession 0 sh s officeAdmitted)"

lemma office_admitted:
  "(server_internal officeConf)\<^sup>*\<^sup>* (demoServer ()) officeAdmitted"
  "procs officeAdmitted =
     [\<lparr>procID = 1, procSession = newSession (NetConn 5) 1 ''@'' None (Some officeCompiled) None 0, procPc = PRun\<rparr>]"
  "\<not> panicked (srvShared officeAdmitted)"
proof -
  have v: "\<not> panicked (srvShared (demoServer ()))" "acceptPc (demoServer ()) = AAccept" "listening (demoServer ())"
      "checkAddr (srvACL officeConf) ''@'' = None" "forceClosed (demoServer ()) = {}"
    by (simp_all add: demoServer_def office_peer officeConf_def)
  have "cfgMaxConnections (srvCfg officeConf) = 0 \<or> cfgMaxConnections (srvCfg officeConf) = 1"
    by (simp add: officeConf_def officeOptions_def applyOptions_def option_defs zeroStartConfig_def)
  note adm = admit_steps [OF v(1-4) demo_not_at_limit [OF this] v(5), where conn = "NetConn 5", folded officeAdmitted_def]
  show "(server_internal officeConf)\<^sup>*\<^sup>* (demoServer ()) officeAdmitted" by (rule adm(1))
  show "procs officeAdmitted =
     [\<lparr>procID = 1, procSession = newSession (NetConn 5) 1 ''@'' None (Some officeCompiled) None 0, procPc = PRun\<rparr>]"
    using adm(2) by (simp add: demoServer_def officeConf_def officeOptions_def applyOptions_def option_defs zeroStartConfig_def)
  show "\<not> panicked (srvShared officeAdmitted)" using adm(3) v(1) by simp
qed

lemma office_connected:
  "server_reach officeConf {()} (demoServer ()) officeServer"
  "map (\<lambda>p. rconn (procSession p)) (procs officeServer) = [Some (NetConn 9)]"
proof -
  let ?sh = "srvShared officeAdmitted" and ?s0 = "newSession (NetConn 5) 1 ''@'' None (Some officeCompiled) None 0"
  obtain sh s where st: "serviceStartup (demoEnv passHandler) refusingIO True 196608 demoParams (?sh, officeGot) = (sh, s)"
    by fastforce
  have "serviceRead [says (StartupMessage 196608 demoParams)] ?s0 = Some officeGot"
    by (simp add: serviceRead_def says_def officeGot_def newSession_def)
  then have "session_step (demoEnv passHandler) (?sh, ?s0) (?sh, officeGot)"
    using office_admitted(3) by (intro svc_read [of _ _ "[says (StartupMessage 196608 demoParams)]"]) (simp_all add: newSession_def)
  moreover have "session_step (demoEnv passHandler) (?sh, officeGot) (sh, s)"
    using svc_startup [of ?sh officeGot 196608 demoParams True "demoEnv passHandler" refusingIO] office_admitted(3) st
    by (simp add: officeGot_def newSession_def)
  ultimately have "(session_step (srvEnv officeConf))\<^sup>*\<^sup>* (?sh, ?s0) (sh, s)"
    unfolding officeConf_def by simp
  from reach_session_steps [OF this, of 0 officeAdmitted, OF _ _ internal_reach [OF office_admitted(1) server_reach.start]]
  show "server_reach officeConf {()} (demoServer ()) officeServer"
    by (simp add: office_admitted(2) officeServer_def st)
  have "rconn s = Some (NetConn 9)"
    using st by (auto simp: serviceStartup_def demoEnv_def officeGot_def newSession_def param_def demoParams_def
        checkDatabase_def checkUser_def nameAllowed_def officeCompiled_def demo_connect [unfolded demoParams_def] Let_def)
  then show "map (\<lambda>p. rconn (procSession p)) (procs officeServer) = [Some (NetConn 9)]"
    by (simp add: officeServer_def st runSession_def office_admitted(2))
qed

theorem acl_is_enforced_witness:
  "map (\<lambda>p. rconn (procSession p)) (procs officeServer) = [Some (NetConn 9)] \<and>
   list_all (\<lambda>p. let s = procSession p in
    (AllowedCIDRs officeACL = [] \<or>
     (case ParseIP (addrHost (remoteAddr s)) of
        None \<Rightarrow> True | Some x \<Rightarrow> \<exists>net \<in> set (AllowedCIDRs officeACL). entryCovers net x)) \<and>
    (rconn s = None \<or>
     (\<exists>version ps db. gotStartup s = Some (StartupMessage version ps) \<and>
        (AllowedUsers officeACL = [] \<or> param ps ''user'' \<in> set (AllowedUsers officeACL)) \<and>
        (AllowedDatabases officeACL = [] \<or> param ps ''database'' \<in> set (AllowedDatabases officeACL)) \<and>
        envDBs (demoEnv passHandler) (param ps ''database'') = Some db \<and> backendTgt s = targetFor (Addr db))))
    (procs officeServer)"
  by (intro conjI office_connected(2) acl_is_enforced [OF office_start _ _ office_connected(1)])
     (simp_all add: officeOptions_def applyOptions_def option_defs zeroStartConfig_def)

end
